theory Spec2Isabelle
  imports Complex_Main
begin

section \<open>Geometry utilities (src/utils/gameMath.ts)\<close>

text \<open>
  JavaScript numbers are modelled as mathematical reals: rounding, NaN and the
  infinities of IEEE doubles are outside this development.
\<close>

record Point =
  px :: real
  py :: real

definition randomRange :: "real \<Rightarrow> real \<Rightarrow> real \<Rightarrow> real" where
  \<comment> \<open>\<open>Math.random() * (max - min) + min\<close>; the first argument is the value drawn by \<open>Math.random()\<close>.\<close>
  "randomRange r mn mx = r * (mx - mn) + mn"

definition distance :: "Point \<Rightarrow> Point \<Rightarrow> real" where
  "distance p1 p2 =
     (let dx = px p1 - px p2; dy = py p1 - py p2 in sqrt (dx * dx + dy * dy))"

definition rotatePoint :: "Point \<Rightarrow> real \<Rightarrow> Point" where
  "rotatePoint p angle =
     \<lparr> px = px p * cos angle - py p * sin angle,
       py = px p * sin angle + py p * cos angle \<rparr>"

text \<open>
  \<open>normalizeAngle\<close> is two consecutive \<open>while\<close> loops; each becomes a recursive
  function whose termination is proved with a measure.
\<close>

function normalizeDown :: "real \<Rightarrow> real" where
  "normalizeDown angle = (if angle > pi then normalizeDown (angle - pi * 2) else angle)"
  by pat_completeness auto
termination
proof (relation "measure (\<lambda>a. nat \<lceil>a / (pi * 2)\<rceil>)")
  show "wf (measure (\<lambda>a. nat \<lceil>a / (pi * 2)\<rceil>))" by simp
next
  fix angle :: real
  assume gt: "pi < angle"
  have "(angle - pi * 2) / (pi * 2) = angle / (pi * 2) - 1"
    by (simp add: field_simps)
  then have c: "\<lceil>(angle - pi * 2) / (pi * 2)\<rceil> = \<lceil>angle / (pi * 2)\<rceil> - 1"
    by simp
  have "0 < angle" using gt pi_gt_zero by linarith
  then have "0 < angle / (pi * 2)" using pi_gt_zero by (intro divide_pos_pos) simp_all
  then have "0 < \<lceil>angle / (pi * 2)\<rceil>" by simp
  with c show "(angle - pi * 2, angle) \<in> measure (\<lambda>a. nat \<lceil>a / (pi * 2)\<rceil>)"
    by simp
qed

function normalizeUp :: "real \<Rightarrow> real" where
  "normalizeUp angle = (if angle < - pi then normalizeUp (angle + pi * 2) else angle)"
  by pat_completeness auto
termination
proof (relation "measure (\<lambda>a. nat \<lceil>- a / (pi * 2)\<rceil>)")
  show "wf (measure (\<lambda>a. nat \<lceil>- a / (pi * 2)\<rceil>))" by simp
next
  fix angle :: real
  assume lt: "angle < - pi"
  have "- (angle + pi * 2) / (pi * 2) = - angle / (pi * 2) - 1"
    by (simp add: field_simps)
  then have c: "\<lceil>- (angle + pi * 2) / (pi * 2)\<rceil> = \<lceil>- angle / (pi * 2)\<rceil> - 1"
    by simp
  have "0 < - angle" using lt pi_gt_zero by linarith
  then have "0 < - angle / (pi * 2)" using pi_gt_zero by (intro divide_pos_pos) simp_all
  then have "0 < \<lceil>- angle / (pi * 2)\<rceil>" by (simp only: zero_less_ceiling)
  with c have "nat \<lceil>- (angle + pi * 2) / (pi * 2)\<rceil> < nat \<lceil>- angle / (pi * 2)\<rceil>"
    by linarith
  then show "(angle + pi * 2, angle) \<in> measure (\<lambda>a. nat \<lceil>- a / (pi * 2)\<rceil>)"
    by (simp only: in_measure)
qed

declare normalizeDown.simps [simp del]
declare normalizeUp.simps [simp del]

definition normalizeAngle :: "real \<Rightarrow> real" where
  "normalizeAngle angle = normalizeUp (normalizeDown angle)"

definition wrapPosition :: "Point \<Rightarrow> real \<Rightarrow> real \<Rightarrow> Point" where
  "wrapPosition pos width height =
     (let x = px pos;
          y = py pos;
          x = (if x < 0 then width else x);
          x = (if x > width then 0 else x);
          y = (if y < 0 then height else y);
          y = (if y > height then 0 else y)
      in \<lparr> px = x, py = y \<rparr>)"

section \<open>Entity model (src/types.ts)\<close>

text \<open>
  The interfaces of \<open>types.ts\<close> become records. \<open>Entity\<close> is the common base;
  fields that several interfaces declare under one name (\<open>life\<close>, \<open>rotationSpeed\<close>)
  live in a shared extension so that the name is declared once. \<open>id\<close>, \<open>size\<close> and
  \<open>type\<close> are renamed (\<open>ident\<close>, \<open>asteroidSize\<close>/\<open>particleSize\<close>,
  \<open>powerUpType\<close>) because HOL already uses those names.
\<close>

datatype Ident = NamedId string | RandomId real
  \<comment> \<open>\<open>'hero'\<close>, \<open>'ufo'\<close>, or \<open>Math.random().toString()\<close> (kept as the number drawn)\<close>

record Entity =
  ident :: Ident
  position :: Point
  velocity :: Point
  angle :: real
  radius :: real
  color :: string
  dead :: bool

record Spinning = Entity +
  rotationSpeed :: real

record Ship = Spinning +
  thrusting :: bool
  invulnerable :: real
  cooldown :: real
  powerupMultiShotTimer :: real
  powerupShieldTimer :: real
  powerupTimeSlowTimer :: real
  missileAmmo :: int

record Ufo = Entity +
  directionChangeTimer :: real
  shootCooldown :: real
  accuracy :: real

datatype Size = large | medium | small

record Asteroid = Spinning +
  asteroidSize :: Size
  vertices :: "Point list"

datatype Owner = OwnerShip | OwnerUfo

record Mortal = Entity +
  life :: real

record Bullet = Mortal +
  owner :: Owner

record Particle = Mortal +
  maxLife :: real
  particleSize :: real

datatype PowerUpType = MULTI_SHOT | SHIELD | TIME_SLOW | MISSILE

record PowerUp = Mortal +
  powerUpType :: PowerUpType

record Missile = Mortal +
  targetId :: "string option"

datatype GameState = MENU | PLAYING | GAME_OVER | ENTER_INITIALS | HIGH_SCORES | LEVEL_TRANSITION

definition checkCollision :: "('a Entity_scheme) \<Rightarrow> ('b Entity_scheme) \<Rightarrow> bool" where
  "checkCollision e1 e2 \<longleftrightarrow> distance (position e1) (position e2) < radius e1 + radius e2"

definition generateAsteroidVertices :: "(nat \<Rightarrow> real) \<Rightarrow> real \<Rightarrow> nat \<Rightarrow> Point list" where
  \<comment> \<open>\<open>rs i\<close> is the value \<open>Math.random()\<close> returns in iteration \<open>i\<close> of the loop.\<close>
  "generateAsteroidVertices rs rad numVertices =
     map (\<lambda>i. let ang = (real i / real numVertices) * pi * 2;
                   r = rad * randomRange (rs i) 0.7 1.3
               in \<lparr> px = cos ang * r, py = sin ang * r \<rparr>) [0..<numVertices]"

section \<open>Game constants and state (src/unnamed/part_000)\<close>

abbreviation DEG_TO_RAD :: real where "DEG_TO_RAD \<equiv> pi / 180"
abbreviation SHIP_SIZE :: real where "SHIP_SIZE \<equiv> 20"
abbreviation TURN_SPEED :: real where "TURN_SPEED \<equiv> 240 * DEG_TO_RAD"
abbreviation THRUST_POWER :: real where "THRUST_POWER \<equiv> 300"
abbreviation BULLET_SPEED :: real where "BULLET_SPEED \<equiv> 400"
abbreviation UFO_BULLET_SPEED :: real where "UFO_BULLET_SPEED \<equiv> 200"
abbreviation BULLET_LIFE :: real where "BULLET_LIFE \<equiv> 1.5"
abbreviation FIRE_RATE :: real where "FIRE_RATE \<equiv> 0.2"
abbreviation POWERUP_DURATION :: real where "POWERUP_DURATION \<equiv> 10.0"
abbreviation POWERUP_DROP_RATE :: real where "POWERUP_DROP_RATE \<equiv> 0.1"
abbreviation MISSILE_SPEED :: real where "MISSILE_SPEED \<equiv> 350"
abbreviation MISSILE_TURN_SPEED :: real where "MISSILE_TURN_SPEED \<equiv> 3.0"
abbreviation UFO_SPEED :: real where "UFO_SPEED \<equiv> 100"
abbreviation UFO_SIZE :: real where "UFO_SIZE \<equiv> 20"
abbreviation UFO_SPAWN_RATE_MIN :: real where "UFO_SPAWN_RATE_MIN \<equiv> 15000"
abbreviation UFO_SPAWN_RATE_MAX :: real where "UFO_SPAWN_RATE_MAX \<equiv> 30000"
abbreviation UFO_FIRE_RATE :: real where "UFO_FIRE_RATE \<equiv> 1.5"

record AsteroidConfig =
  cfgRadius :: real
  cfgScore :: int
  cfgSpeed :: real
  cfgCount :: nat

fun ASTEROID_CONFIG :: "Size \<Rightarrow> AsteroidConfig" where
  "ASTEROID_CONFIG large = \<lparr> cfgRadius = 40, cfgScore = 20, cfgSpeed = 50, cfgCount = 2 \<rparr>"
| "ASTEROID_CONFIG medium = \<lparr> cfgRadius = 25, cfgScore = 50, cfgSpeed = 80, cfgCount = 3 \<rparr>"
| "ASTEROID_CONFIG small = \<lparr> cfgRadius = 15, cfgScore = 100, cfgSpeed = 120, cfgCount = 0 \<rparr>"

text \<open>
  Deferred and asynchronous actions the component issues (\<open>setTimeout\<close>,
  \<open>fetchAiCommentary\<close>) are recorded, in the order issued, in the \<open>deferred\<close>
  log of the state. A respawn timeout records the value of \<open>lives\<close> its closure
  captured.
\<close>

datatype CommentaryContext = start | game_over | level_clear

datatype Deferred =
    FetchAiCommentary CommentaryContext "int option"
  | RespawnTimeout int
  | GameOverTimeout
  | NextLevelTimeout int
  | StartTimeout

text \<open>
  \<open>Game\<close> holds the React state (\<open>gameState\<close>, \<open>score\<close>, \<open>lives\<close>, \<open>level\<close>,
  \<open>aiMessage\<close>, \<open>isAiLoading\<close>) as the setters leave it, the mutable refs, and the
  stream of values \<open>Math.random()\<close> returns together with the number already drawn.
\<close>

record Game =
  gameState :: GameState
  score :: int
  lives :: int
  level :: int
  aiMessage :: string
  isAiLoading :: bool
  shipRef :: "Ship option"
  ufoRef :: "Ufo option"
  asteroidsRef :: "Asteroid list"
  bulletsRef :: "Bullet list"
  particlesRef :: "Particle list"
  powerUpsRef :: "PowerUp list"
  missilesRef :: "Missile list"
  keysRef :: "string \<Rightarrow> bool"
  lastUfoSpawnTimeRef :: real
  nextUfoSpawnDelayRef :: real
  previousTimeRef :: real
  randoms :: "nat \<Rightarrow> real"
  drawn :: nat
  deferred :: "Deferred list"

text \<open>
  Inside \<open>animate\<close> the identifiers \<open>gameState\<close>, \<open>score\<close>, \<open>lives\<close> and \<open>level\<close>
  denote the constants of the render that created the closure, not the latest React
  state. They are the parameter \<open>Render\<close>.
\<close>

record Render =
  rGameState :: GameState
  rScore :: int
  rLives :: int
  rLevel :: int

definition rnd :: "Game \<Rightarrow> nat \<Rightarrow> real" where
  \<comment> \<open>the value of the \<open>k\<close>-th next call of \<open>Math.random()\<close>\<close>
  "rnd s k = randoms s (drawn s + k)"

definition draw :: "nat \<Rightarrow> Game \<Rightarrow> Game" where
  "draw k s = s\<lparr> drawn := drawn s + k \<rparr>"

definition moved :: "Point \<Rightarrow> Point \<Rightarrow> real \<Rightarrow> Point" where
  \<comment> \<open>\<open>p.x += v.x * dt; p.y += v.y * dt\<close>\<close>
  "moved p v dt = \<lparr> px = px p + px v * dt, py = py p + py v * dt \<rparr>"

definition atan2 :: "real \<Rightarrow> real \<Rightarrow> real" where
  \<comment> \<open>\<open>Math.atan2(y, x)\<close> on reals (signed zeros are not distinguished)\<close>
  "atan2 y x =
     (if 0 < x then arctan (y / x)
      else if x < 0 then (if 0 \<le> y then arctan (y / x) + pi else arctan (y / x) - pi)
      else if 0 < y then pi / 2
      else if y < 0 then - (pi / 2)
      else 0)"

subsection \<open>Helpers\<close>

definition explosionParticle :: "Point \<Rightarrow> string \<Rightarrow> (nat \<Rightarrow> real) \<Rightarrow> Particle" where
  \<comment> \<open>one iteration of \<open>createExplosion\<close>; draws: speed, angle, id, life, size\<close>
  "explosionParticle pos col rs =
     (let speed = randomRange (rs 0) 50 150;
          ang = randomRange (rs 1) 0 (pi * 2)
      in \<lparr> ident = RandomId (rs 2),
           position = pos,
           velocity = \<lparr> px = cos ang * speed, py = sin ang * speed \<rparr>,
           angle = 0, radius = 1, color = col, dead = False,
           life = randomRange (rs 3) 0.5 1.0,
           maxLife = 1.0,
           particleSize = randomRange (rs 4) 1 3 \<rparr>)"

definition createExplosion :: "Point \<Rightarrow> string \<Rightarrow> nat \<Rightarrow> Game \<Rightarrow> Game" where
  "createExplosion pos col count s =
     s\<lparr> particlesRef := particlesRef s @
            map (\<lambda>i. explosionParticle pos col (\<lambda>k. rnd s (5 * i + k))) [0..<count],
        drawn := drawn s + 5 * count \<rparr>"

definition powerUpTypes :: "int \<Rightarrow> PowerUpType" where
  \<comment> \<open>\<open>types[i]\<close> for \<open>['MULTI_SHOT', 'SHIELD', 'TIME_SLOW', 'MISSILE']\<close>; the index is
      \<open>Math.floor(Math.random() * 4)\<close>, which \<open>Math.random()\<close> in [0, 1) keeps in 0..3\<close>
  "powerUpTypes i = (if i \<le> 0 then MULTI_SHOT else if i = 1 then SHIELD
                     else if i = 2 then TIME_SLOW else MISSILE)"

definition powerUpColor :: "PowerUpType \<Rightarrow> string" where
  "powerUpColor t = (if t = MULTI_SHOT then ''#facc15'' else if t = SHIELD then ''#3b82f6''
                     else if t = TIME_SLOW then ''#a855f7'' else ''#ef4444'')"

definition spawnPowerUp :: "Point \<Rightarrow> Game \<Rightarrow> Game" where
  "spawnPowerUp pos s =
     (if rnd s 0 > POWERUP_DROP_RATE then draw 1 s
      else
        let t = powerUpTypes \<lfloor>rnd s 1 * 4\<rfloor>;
            p = \<lparr> ident = RandomId (rnd s 2),
                  position = pos,
                  velocity = \<lparr> px = randomRange (rnd s 3) (-20) 20,
                               py = randomRange (rnd s 4) (-20) 20 \<rparr>,
                  angle = 0, radius = 15, color = powerUpColor t, dead = False,
                  life = 15.0,
                  powerUpType = t \<rparr>
        in s\<lparr> powerUpsRef := powerUpsRef s @ [p], drawn := drawn s + 5 \<rparr>)"

definition spawnUfo :: "real \<Rightarrow> real \<Rightarrow> Game \<Rightarrow> Game" where
  "spawnUfo width height s =
     (let startLeft = rnd s 0 > 0.5;
          y = randomRange (rnd s 1) (height * 0.2) (height * 0.8)
      in s\<lparr> ufoRef := Some
               \<lparr> ident = NamedId ''ufo'',
                 position = \<lparr> px = (if startLeft then 0 else width), py = y \<rparr>,
                 velocity = \<lparr> px = (if startLeft then UFO_SPEED else - UFO_SPEED), py = 0 \<rparr>,
                 angle = 0, radius = UFO_SIZE, color = ''#a855f7'', dead = False,
                 directionChangeTimer = 0, shootCooldown = 2.0, accuracy = 0.8 \<rparr>,
            drawn := drawn s + 2 \<rparr>)"

definition resetShip :: "real \<Rightarrow> real \<Rightarrow> Game \<Rightarrow> Game" where
  "resetShip width height s =
     s\<lparr> shipRef := Some
          \<lparr> ident = NamedId ''hero'',
            position = \<lparr> px = width / 2, py = height / 2 \<rparr>,
            velocity = \<lparr> px = 0, py = 0 \<rparr>,
            angle = - pi / 2, radius = SHIP_SIZE, color = ''#22d3ee'', dead = False,
            rotationSpeed = 0,
            thrusting = False, invulnerable = 3.0, cooldown = 0,
            powerupMultiShotTimer = 0, powerupShieldTimer = 0, powerupTimeSlowTimer = 0,
            missileAmmo = 0 \<rparr> \<rparr>"

definition fetchAiCommentary :: "CommentaryContext \<Rightarrow> int option \<Rightarrow> Game \<Rightarrow> Game" where
  \<comment> \<open>the synchronous part; the request itself is logged\<close>
  "fetchAiCommentary ctx currentScore s =
     s\<lparr> isAiLoading := True, deferred := deferred s @ [FetchAiCommentary ctx currentScore] \<rparr>"

definition handleGameOver :: "Render \<Rightarrow> Game \<Rightarrow> Game" where
  "handleGameOver r s =
     (let s = s\<lparr> gameState := GAME_OVER \<rparr>;
          s = fetchAiCommentary game_over (Some (rScore r)) s
      in s\<lparr> deferred := deferred s @ [GameOverTimeout] \<rparr>)"

definition startNextLevel :: "Render \<Rightarrow> Game \<Rightarrow> Game" where
  "startNextLevel r s =
     (let nextLevel = rLevel r + 1;
          s = s\<lparr> level := nextLevel, gameState := LEVEL_TRANSITION \<rparr>;
          s = fetchAiCommentary level_clear None s
      in s\<lparr> deferred := deferred s @ [NextLevelTimeout nextLevel] \<rparr>)"

definition loseLife :: "Render \<Rightarrow> Game \<Rightarrow> Game" where
  \<comment> \<open>the \<open>setLives\<close> updater used at every craft death\<close>
  "loseLife r s =
     (let newLives = lives s - 1;
          s = (if newLives \<le> 0 then handleGameOver r s
               else s\<lparr> deferred := deferred s @ [RespawnTimeout (rLives r)] \<rparr>)
      in s\<lparr> lives := newLives \<rparr>)"

subsection \<open>The update phase of \<open>animate\<close>\<close>

definition decrementTimers :: "real \<Rightarrow> Ship \<Rightarrow> Ship" where
  "decrementTimers dt sh =
     (let sh = (if powerupMultiShotTimer sh > 0
                then sh\<lparr> powerupMultiShotTimer := powerupMultiShotTimer sh - dt \<rparr> else sh);
          sh = (if powerupShieldTimer sh > 0
                then sh\<lparr> powerupShieldTimer := powerupShieldTimer sh - dt \<rparr> else sh);
          sh = (if powerupTimeSlowTimer sh > 0
                then sh\<lparr> powerupTimeSlowTimer := powerupTimeSlowTimer sh - dt \<rparr> else sh)
      in sh)"

definition applyTurn :: "(string \<Rightarrow> bool) \<Rightarrow> real \<Rightarrow> Ship \<Rightarrow> Ship" where
  "applyTurn keys dt sh =
     (let sh = (if keys ''ArrowLeft'' \<or> keys ''KeyA''
                then sh\<lparr> angle := angle sh - TURN_SPEED * dt \<rparr> else sh);
          sh = (if keys ''ArrowRight'' \<or> keys ''KeyD''
                then sh\<lparr> angle := angle sh + TURN_SPEED * dt \<rparr> else sh)
      in sh)"

definition exhaustParticle :: "Ship \<Rightarrow> Game \<Rightarrow> Particle" where
  "exhaustParticle sh s =
     (let offset = rotatePoint \<lparr> px = - radius sh, py = 0 \<rparr> (angle sh)
      in \<lparr> ident = RandomId (rnd s 1),
           position = \<lparr> px = px (position sh) + px offset, py = py (position sh) + py offset \<rparr>,
           velocity = \<lparr> px = - cos (angle sh) * randomRange (rnd s 2) 50 100,
                        py = - sin (angle sh) * randomRange (rnd s 3) 50 100 \<rparr>,
           angle = 0, radius = 2, color = ''#3b82f6'', dead = False,
           life = 0.3, maxLife = 0.3, particleSize = 2 \<rparr>)"

definition applyThrust :: "real \<Rightarrow> Ship \<Rightarrow> Game \<Rightarrow> Ship \<times> Game" where
  "applyThrust dt sh s =
     (if keysRef s ''ArrowUp'' \<or> keysRef s ''KeyW'' then
        let sh = sh\<lparr> thrusting := True \<rparr>;
            sh = sh\<lparr> velocity :=
                     \<lparr> px = px (velocity sh) + cos (angle sh) * THRUST_POWER * dt,
                       py = py (velocity sh) + sin (angle sh) * THRUST_POWER * dt \<rparr> \<rparr>
        in if rnd s 0 > 0.5
           then (sh, s\<lparr> particlesRef := particlesRef s @ [exhaustParticle sh s],
                        drawn := drawn s + 4 \<rparr>)
           else (sh, draw 1 s)
      else (sh\<lparr> thrusting := False \<rparr>, s))"

definition shipBullet :: "Ship \<Rightarrow> real \<Rightarrow> Game \<Rightarrow> Bullet" where
  "shipBullet sh angleOffset s =
     (let fireAngle = angle sh + angleOffset;
          nose = rotatePoint \<lparr> px = radius sh, py = 0 \<rparr> fireAngle
      in \<lparr> ident = RandomId (rnd s 0),
           position = \<lparr> px = px (position sh) + px nose, py = py (position sh) + py nose \<rparr>,
           velocity = \<lparr> px = cos fireAngle * BULLET_SPEED, py = sin fireAngle * BULLET_SPEED \<rparr>,
           angle = fireAngle, radius = 2, color = ''#facc15'', dead = False,
           life = BULLET_LIFE,
           owner = OwnerShip \<rparr>)"

definition fireBullet :: "Ship \<Rightarrow> real \<Rightarrow> Game \<Rightarrow> Game" where
  "fireBullet sh angleOffset s =
     s\<lparr> bulletsRef := bulletsRef s @ [shipBullet sh angleOffset s], drawn := drawn s + 1 \<rparr>"

definition shoot :: "real \<Rightarrow> Ship \<Rightarrow> Game \<Rightarrow> Ship \<times> Game" where
  "shoot dt sh s =
     (let sh = (if cooldown sh > 0 then sh\<lparr> cooldown := cooldown sh - dt \<rparr> else sh)
      in if (keysRef s ''Space'' \<or> keysRef s ''ControlLeft'') \<and> cooldown sh \<le> 0 then
           let sh = sh\<lparr> cooldown := FIRE_RATE \<rparr>;
               s = fireBullet sh 0 s;
               s = (if powerupMultiShotTimer sh > 0
                    then fireBullet sh 0.2 (fireBullet sh (- 0.2) s) else s)
           in (sh, s)
         else (sh, s))"

definition shipLogic :: "real \<Rightarrow> real \<Rightarrow> real \<Rightarrow> Ship \<Rightarrow> Game \<Rightarrow> Game" where
  "shipLogic dt width height sh s =
     (let sh = decrementTimers dt sh;
          sh = applyTurn (keysRef s) dt sh;
          (sh, s) = applyThrust dt sh s;
          (sh, s) = shoot dt sh s;
          sh = sh\<lparr> position := wrapPosition (moved (position sh) (velocity sh) dt) width height \<rparr>;
          sh = (if invulnerable sh > 0 then sh\<lparr> invulnerable := invulnerable sh - dt \<rparr> else sh)
      in s\<lparr> shipRef := Some sh \<rparr>)"

definition aliveShip :: "Game \<Rightarrow> Ship option" where
  \<comment> \<open>the ship when \<open>ship && !ship.dead\<close> holds\<close>
  "aliveShip s = (case shipRef s of None \<Rightarrow> None
                  | Some sh \<Rightarrow> if dead sh then None else Some sh)"

definition ufoBullet :: "Ufo \<Rightarrow> Ship \<Rightarrow> Game \<Rightarrow> Bullet" where
  "ufoBullet ufo sh s =
     (let angleToShip = atan2 (py (position sh) - py (position ufo))
                              (px (position sh) - px (position ufo));
          accuracyOffset = randomRange (rnd s 0) (- 0.2) 0.2
      in \<lparr> ident = RandomId (rnd s 1),
           position = position ufo,
           velocity = \<lparr> px = cos (angleToShip + accuracyOffset) * UFO_BULLET_SPEED,
                        py = sin (angleToShip + accuracyOffset) * UFO_BULLET_SPEED \<rparr>,
           angle = 0, radius = 3, color = ''#22c55e'', dead = False,
           life = BULLET_LIFE,
           owner = OwnerUfo \<rparr>)"

definition ufoLogic :: "real \<Rightarrow> real \<Rightarrow> real \<Rightarrow> real \<Rightarrow> Game \<Rightarrow> Game" where
  \<comment> \<open>the local \<open>ufo\<close> keeps being updated, and may fire, after \<open>ufoRef.current\<close> was
      cleared in the same frame\<close>
  "ufoLogic enemyDt now width height s =
     (case ufoRef s of
        None \<Rightarrow>
          if now - lastUfoSpawnTimeRef s > nextUfoSpawnDelayRef s then
            let s = spawnUfo width height s;
                s = s\<lparr> lastUfoSpawnTimeRef := now \<rparr>
            in s\<lparr> nextUfoSpawnDelayRef :=
                      randomRange (rnd s 0) UFO_SPAWN_RATE_MIN UFO_SPAWN_RATE_MAX,
                  drawn := drawn s + 1 \<rparr>
          else s
      | Some ufo \<Rightarrow>
          let ufo = ufo\<lparr> position := moved (position ufo) (velocity ufo) enemyDt \<rparr>;
              ufo = ufo\<lparr> directionChangeTimer := directionChangeTimer ufo - enemyDt \<rparr>;
              (ufo, s) =
                (if directionChangeTimer ufo \<le> 0
                 then (ufo\<lparr> directionChangeTimer := randomRange (rnd s 0) 1 3,
                            velocity := (velocity ufo)\<lparr> py := randomRange (rnd s 1) (- 50) 50 \<rparr> \<rparr>,
                       draw 2 s)
                 else (ufo, s));
              gone = ((px (velocity ufo) > 0 \<and> px (position ufo) > width + 50)
                      \<or> (px (velocity ufo) < 0 \<and> px (position ufo) < - 50));
              s = (if gone then s\<lparr> lastUfoSpawnTimeRef := now \<rparr> else s);
              ufo = ufo\<lparr> shootCooldown := shootCooldown ufo - enemyDt \<rparr>;
              (ufo, s) =
                (case aliveShip s of
                   Some sh \<Rightarrow>
                     if shootCooldown ufo \<le> 0
                     then (ufo\<lparr> shootCooldown := UFO_FIRE_RATE \<rparr>,
                           s\<lparr> bulletsRef := bulletsRef s @ [ufoBullet ufo sh s],
                              drawn := drawn s + 2 \<rparr>)
                     else (ufo, s)
                 | None \<Rightarrow> (ufo, s))
          in s\<lparr> ufoRef := (if gone then None else Some ufo) \<rparr>)"

definition bulletStep :: "real \<Rightarrow> real \<Rightarrow> Bullet \<Rightarrow> Bullet" where
  "bulletStep dt enemyDt b =
     (let bulletDt = (if owner b = OwnerUfo then enemyDt else dt);
          b = b\<lparr> position := moved (position b) (velocity b) bulletDt \<rparr>;
          b = b\<lparr> life := life b - bulletDt \<rparr>
      in if life b \<le> 0 then b\<lparr> dead := True \<rparr> else b)"

definition homing :: "real \<Rightarrow> Ufo \<Rightarrow> Missile \<Rightarrow> Missile" where
  "homing dt target m =
     (let angleToTarget = atan2 (py (position target) - py (position m))
                                (px (position target) - px (position m));
          currentAngle = atan2 (py (velocity m)) (px (velocity m));
          diff = normalizeAngle (angleToTarget - currentAngle);
          turn = min \<bar>diff\<bar> (MISSILE_TURN_SPEED * dt) * sgn diff;
          newAngle = currentAngle + turn
      in m\<lparr> velocity := \<lparr> px = cos newAngle * MISSILE_SPEED, py = sin newAngle * MISSILE_SPEED \<rparr>,
            angle := newAngle \<rparr>)"

definition smokeParticle :: "Missile \<Rightarrow> Game \<Rightarrow> Particle" where
  "smokeParticle m s =
     \<lparr> ident = RandomId (rnd s 1),
       position = position m,
       velocity = \<lparr> px = 0, py = 0 \<rparr>,
       angle = 0, radius = 2, color = ''#9ca3af'', dead = False,
       life = 0.5, maxLife = 0.5, particleSize = 2 \<rparr>"

definition missileAdvance :: "real \<Rightarrow> Ufo option \<Rightarrow> Missile \<Rightarrow> Missile" where
  \<comment> \<open>homing turn towards \<open>ufoRef.current\<close> (if any), integration, expiry\<close>
  "missileAdvance dt target m =
     (let m = (case target of Some t \<Rightarrow> homing dt t m | None \<Rightarrow> m);
          m = m\<lparr> position := moved (position m) (velocity m) dt \<rparr>;
          m = m\<lparr> life := life m - dt \<rparr>
      in if life m \<le> 0 then m\<lparr> dead := True \<rparr> else m)"

definition missileStep :: "real \<Rightarrow> Missile \<Rightarrow> Game \<Rightarrow> Missile \<times> Game" where
  "missileStep dt m s =
     (let m = missileAdvance dt (ufoRef s) m
      in if rnd s 0 > 0.5
         then (m, s\<lparr> particlesRef := particlesRef s @ [smokeParticle m s],
                     drawn := drawn s + 2 \<rparr>)
         else (m, draw 1 s))"

fun missilesUpdate :: "real \<Rightarrow> Missile list \<Rightarrow> Game \<Rightarrow> Missile list \<times> Game" where
  "missilesUpdate dt [] s = ([], s)"
| "missilesUpdate dt (m # ms) s =
     (let (m', s') = missileStep dt m s;
          (ms', s'') = missilesUpdate dt ms s'
      in (m' # ms', s''))"

definition asteroidStep :: "real \<Rightarrow> real \<Rightarrow> real \<Rightarrow> Asteroid \<Rightarrow> Asteroid" where
  "asteroidStep enemyDt width height a =
     (let a = a\<lparr> position := moved (position a) (velocity a) enemyDt \<rparr>;
          a = a\<lparr> angle := angle a + rotationSpeed a * enemyDt \<rparr>
      in a\<lparr> position := wrapPosition (position a) width height \<rparr>)"

definition powerUpStep :: "real \<Rightarrow> real \<Rightarrow> real \<Rightarrow> PowerUp \<Rightarrow> PowerUp" where
  "powerUpStep dt width height p =
     (let p = p\<lparr> position := moved (position p) (velocity p) dt \<rparr>;
          p = p\<lparr> life := life p - dt \<rparr>;
          p = (if life p \<le> 0 then p\<lparr> dead := True \<rparr> else p)
      in p\<lparr> position := wrapPosition (position p) width height \<rparr>)"

definition particleStep :: "real \<Rightarrow> Particle \<Rightarrow> Particle" where
  "particleStep dt p =
     (let p = p\<lparr> position := moved (position p) (velocity p) dt \<rparr>;
          p = p\<lparr> life := life p - dt \<rparr>
      in if life p \<le> 0 then p\<lparr> dead := True \<rparr> else p)"

definition integrateEntities :: "real \<Rightarrow> real \<Rightarrow> real \<Rightarrow> real \<Rightarrow> Game \<Rightarrow> Game" where
  \<comment> \<open>bullets, missiles, asteroids, power-ups and particles: integrate, expire, purge\<close>
  "integrateEntities dt enemyDt width height s =
     (let s = s\<lparr> bulletsRef := filter (\<lambda>b. \<not> dead b) (map (bulletStep dt enemyDt) (bulletsRef s)) \<rparr>;
          (ms, s) = missilesUpdate dt (missilesRef s) s;
          s = s\<lparr> missilesRef := filter (\<lambda>m. \<not> dead m) ms \<rparr>;
          s = s\<lparr> asteroidsRef := map (asteroidStep enemyDt width height) (asteroidsRef s) \<rparr>;
          s = s\<lparr> powerUpsRef :=
                   filter (\<lambda>p. \<not> dead p) (map (powerUpStep dt width height) (powerUpsRef s)) \<rparr>
      in s\<lparr> particlesRef := filter (\<lambda>p. \<not> dead p) (map (particleStep dt) (particlesRef s)) \<rparr>)"

definition shipAndUfoLogic :: "Render \<Rightarrow> real \<Rightarrow> real \<Rightarrow> real \<Rightarrow> real \<Rightarrow> real \<Rightarrow> Game \<Rightarrow> Game" where
  \<comment> \<open>the blocks "Ship Logic" and "UFO Logic"\<close>
  "shipAndUfoLogic r dt enemyDt now width height s =
     (let s = (if rGameState r = PLAYING
               then (case aliveShip s of Some sh \<Rightarrow> shipLogic dt width height sh s | None \<Rightarrow> s)
               else s)
      in (if rGameState r = PLAYING then ufoLogic enemyDt now width height s else s))"

definition updateLogic :: "Render \<Rightarrow> real \<Rightarrow> real \<Rightarrow> real \<Rightarrow> real \<Rightarrow> real \<Rightarrow> Game \<Rightarrow> Game" where
  "updateLogic r dt enemyDt now width height s =
     integrateEntities dt enemyDt width height (shipAndUfoLogic r dt enemyDt now width height s)"

subsection \<open>Collision resolution\<close>

definition applyPowerUp :: "PowerUpType \<Rightarrow> Ship \<Rightarrow> Ship" where
  "applyPowerUp t sh =
     (case t of
        MULTI_SHOT \<Rightarrow> sh\<lparr> powerupMultiShotTimer := POWERUP_DURATION \<rparr>
      | SHIELD \<Rightarrow> sh\<lparr> powerupShieldTimer := POWERUP_DURATION \<rparr>
      | TIME_SLOW \<Rightarrow> sh\<lparr> powerupTimeSlowTimer := POWERUP_DURATION \<rparr>
      | MISSILE \<Rightarrow> sh\<lparr> missileAmmo := missileAmmo sh + 1 \<rparr>)"

definition powerUpLabel :: "PowerUpType \<Rightarrow> string" where
  \<comment> \<open>\<open>p.type.replace('_', ' ')\<close>\<close>
  "powerUpLabel t =
     (case t of MULTI_SHOT \<Rightarrow> ''MULTI SHOT'' | SHIELD \<Rightarrow> ''SHIELD''
      | TIME_SLOW \<Rightarrow> ''TIME SLOW'' | MISSILE \<Rightarrow> ''MISSILE'')"

fun pickupPowerUps :: "PowerUp list \<Rightarrow> Ship \<Rightarrow> string \<Rightarrow> PowerUp list \<times> Ship \<times> string" where
  "pickupPowerUps [] sh msg = ([], sh, msg)"
| "pickupPowerUps (p # ps) sh msg =
     (if checkCollision (sh\<lparr> radius := radius sh * 1.5 \<rparr>) p then
        let (ps', sh', msg') =
              pickupPowerUps ps (applyPowerUp (powerUpType p) sh)
                (''ACQUIRED: '' @ powerUpLabel (powerUpType p))
        in (p\<lparr> dead := True \<rparr> # ps', sh', msg')
      else
        let (ps', sh', msg') = pickupPowerUps ps sh msg
        in (p # ps', sh', msg'))"

definition pickups :: "Game \<Rightarrow> Game" where
  "pickups s =
     (case aliveShip s of
        None \<Rightarrow> s
      | Some sh \<Rightarrow>
          let (ps, sh', msg) = pickupPowerUps (powerUpsRef s) sh (aiMessage s)
          in s\<lparr> powerUpsRef := ps, shipRef := Some sh', aiMessage := msg \<rparr>)"

fun firstHit :: "('a Entity_scheme) \<Rightarrow> Asteroid list \<Rightarrow> (nat \<times> Asteroid) option" where
  \<comment> \<open>index and value of the first asteroid with \<open>!a.dead && checkCollision(e, a)\<close>\<close>
  "firstHit e [] = None"
| "firstHit e (a # as) =
     (if \<not> dead a \<and> checkCollision e a then Some (0, a)
      else map_option (\<lambda>(i, x). (Suc i, x)) (firstHit e as))"

definition childAsteroid :: "Asteroid \<Rightarrow> Size \<Rightarrow> (nat \<Rightarrow> real) \<Rightarrow> Asteroid" where
  \<comment> \<open>one iteration of the split loop; draws: angle, speed, id, rotationSpeed, vertices\<close>
  "childAsteroid a nextSize rs =
     (let config = ASTEROID_CONFIG nextSize;
          ang = randomRange (rs 0) 0 (pi * 2);
          speed = cfgSpeed config * randomRange (rs 1) 0.8 1.2
      in \<lparr> ident = RandomId (rs 2),
           position = position a,
           velocity = \<lparr> px = cos ang * speed, py = sin ang * speed \<rparr>,
           angle = 0, radius = cfgRadius config, color = color a, dead = False,
           rotationSpeed = randomRange (rs 3) (- 2) 2,
           asteroidSize = nextSize,
           vertices = generateAsteroidVertices (\<lambda>i. rs (4 + i)) (cfgRadius config)
                        (if nextSize = medium then 8 else 6) \<rparr>)"

definition splitAsteroid :: "Asteroid \<Rightarrow> Game \<Rightarrow> Game" where
  "splitAsteroid a s =
     (if asteroidSize a \<noteq> small then
        let nextSize = (if asteroidSize a = large then medium else small);
            n = 4 + (if nextSize = medium then 8 else 6)
        in s\<lparr> asteroidsRef := asteroidsRef s @
                 map (\<lambda>i. childAsteroid a nextSize (\<lambda>k. rnd s (n * i + k))) [0..<2],
              drawn := drawn s + 2 * n \<rparr>
      else s)"

definition bulletVsAsteroids :: "Bullet \<Rightarrow> Game \<Rightarrow> Bullet \<times> Game" where
  "bulletVsAsteroids b s =
     (case firstHit b (asteroidsRef s) of
        None \<Rightarrow> (b, s)
      | Some (i, a) \<Rightarrow>
          let b = b\<lparr> dead := True \<rparr>;
              s = s\<lparr> asteroidsRef := (asteroidsRef s)[i := a\<lparr> dead := True \<rparr>] \<rparr>;
              s = spawnPowerUp (position a) s;
              s = createExplosion (position a) (color a) 10 s;
              s = s\<lparr> score := score s + (if asteroidSize a = large then 20
                                            else if asteroidSize a = medium then 50 else 100) \<rparr>;
              s = splitAsteroid a s
          in (b, s))"

definition bulletVsUfo :: "real \<Rightarrow> Bullet \<Rightarrow> Game \<Rightarrow> Bullet \<times> Game" where
  "bulletVsUfo now b s =
     (case ufoRef s of
        None \<Rightarrow> (b, s)
      | Some u \<Rightarrow>
          if \<not> dead b \<and> checkCollision b u then
            let b = b\<lparr> dead := True \<rparr>;
                s = spawnPowerUp (position u) s;
                s = createExplosion (position u) (color u) 20 s;
                s = s\<lparr> ufoRef := None, lastUfoSpawnTimeRef := now \<rparr>;
                s = s\<lparr> score := score s + 500 \<rparr>
            in (b, s)
          else (b, s))"

definition shipDies :: "Ship \<Rightarrow> Game \<Rightarrow> Game" where
  \<comment> \<open>\<open>ship.dead = true; createExplosion(ship.position, ship.color, 30)\<close>\<close>
  "shipDies sh s =
     createExplosion (position sh) (color sh) 30 (s\<lparr> shipRef := Some (sh\<lparr> dead := True \<rparr>) \<rparr>)"

definition ufoBulletVsShip :: "Render \<Rightarrow> Bullet \<Rightarrow> Game \<Rightarrow> Bullet \<times> Game" where
  "ufoBulletVsShip r b s =
     (case aliveShip s of
        None \<Rightarrow> (b, s)
      | Some sh \<Rightarrow>
          if owner b = OwnerUfo \<and> invulnerable sh \<le> 0 then
            if powerupShieldTimer sh > 0 then
              if checkCollision b (sh\<lparr> radius := radius sh * 2 \<rparr>)
              then (b\<lparr> dead := True \<rparr>, s) else (b, s)
            else
              if checkCollision b (sh\<lparr> radius := radius sh * 0.7 \<rparr>)
              then (b\<lparr> dead := True \<rparr>, loseLife r (shipDies sh s)) else (b, s)
          else (b, s))"

definition bulletCollide :: "Render \<Rightarrow> real \<Rightarrow> Bullet \<Rightarrow> Game \<Rightarrow> Bullet \<times> Game" where
  "bulletCollide r now b s =
     (if dead b then (b, s)
      else
        let (b, s) = (if owner b = OwnerShip
                      then (let (b, s) = bulletVsAsteroids b s in bulletVsUfo now b s)
                      else (b, s))
        in ufoBulletVsShip r b s)"

fun bulletsCollide :: "Render \<Rightarrow> real \<Rightarrow> Bullet list \<Rightarrow> Game \<Rightarrow> Bullet list \<times> Game" where
  "bulletsCollide r now [] s = ([], s)"
| "bulletsCollide r now (b # bs) s =
     (let (b', s') = bulletCollide r now b s;
          (bs', s'') = bulletsCollide r now bs s'
      in (b' # bs', s''))"

definition bulletsPhase :: "Render \<Rightarrow> real \<Rightarrow> Game \<Rightarrow> Game" where
  "bulletsPhase r now s =
     (let (bs, s) = bulletsCollide r now (bulletsRef s) s;
          s = s\<lparr> bulletsRef := bs \<rparr>
      in s\<lparr> asteroidsRef := filter (\<lambda>a. \<not> dead a) (asteroidsRef s) \<rparr>)"

definition missileCollide :: "real \<Rightarrow> Missile \<Rightarrow> Game \<Rightarrow> Missile \<times> Game" where
  "missileCollide now m s =
     (if dead m then (m, s)
      else
        case (case ufoRef s of Some u \<Rightarrow> if checkCollision m u then Some u else None
              | None \<Rightarrow> None) of
          Some u \<Rightarrow>
            let m = m\<lparr> dead := True \<rparr>;
                s = spawnPowerUp (position u) s;
                s = createExplosion (position u) (color u) 30 s;
                s = s\<lparr> ufoRef := None, lastUfoSpawnTimeRef := now \<rparr>;
                s = s\<lparr> score := score s + 500 \<rparr>
            in (m, s)
        | None \<Rightarrow>
            (case firstHit m (asteroidsRef s) of
               None \<Rightarrow> (m, s)
             | Some (i, a) \<Rightarrow>
                 let m = m\<lparr> dead := True \<rparr>;
                     s = s\<lparr> asteroidsRef := (asteroidsRef s)[i := a\<lparr> dead := True \<rparr>] \<rparr>;
                     s = createExplosion (position a) (color a) 15 s;
                     s = s\<lparr> score := score s + 50 \<rparr>
                 in (m, s)))"

fun missilesCollide :: "real \<Rightarrow> Missile list \<Rightarrow> Game \<Rightarrow> Missile list \<times> Game" where
  "missilesCollide now [] s = ([], s)"
| "missilesCollide now (m # ms) s =
     (let (m', s') = missileCollide now m s;
          (ms', s'') = missilesCollide now ms s'
      in (m' # ms', s''))"

definition missilesPhase :: "real \<Rightarrow> Game \<Rightarrow> Game" where
  "missilesPhase now s =
     (let (ms, s) = missilesCollide now (missilesRef s) s
      in s\<lparr> missilesRef := ms \<rparr>)"

definition checkDeath :: "Ship \<Rightarrow> ('a Entity_scheme) \<Rightarrow> bool" where
  "checkDeath sh obj =
     (if powerupShieldTimer sh > 0 then False
      else checkCollision (sh\<lparr> radius := radius sh * 0.7 \<rparr>) obj)"

definition shipVsBodies :: "Render \<Rightarrow> real \<Rightarrow> Game \<Rightarrow> Game" where
  \<comment> \<open>the asteroid loop breaks at the first hit, whose effect does not depend on the asteroid\<close>
  "shipVsBodies r now s =
     (case aliveShip s of
        None \<Rightarrow> s
      | Some sh \<Rightarrow>
          if invulnerable sh \<le> 0 then
            let s = (if list_ex (checkDeath sh) (asteroidsRef s)
                     then loseLife r (shipDies sh s) else s)
            in (case ufoRef s of
                  None \<Rightarrow> s
                | Some u \<Rightarrow>
                    (case aliveShip s of
                       None \<Rightarrow> s
                     | Some sh \<Rightarrow>
                         if checkDeath sh u then
                           let s = shipDies sh s;
                               s = createExplosion (position u) (color u) 20 s;
                               s = s\<lparr> ufoRef := None, lastUfoSpawnTimeRef := now \<rparr>
                           in loseLife r s
                         else s))
          else s)"

definition collisions :: "Render \<Rightarrow> real \<Rightarrow> Game \<Rightarrow> Game" where
  "collisions r now s = shipVsBodies r now (missilesPhase now (bulletsPhase r now (pickups s)))"

definition levelClear :: "Render \<Rightarrow> Game \<Rightarrow> Game" where
  "levelClear r s =
     (if asteroidsRef s = [] \<and> ufoRef s = None \<and> rGameState r = PLAYING
      then startNextLevel r s else s)"

subsection \<open>One frame\<close>

definition timeSlowActive :: "Game \<Rightarrow> bool" where
  \<comment> \<open>\<open>shipRef.current?.powerupTimeSlowTimer ? shipRef.current.powerupTimeSlowTimer > 0 : false\<close>\<close>
  "timeSlowActive s =
     (case shipRef s of
        None \<Rightarrow> False
      | Some sh \<Rightarrow> if powerupTimeSlowTimer sh \<noteq> 0 then powerupTimeSlowTimer sh > 0 else False)"

definition frameDt :: "real \<Rightarrow> Game \<Rightarrow> real" where
  "frameDt time s = min ((time - previousTimeRef s) / 1000) 0.1"

definition simulate :: "Render \<Rightarrow> real \<Rightarrow> real \<Rightarrow> real \<Rightarrow> real \<Rightarrow> Game \<Rightarrow> Game" where
  \<comment> \<open>the block under "1. UPDATE LOGIC"\<close>
  "simulate r dt now width height s =
     (if rGameState r = PLAYING \<or> rGameState r = GAME_OVER \<or> rGameState r = LEVEL_TRANSITION then
        let enemyDt = (if timeSlowActive s then dt * 0.3 else dt);
            s = updateLogic r dt enemyDt now width height s;
            s = (if rGameState r = PLAYING then collisions r now s else s)
        in levelClear r s
      else s)"

definition animate :: "Render \<Rightarrow> real \<Rightarrow> real \<Rightarrow> (real \<times> real) option \<Rightarrow> Game \<Rightarrow> Game" where
  \<comment> \<open>\<open>time\<close> is the frame timestamp, \<open>now\<close> the value of \<open>Date.now()\<close> during the frame,
      the option is the canvas size (\<open>None\<close>: no canvas or no 2D context, the frame returns
      at once). Drawing is left out.\<close>
  "animate r time now canvas s =
     (case canvas of
        None \<Rightarrow> s
      | Some (width, height) \<Rightarrow>
          simulate r (frameDt time s) now width height (s\<lparr> previousTimeRef := time \<rparr>))"

subsection \<open>Initial component state and sample entities\<close>

definition initialGame :: "(nat \<Rightarrow> real) \<Rightarrow> Game" where
  \<comment> \<open>the initial values of \<open>useState\<close> and \<open>useRef\<close>, for a given random stream\<close>
  "initialGame rs =
     \<lparr> gameState = MENU, score = 0, lives = 3, level = 1,
       aiMessage = ''Initializing...'', isAiLoading = False,
       shipRef = None, ufoRef = None, asteroidsRef = [], bulletsRef = [],
       particlesRef = [], powerUpsRef = [], missilesRef = [],
       keysRef = (\<lambda>k. False),
       lastUfoSpawnTimeRef = 0, nextUfoSpawnDelayRef = 20000, previousTimeRef = 0,
       randoms = rs, drawn = 0, deferred = [] \<rparr>"

definition rockAt :: "Size \<Rightarrow> real \<Rightarrow> real \<Rightarrow> Asteroid" where
  "rockAt sz x y =
     \<lparr> ident = RandomId 0, position = \<lparr> px = x, py = y \<rparr>,
       velocity = \<lparr> px = 10, py = 0 \<rparr>, angle = 0,
       radius = cfgRadius (ASTEROID_CONFIG sz), color = ''#f472b6'', dead = False,
       rotationSpeed = 1, asteroidSize = sz, vertices = [] \<rparr>"

definition shotAt :: "Owner \<Rightarrow> real \<Rightarrow> real \<Rightarrow> Bullet" where
  "shotAt ow x y =
     \<lparr> ident = RandomId 0, position = \<lparr> px = x, py = y \<rparr>,
       velocity = \<lparr> px = 400, py = 0 \<rparr>, angle = 0, radius = 2,
       color = ''#facc15'', dead = False, life = 1, owner = ow \<rparr>"

definition rocketAt :: "real \<Rightarrow> real \<Rightarrow> Missile" where
  "rocketAt x y =
     \<lparr> ident = RandomId 0, position = \<lparr> px = x, py = y \<rparr>,
       velocity = \<lparr> px = 350, py = 0 \<rparr>, angle = 0, radius = 5,
       color = ''#ef4444'', dead = False, life = 3, targetId = None \<rparr>"

definition saucerAt :: "real \<Rightarrow> real \<Rightarrow> Ufo" where
  "saucerAt x y =
     \<lparr> ident = NamedId ''ufo'', position = \<lparr> px = x, py = y \<rparr>,
       velocity = \<lparr> px = 100, py = 0 \<rparr>, angle = 0, radius = 20,
       color = ''#a855f7'', dead = False,
       directionChangeTimer = 1, shootCooldown = 2, accuracy = 0.8 \<rparr>"

subsection \<open>How a collision step may change lives, phase, timers and the craft\<close>

text \<open>
  \<open>quiet\<close>: the step leaves lives, phase, level, deferred actions and the craft as they
  were. \<open>died\<close>: the step is exactly one craft death (the craft was alive, neither
  invulnerable nor shielded; one life is taken; game over or a respawn timer follows).
\<close>

definition quiet :: "Game \<Rightarrow> Game \<Rightarrow> bool" where
  "quiet s s' \<longleftrightarrow> lives s' = lives s \<and> gameState s' = gameState s
                 \<and> deferred s' = deferred s \<and> shipRef s' = shipRef s \<and> level s' = level s"

definition died :: "Render \<Rightarrow> Game \<Rightarrow> Game \<Rightarrow> bool" where
  "died r s s' \<longleftrightarrow>
     (\<exists>sh. aliveShip s = Some sh \<and> invulnerable sh \<le> 0 \<and> powerupShieldTimer sh \<le> 0
          \<and> shipRef s' = Some (sh\<lparr> dead := True \<rparr>)
          \<and> lives s' = lives s - 1 \<and> level s' = level s
          \<and> (if lives s - 1 \<le> 0
              then gameState s' = GAME_OVER
                 \<and> deferred s' = deferred s @ [FetchAiCommentary game_over (Some (rScore r)), GameOverTimeout]
              else gameState s' = gameState s
                 \<and> deferred s' = deferred s @ [RespawnTimeout (rLives r)]))"

definition heroAt :: "real \<Rightarrow> real \<Rightarrow> real \<Rightarrow> real \<Rightarrow> Ship" where
  \<comment> \<open>a craft at rest at (x, y) with the given invulnerability and shield countdowns\<close>
  "heroAt x y invul shield =
     \<lparr> ident = NamedId ''hero'', position = \<lparr> px = x, py = y \<rparr>,
       velocity = \<lparr> px = 0, py = 0 \<rparr>, angle = 0, radius = SHIP_SIZE,
       color = ''#22d3ee'', dead = False, rotationSpeed = 0,
       thrusting = False, invulnerable = invul, cooldown = 0,
       powerupMultiShotTimer = 0, powerupShieldTimer = shield, powerupTimeSlowTimer = 0,
       missileAmmo = 0 \<rparr>"

definition playingRender :: Render where
  "playingRender = \<lparr> rGameState = PLAYING, rScore = 0, rLives = 3, rLevel = 1 \<rparr>"


subsection \<open>Where obstacles and power-ups may be\<close>

definition inField :: "real \<Rightarrow> real \<Rightarrow> Point \<Rightarrow> bool" where
  "inField width height p \<longleftrightarrow> 0 \<le> px p \<and> px p \<le> width \<and> 0 \<le> py p \<and> py p \<le> height"

definition ufoPositions :: "Game \<Rightarrow> Point set" where
  "ufoPositions s = (case ufoRef s of Some u \<Rightarrow> {position u} | None \<Rightarrow> {})"

definition placed :: "Game \<Rightarrow> Game \<Rightarrow> bool" where
  \<comment> \<open>where a collision step may leave obstacles and power-ups\<close>
  "placed s s' \<longleftrightarrow>
       position ` set (asteroidsRef s') \<subseteq> position ` set (asteroidsRef s)
     \<and> position ` set (powerUpsRef s')
         \<subseteq> position ` set (powerUpsRef s) \<union> position ` set (asteroidsRef s) \<union> ufoPositions s
     \<and> ufoPositions s' \<subseteq> ufoPositions s"

subsection \<open>Starting a game, deferred respawn, runs of one game\<close>

definition startGame :: "real \<Rightarrow> (real \<times> real) option \<Rightarrow> Game \<Rightarrow> Game" where
  \<comment> \<open>\<open>now\<close> is \<open>Date.now()\<close>, the option is the canvas size if the canvas exists;
      \<open>newHighScoreIndex\<close> and \<open>initials\<close> are not part of \<open>Game\<close>\<close>
  "startGame now canvas s =
     (let s = s\<lparr> score := 0, lives := 3, level := 1, gameState := LEVEL_TRANSITION \<rparr>;
          s = s\<lparr> asteroidsRef := [], bulletsRef := [], particlesRef := [], powerUpsRef := [],
                 missilesRef := [], ufoRef := None, lastUfoSpawnTimeRef := now \<rparr>
      in case canvas of
           None \<Rightarrow> s
         | Some (width, height) \<Rightarrow>
             (let s = resetShip width height s
              in s\<lparr> deferred := deferred s @ [StartTimeout] \<rparr>))"

definition respawnCallback :: "int \<Rightarrow> real \<Rightarrow> real \<Rightarrow> Game \<Rightarrow> Game" where
  \<comment> \<open>\<open>() => { if (lives > 0) resetShip(canvas.width, canvas.height); }\<close>, where
      \<open>lives\<close> is the value the scheduling closure captured\<close>
  "respawnCallback capturedLives width height s =
     (if capturedLives > 0 then resetShip width height s else s)"

fun isRespawn :: "Deferred \<Rightarrow> bool" where
  "isRespawn (RespawnTimeout k) = True"
| "isRespawn d = False"

definition gameOversSince :: "nat \<Rightarrow> Game \<Rightarrow> nat" where
  \<comment> \<open>number of \<open>handleGameOver\<close> calls logged from position \<open>n\<close> of the log on\<close>
  "gameOversSince n s = length (filter (\<lambda>d. d = GameOverTimeout) (drop n (deferred s)))"

definition pendingRespawn :: "Game \<Rightarrow> nat set \<Rightarrow> nat \<Rightarrow> bool" where
  \<comment> \<open>entry \<open>i\<close> of the log is a respawn timer that has not fired yet\<close>
  "pendingRespawn s fired i \<longleftrightarrow> i < length (deferred s) \<and> i \<notin> fired \<and> isRespawn (deferred s ! i)"

text \<open>
  One game: it begins with \<open>startGame\<close> (timers of earlier games count as spent), then
  frames (any render constants, any inputs), respawn timers that fire (each at most once,
  in any order, between frames), and all the other handlers and callbacks, which are
  summarised by what they leave alone: they do not write \<open>lives\<close>, do not change whether
  the craft is dead, and schedule neither a respawn nor a game-over timer. The second
  component is the set of log positions whose timer has fired.
\<close>

inductive runs :: "nat \<Rightarrow> Game \<times> nat set \<Rightarrow> bool" for n0 :: nat where
  start: "g = startGame now canvas s \<Longrightarrow> n0 = length (deferred g) \<Longrightarrow> runs n0 (g, {..<n0})"
| frame: "runs n0 (g, fired) \<Longrightarrow> runs n0 (animate r time now canvas g, fired)"
| respawn: "runs n0 (g, fired) \<Longrightarrow> i < length (deferred g) \<Longrightarrow> i \<notin> fired
            \<Longrightarrow> deferred g ! i = RespawnTimeout k
            \<Longrightarrow> runs n0 (respawnCallback k width height g, insert i fired)"
| other: "runs n0 (g, fired) \<Longrightarrow> lives g' = lives g
          \<Longrightarrow> (aliveShip g' = None) = (aliveShip g = None)
          \<Longrightarrow> deferred g' = deferred g @ xs
          \<Longrightarrow> \<forall>d\<in>set xs. \<not> isRespawn d \<and> d \<noteq> GameOverTimeout
          \<Longrightarrow> runs n0 (g', fired)"

subsection \<open>What one frame may do to lives and timers\<close>

definition benign :: "Deferred list \<Rightarrow> bool" where
  "benign xs \<longleftrightarrow> (\<forall>d\<in>set xs. \<not> isRespawn d \<and> d \<noteq> GameOverTimeout)"

definition deathLog :: "Render \<Rightarrow> Game \<Rightarrow> Deferred list" where
  \<comment> \<open>what a craft death in state \<open>s\<close> appends to the log\<close>
  "deathLog r s =
     (if lives s - 1 \<le> 0 then [FetchAiCommentary game_over (Some (rScore r)), GameOverTimeout]
      else [RespawnTimeout (rLives r)])"

definition frameQuiet :: "Game \<Rightarrow> Game \<Rightarrow> bool" where
  "frameQuiet g g' \<longleftrightarrow>
     lives g' = lives g \<and> (aliveShip g' = None) = (aliveShip g = None)
     \<and> (\<exists>xs. deferred g' = deferred g @ xs \<and> benign xs)"

definition frameDeath :: "Render \<Rightarrow> Game \<Rightarrow> Game \<Rightarrow> bool" where
  "frameDeath r g g' \<longleftrightarrow>
     aliveShip g \<noteq> None \<and> aliveShip g' = None \<and> lives g' = lives g - 1
     \<and> rGameState r = PLAYING
     \<and> (\<exists>xs. deferred g' = deferred g @ deathLog r g @ xs \<and> benign xs)"

definition runInv :: "nat \<Rightarrow> Game \<times> nat set \<Rightarrow> bool" where
  "runInv n0 c \<longleftrightarrow>
     (case c of (g, fired) \<Rightarrow>
        n0 \<le> length (deferred g) \<and> fired \<subseteq> {..<length (deferred g)}
      \<and> 0 \<le> lives g
      \<and> (aliveShip g \<noteq> None \<longrightarrow> 0 < lives g \<and> (\<forall>i. \<not> pendingRespawn g fired i))
      \<and> (\<forall>i. pendingRespawn g fired i \<longrightarrow> 0 < lives g)
      \<and> (\<forall>i j. pendingRespawn g fired i \<longrightarrow> pendingRespawn g fired j \<longrightarrow> i = j)
      \<and> gameOversSince n0 g = (if lives g = 0 then 1 else 0))"

definition crashState :: "int \<Rightarrow> Game" where
  \<comment> \<open>a vulnerable craft sitting inside a large obstacle, with the given number of lives\<close>
  "crashState n =
     (initialGame (\<lambda>k. 1/2))\<lparr> lives := n, shipRef := Some (heroAt 100 100 0 0),
                                  asteroidsRef := [rockAt large 100 100],
                                  deferred := [StartTimeout] \<rparr>"

definition crashStateLog :: "int \<Rightarrow> Deferred list \<Rightarrow> Game" where
  \<comment> \<open>\<open>crashState\<close> with a given log of deferred actions\<close>
  "crashStateLog n l = (crashState n)\<lparr> deferred := l \<rparr>"

definition lastStand :: Game where
  \<comment> \<open>last life, no obstacle left, a vulnerable craft overlapping the hostile unit\<close>
  "lastStand =
     (initialGame (\<lambda>k. 1/2))\<lparr> gameState := PLAYING, lives := 1,
                                  shipRef := Some (heroAt 100 100 0 0),
                                  ufoRef := Some (saucerAt 100 100),
                                  deferred := [StartTimeout, RespawnTimeout 3, RespawnTimeout 3] \<rparr>"

section \<open>Properties of the geometry utilities\<close>

lemma normalizeDown_le: "normalizeDown a \<le> pi"
  by (induction a rule: normalizeDown.induct) (subst normalizeDown.simps, simp)

lemma normalizeDown_id: "a \<le> pi \<Longrightarrow> normalizeDown a = a"
  by (subst normalizeDown.simps) simp

lemma normalizeDown_gt: "pi < a \<Longrightarrow> - pi < normalizeDown a"
proof (induction a rule: normalizeDown.induct)
  case (1 angle)
  show ?case
  proof (cases "pi < angle - pi * 2")
    case True
    with 1 show ?thesis by (subst normalizeDown.simps) simp
  next
    case False
    then have "normalizeDown (angle - pi * 2) = angle - pi * 2"
      by (simp add: normalizeDown_id)
    with 1 show ?thesis by (subst normalizeDown.simps) simp
  qed
qed

lemma normalizeUp_ge: "- pi \<le> normalizeUp a"
  by (induction a rule: normalizeUp.induct) (subst normalizeUp.simps, simp)

lemma normalizeUp_id: "- pi \<le> a \<Longrightarrow> normalizeUp a = a"
  by (subst normalizeUp.simps) simp

lemma normalizeUp_lt: "a < - pi \<Longrightarrow> normalizeUp a < pi"
proof (induction a rule: normalizeUp.induct)
  case (1 angle)
  show ?case
  proof (cases "angle + pi * 2 < - pi")
    case True
    with 1 show ?thesis by (subst normalizeUp.simps) simp
  next
    case False
    then have "normalizeUp (angle + pi * 2) = angle + pi * 2"
      by (simp add: normalizeUp_id)
    with 1 show ?thesis by (subst normalizeUp.simps) simp
  qed
qed

lemma normalizeAngle_bounds: "- pi \<le> normalizeAngle a \<and> normalizeAngle a \<le> pi"
proof (cases "normalizeDown a < - pi")
  case True
  then show ?thesis
    using normalizeUp_lt [of "normalizeDown a"] normalizeUp_ge [of "normalizeDown a"]
    by (simp add: normalizeAngle_def)
next
  case False
  then show ?thesis
    using normalizeDown_le [of a] by (simp add: normalizeAngle_def normalizeUp_id)
qed

lemma normalizeAngle_fixed: "- pi \<le> a \<Longrightarrow> a \<le> pi \<Longrightarrow> normalizeAngle a = a"
  by (simp add: normalizeAngle_def normalizeDown_id normalizeUp_id)

text \<open>
  Claim C1 (as stated): for positive bounds, \<open>wrapPosition\<close> returns a point with
  x in [0, width) and y in [0, height). The code sends a negative coordinate to the
  bound itself, so the upper bound is attained: the claim fails at x = -1, width = 800.
\<close>

theorem wrapPosition_half_open_counterexample:
  "\<not> (px (wrapPosition \<lparr> px = -1, py = 0 \<rparr> 800 600) < 800)"
  by (simp add: wrapPosition_def)

text \<open>
  Claim C1 (amended): for every position and positive bounds, \<open>wrapPosition\<close> returns
  a point with x in the closed interval [0, width] and y in the closed interval
  [0, height].
\<close>

theorem wrapPosition_closed_range:
  assumes "0 < width" and "0 < height"
  shows "0 \<le> px (wrapPosition pos width height) \<and> px (wrapPosition pos width height) \<le> width
       \<and> 0 \<le> py (wrapPosition pos width height) \<and> py (wrapPosition pos width height) \<le> height"
  using assms by (simp add: wrapPosition_def Let_def)

theorem wrapPosition_closed_range_witness:
  "(0::real) < 800 \<and> (0::real) < 600
   \<and> 0 \<le> px (wrapPosition \<lparr> px = -1, py = 700 \<rparr> 800 600)
   \<and> px (wrapPosition \<lparr> px = -1, py = 700 \<rparr> 800 600) \<le> 800
   \<and> 0 \<le> py (wrapPosition \<lparr> px = -1, py = 700 \<rparr> 800 600)
   \<and> py (wrapPosition \<lparr> px = -1, py = 700 \<rparr> 800 600) \<le> 600"
  using wrapPosition_closed_range [of 800 600 "\<lparr> px = -1, py = 700 \<rparr>"] by simp

text \<open>
  Claim C5 (as stated): \<open>normalizeAngle\<close> maps every real angle into (-pi, pi] and is
  idempotent. The second loop runs only while the angle is strictly below -pi, so -pi
  itself is returned unchanged and the lower bound is attained.
\<close>

theorem normalizeAngle_open_lower_counterexample:
  "\<not> (- pi < normalizeAngle (- pi) \<and> normalizeAngle (- pi) \<le> pi)"
  by (simp add: normalizeAngle_fixed)

text \<open>
  Claim C5 (amended): \<open>normalizeAngle\<close> maps every real angle into the closed interval
  [-pi, pi], and it is idempotent.
\<close>

theorem normalizeAngle_closed_range_idempotent:
  "- pi \<le> normalizeAngle a \<and> normalizeAngle a \<le> pi
   \<and> normalizeAngle (normalizeAngle a) = normalizeAngle a"
  using normalizeAngle_bounds [of a] by (simp add: normalizeAngle_fixed)

section \<open>Projectile against obstacle\<close>

lemma firstHit_Some:
  "firstHit e as = Some (i, a) \<Longrightarrow>
     i < length as \<and> as ! i = a \<and> \<not> dead a \<and> checkCollision e a
     \<and> (\<forall>j<i. dead (as ! j) \<or> \<not> checkCollision e (as ! j))"
proof (induction as arbitrary: i)
  case Nil
  then show ?case by simp
next
  case (Cons x xs)
  show ?case
  proof (cases "\<not> dead x \<and> checkCollision e x")
    case True
    with Cons.prems show ?thesis by auto
  next
    case False
    with Cons.prems obtain k where k: "firstHit e xs = Some (k, a)" and i: "i = Suc k"
      by (auto split: if_splits)
    from Cons.IH [OF k] False i show ?thesis
      by (auto simp: less_Suc_eq_0_disj)
  qed
qed

lemma firstHit_None:
  "firstHit e as = None \<longleftrightarrow> (\<forall>a\<in>set as. dead a \<or> \<not> checkCollision e a)"
  by (induction as) auto

lemma bulletVsAsteroids_hit:
  assumes "firstHit b (asteroidsRef s) = Some (i, a)"
  shows "dead (fst (bulletVsAsteroids b s))"
    and "owner (fst (bulletVsAsteroids b s)) = owner b"
    and "score (snd (bulletVsAsteroids b s)) = score s + 
          (case asteroidSize a of large \<Rightarrow> 20 | medium \<Rightarrow> 50 | small \<Rightarrow> 100)"
    and "asteroidsRef (snd (bulletVsAsteroids b s)) =
           (asteroidsRef s)[i := a\<lparr> dead := True \<rparr>] @
           (if asteroidSize a = small then []
            else map (\<lambda>k. childAsteroid a (if asteroidSize a = large then medium else small)
                       (\<lambda>j. rnd (createExplosion (position a) (color a) 10 (spawnPowerUp (position a) s))
                               ((if asteroidSize a = large then 12 else 10) * k + j))) [0..<2])"
  using assms
  by (simp_all add: bulletVsAsteroids_def Let_def splitAsteroid_def createExplosion_def
        spawnPowerUp_def draw_def rnd_def split: Size.splits)

lemma bulletVsUfo_dead: "dead b \<Longrightarrow> bulletVsUfo now b s = (b, s)"
  by (simp add: bulletVsUfo_def split: option.splits)

lemma ufoBulletVsShip_own: "owner b = OwnerShip \<Longrightarrow> ufoBulletVsShip r b s = (b, s)"
  by (simp add: ufoBulletVsShip_def split: option.splits)

lemma bulletCollide_hit:
  assumes "owner b = OwnerShip" and "\<not> dead b"
    and "firstHit b (asteroidsRef s) = Some (i, a)"
  shows "bulletCollide r now b s = bulletVsAsteroids b s"
proof -
  obtain b1 s1 where e: "bulletVsAsteroids b s = (b1, s1)" by (cases "bulletVsAsteroids b s")
  from bulletVsAsteroids_hit(1,2) [OF assms(3)] e assms(1)
  have "dead b1" and "owner b1 = OwnerShip" by simp_all
  then show ?thesis using assms(1,2) e
    by (simp add: bulletCollide_def bulletVsUfo_dead ufoBulletVsShip_own)
qed

lemma childAsteroid_fields:
  "asteroidSize (childAsteroid a sz rs) = sz"
  "position (childAsteroid a sz rs) = position a"
  "\<not> dead (childAsteroid a sz rs)"
  by (simp_all add: childAsteroid_def Let_def)

text \<open>
  Claim C4: when a craft-owned projectile collides with an obstacle, both are marked
  dead, the score grows by the class value (large 20, medium 50, small 100), and exactly
  two child obstacles of the next-smaller class appear at the parent's position when the
  obstacle is large or medium, none when it is small. The obstacle destroyed is the first
  live overlapping one in spawn order; \<open>bulletCollide\<close> is the loop body for one
  projectile.
\<close>

theorem craft_projectile_destroys_obstacle:
  assumes "owner b = OwnerShip" and "\<not> dead b"
    and "\<exists>a\<in>set (asteroidsRef s). \<not> dead a \<and> checkCollision b a"
  shows "\<exists>i a children.
           i < length (asteroidsRef s) \<and> asteroidsRef s ! i = a
         \<and> \<not> dead a \<and> checkCollision b a
         \<and> (\<forall>j<i. dead (asteroidsRef s ! j) \<or> \<not> checkCollision b (asteroidsRef s ! j))
         \<and> dead (fst (bulletCollide r now b s))
         \<and> asteroidsRef (snd (bulletCollide r now b s))
             = (asteroidsRef s)[i := a\<lparr> dead := True \<rparr>] @ children
         \<and> score (snd (bulletCollide r now b s))
             = score s + (case asteroidSize a of large \<Rightarrow> 20 | medium \<Rightarrow> 50 | small \<Rightarrow> 100)
         \<and> length children = (if asteroidSize a = small then 0 else 2)
         \<and> (\<forall>c\<in>set children.
               asteroidSize c = (if asteroidSize a = large then medium else small)
             \<and> position c = position a \<and> \<not> dead c)"
proof -
  from assms(3) have "firstHit b (asteroidsRef s) \<noteq> None"
    by (simp add: firstHit_None)
  then obtain i a where hit: "firstHit b (asteroidsRef s) = Some (i, a)" by auto
  note fh = firstHit_Some [OF hit]
  note eq = bulletCollide_hit [OF assms(1,2) hit]
  note res = bulletVsAsteroids_hit [OF hit]
  let ?children = "(if asteroidSize a = small then []
            else map (\<lambda>k. childAsteroid a (if asteroidSize a = large then medium else small)
                       (\<lambda>j. rnd (createExplosion (position a) (color a) 10 (spawnPowerUp (position a) s))
                               ((if asteroidSize a = large then 12 else 10) * k + j))) [0..<2])"
  have "length ?children = (if asteroidSize a = small then 0 else 2)" by simp
  moreover have "\<forall>c\<in>set ?children.
               asteroidSize c = (if asteroidSize a = large then medium else small)
             \<and> position c = position a \<and> \<not> dead c"
    by (auto simp: childAsteroid_fields)
  ultimately show ?thesis
    using fh res(1,3,4) unfolding eq by blast
qed

theorem craft_projectile_destroys_obstacle_witness:
  "score (snd (bulletCollide playingRender 0 (shotAt OwnerShip 100 100)
                 ((initialGame (\<lambda>k. 1/2))\<lparr> asteroidsRef := [rockAt large 100 100] \<rparr>))) = 20
   \<and> length (asteroidsRef (snd (bulletCollide playingRender 0 (shotAt OwnerShip 100 100)
                 ((initialGame (\<lambda>k. 1/2))\<lparr> asteroidsRef := [rockAt large 100 100] \<rparr>)))) = 3"
proof -
  let ?b = "shotAt OwnerShip 100 100"
  let ?s = "(initialGame (\<lambda>k. 1/2))\<lparr> asteroidsRef := [rockAt large 100 100] \<rparr>"
  have h1: "owner ?b = OwnerShip" and h2: "\<not> dead ?b"
    by (simp_all add: shotAt_def)
  have h3: "\<exists>a\<in>set (asteroidsRef ?s). \<not> dead a \<and> checkCollision ?b a"
    by (simp add: shotAt_def rockAt_def checkCollision_def distance_def)
  from craft_projectile_destroys_obstacle [OF h1 h2 h3, of playingRender 0]
  obtain i a children where
    "i < length (asteroidsRef ?s)" "asteroidsRef ?s ! i = a"
    "asteroidsRef (snd (bulletCollide playingRender 0 ?b ?s)) = (asteroidsRef ?s)[i := a\<lparr> dead := True \<rparr>] @ children"
    "score (snd (bulletCollide playingRender 0 ?b ?s))
             = score ?s + (case asteroidSize a of large \<Rightarrow> 20 | medium \<Rightarrow> 50 | small \<Rightarrow> 100)"
    "length children = (if asteroidSize a = small then 0 else 2)"
    by blast
  then show ?thesis
    by (auto simp: initialGame_def rockAt_def)
qed

section \<open>Homing projectile hits\<close>

lemma missileCollide_ufo:
  assumes "\<not> dead m" and "ufoRef s = Some u" and "checkCollision m u"
  shows "dead (fst (missileCollide now m s))"
    and "ufoRef (snd (missileCollide now m s)) = None"
    and "score (snd (missileCollide now m s)) = score s + 500"
    and "asteroidsRef (snd (missileCollide now m s)) = asteroidsRef s"
  using assms
  by (simp_all add: missileCollide_def Let_def createExplosion_def spawnPowerUp_def draw_def)

lemma missileCollide_asteroid:
  assumes "\<not> dead m" and "\<forall>u. ufoRef s = Some u \<longrightarrow> \<not> checkCollision m u"
    and "firstHit m (asteroidsRef s) = Some (i, a)"
  shows "dead (fst (missileCollide now m s))"
    and "asteroidsRef (snd (missileCollide now m s)) = (asteroidsRef s)[i := a\<lparr> dead := True \<rparr>]"
    and "score (snd (missileCollide now m s)) = score s + 50"
  using assms
  by (auto simp add: missileCollide_def Let_def createExplosion_def split: option.splits)

lemma bulletCollide_ufo:
  assumes "owner b = OwnerShip" and "\<not> dead b"
    and "firstHit b (asteroidsRef s) = None"
    and "ufoRef s = Some u" and "checkCollision b u"
  shows "dead (fst (bulletCollide r now b s))"
    and "ufoRef (snd (bulletCollide r now b s)) = None"
    and "score (snd (bulletCollide r now b s)) = score s + 500"
  using assms
  by (simp_all add: bulletCollide_def bulletVsAsteroids_def bulletVsUfo_def Let_def
        ufoBulletVsShip_def createExplosion_def spawnPowerUp_def draw_def aliveShip_def
        split: option.splits)

text \<open>
  Claim C6: a homing-projectile hit on an obstacle of any size class marks both dead,
  spawns no child obstacles (the obstacle list keeps its length) and awards a flat 50
  points; a homing-projectile hit on the hostile unit despawns it and awards 500 points,
  as a primary-projectile hit on the hostile unit does (third conjunct).
  \<open>missileCollide\<close> is the loop body for one homing projectile.
\<close>

theorem homing_hit_resolution:
  assumes "\<not> dead m"
  shows "(\<forall>u. ufoRef s = Some u \<and> checkCollision m u \<longrightarrow>
            dead (fst (missileCollide now m s))
          \<and> ufoRef (snd (missileCollide now m s)) = None
          \<and> score (snd (missileCollide now m s)) = score s + 500
          \<and> asteroidsRef (snd (missileCollide now m s)) = asteroidsRef s)
       \<and> ((\<forall>u. ufoRef s = Some u \<longrightarrow> \<not> checkCollision m u)
          \<and> (\<exists>a\<in>set (asteroidsRef s). \<not> dead a \<and> checkCollision m a) \<longrightarrow>
            (\<exists>i a. i < length (asteroidsRef s) \<and> asteroidsRef s ! i = a
                 \<and> \<not> dead a \<and> checkCollision m a
                 \<and> dead (fst (missileCollide now m s))
                 \<and> asteroidsRef (snd (missileCollide now m s))
                     = (asteroidsRef s)[i := a\<lparr> dead := True \<rparr>]
                 \<and> score (snd (missileCollide now m s)) = score s + 50))
       \<and> (\<forall>b u. owner b = OwnerShip \<and> \<not> dead b
                \<and> (\<forall>a\<in>set (asteroidsRef s). dead a \<or> \<not> checkCollision b a)
                \<and> ufoRef s = Some u \<and> checkCollision b u \<longrightarrow>
            dead (fst (bulletCollide r now b s))
          \<and> ufoRef (snd (bulletCollide r now b s)) = None
          \<and> score (snd (bulletCollide r now b s)) = score s + 500)"
proof (intro conjI allI impI)
  fix u assume "ufoRef s = Some u \<and> checkCollision m u"
  then have u: "ufoRef s = Some u" "checkCollision m u" by simp_all
  note r = missileCollide_ufo [OF assms u]
  show "dead (fst (missileCollide now m s))" by (rule r)
  show "ufoRef (snd (missileCollide now m s)) = None" by (rule r)
  show "score (snd (missileCollide now m s)) = score s + 500" by (rule r)
  show "asteroidsRef (snd (missileCollide now m s)) = asteroidsRef s" by (rule r)
next
  assume h: "(\<forall>u. ufoRef s = Some u \<longrightarrow> \<not> checkCollision m u)
          \<and> (\<exists>a\<in>set (asteroidsRef s). \<not> dead a \<and> checkCollision m a)"
  then have "firstHit m (asteroidsRef s) \<noteq> None" by (simp add: firstHit_None)
  then obtain i a where hit: "firstHit m (asteroidsRef s) = Some (i, a)" by auto
  from h have nu: "\<forall>u. ufoRef s = Some u \<longrightarrow> \<not> checkCollision m u" by simp
  show "\<exists>i a. i < length (asteroidsRef s) \<and> asteroidsRef s ! i = a
                 \<and> \<not> dead a \<and> checkCollision m a
                 \<and> dead (fst (missileCollide now m s))
                 \<and> asteroidsRef (snd (missileCollide now m s))
                     = (asteroidsRef s)[i := a\<lparr> dead := True \<rparr>]
                 \<and> score (snd (missileCollide now m s)) = score s + 50"
    using firstHit_Some [OF hit] missileCollide_asteroid [OF assms nu hit] by blast
next
  fix b :: Bullet and u :: Ufo
  assume h: "owner b = OwnerShip \<and> \<not> dead b
                \<and> (\<forall>a\<in>set (asteroidsRef s). dead a \<or> \<not> checkCollision b a)
                \<and> ufoRef s = Some u \<and> checkCollision b u"
  then have n: "firstHit b (asteroidsRef s) = None" by (simp add: firstHit_None)
  from h have hh: "owner b = OwnerShip" "\<not> dead b" "ufoRef s = Some u" "checkCollision b u"
    by simp_all
  note r = bulletCollide_ufo [OF hh(1,2) n hh(3,4)]
  show "dead (fst (bulletCollide r now b s))" by (rule r)
  show "ufoRef (snd (bulletCollide r now b s)) = None" by (rule r)
  show "score (snd (bulletCollide r now b s)) = score s + 500" by (rule r)
qed

theorem homing_hit_resolution_witness:
  "score (snd (missileCollide 0 (rocketAt 100 100)
                 ((initialGame (\<lambda>k. 1/2))\<lparr> ufoRef := Some (saucerAt 100 100) \<rparr>))) = 500
   \<and> score (snd (missileCollide 0 (rocketAt 100 100)
                 ((initialGame (\<lambda>k. 1/2))\<lparr> asteroidsRef := [rockAt large 100 100] \<rparr>))) = 50
   \<and> length (asteroidsRef (snd (missileCollide 0 (rocketAt 100 100)
                 ((initialGame (\<lambda>k. 1/2))\<lparr> asteroidsRef := [rockAt large 100 100] \<rparr>)))) = 1
   \<and> score (snd (bulletCollide playingRender 0 (shotAt OwnerShip 100 100)
                 ((initialGame (\<lambda>k. 1/2))\<lparr> ufoRef := Some (saucerAt 100 100) \<rparr>))) = 500"
proof -
  let ?m = "rocketAt 100 100"
  let ?b = "shotAt OwnerShip 100 100"
  let ?s1 = "(initialGame (\<lambda>k. 1/2))\<lparr> ufoRef := Some (saucerAt 100 100) \<rparr>"
  let ?s2 = "(initialGame (\<lambda>k. 1/2))\<lparr> asteroidsRef := [rockAt large 100 100] \<rparr>"
  have m: "\<not> dead ?m" by (simp add: rocketAt_def)
  have u: "ufoRef ?s1 = Some (saucerAt 100 100) \<and> checkCollision ?m (saucerAt 100 100)"
    by (simp add: rocketAt_def saucerAt_def checkCollision_def distance_def)
  have a: "(\<forall>u. ufoRef ?s2 = Some u \<longrightarrow> \<not> checkCollision ?m u)
          \<and> (\<exists>a\<in>set (asteroidsRef ?s2). \<not> dead a \<and> checkCollision ?m a)"
    by (simp add: initialGame_def rocketAt_def rockAt_def checkCollision_def distance_def)
  have b: "owner ?b = OwnerShip \<and> \<not> dead ?b
                \<and> (\<forall>a\<in>set (asteroidsRef ?s1). dead a \<or> \<not> checkCollision ?b a)
                \<and> ufoRef ?s1 = Some (saucerAt 100 100) \<and> checkCollision ?b (saucerAt 100 100)"
    by (simp add: initialGame_def shotAt_def saucerAt_def checkCollision_def distance_def)
  from homing_hit_resolution [OF m, of ?s1 0 playingRender] u b
  have "score (snd (missileCollide 0 ?m ?s1)) = score ?s1 + 500"
    and "score (snd (bulletCollide playingRender 0 ?b ?s1)) = score ?s1 + 500"
    by blast+
  moreover from homing_hit_resolution [OF m, of ?s2 0 playingRender] a
  obtain i x where "i < length (asteroidsRef ?s2)"
    "asteroidsRef (snd (missileCollide 0 ?m ?s2)) = (asteroidsRef ?s2)[i := x\<lparr> dead := True \<rparr>]"
    "score (snd (missileCollide 0 ?m ?s2)) = score ?s2 + 50"
    by blast
  ultimately show ?thesis
    by (auto simp: initialGame_def)
qed

section \<open>Craft deaths in collision resolution\<close>

lemma quiet_refl: "quiet s s"
  by (simp add: quiet_def)

lemma quiet_trans: "quiet s s1 \<Longrightarrow> quiet s1 s2 \<Longrightarrow> quiet s s2"
  by (simp add: quiet_def)

lemma quiet_died: "quiet s s1 \<Longrightarrow> died r s1 s2 \<Longrightarrow> died r s s2"
  by (auto simp add: quiet_def died_def aliveShip_def)

lemma died_quiet: "died r s s1 \<Longrightarrow> quiet s1 s2 \<Longrightarrow> died r s s2"
  by (auto simp add: quiet_def died_def)

lemma died_not_alive: "died r s s1 \<Longrightarrow> aliveShip s1 = None"
  by (auto simp add: died_def aliveShip_def)

lemma died_died: "died r s s1 \<Longrightarrow> died r s1 s2 \<Longrightarrow> False"
  by (auto simp add: died_def aliveShip_def)

lemma loseLife_shipDies:
  "aliveShip s = Some sh \<Longrightarrow> invulnerable sh \<le> 0 \<Longrightarrow> powerupShieldTimer sh \<le> 0
   \<Longrightarrow> died r s (loseLife r (shipDies sh s))"
  by (simp add: died_def loseLife_def shipDies_def handleGameOver_def fetchAiCommentary_def
        createExplosion_def Let_def)

lemma bulletVsAsteroids_quiet: "quiet s (snd (bulletVsAsteroids b s))"
  by (simp add: quiet_def bulletVsAsteroids_def Let_def splitAsteroid_def createExplosion_def
        spawnPowerUp_def draw_def split: option.splits prod.splits)

lemma bulletVsUfo_quiet: "quiet s (snd (bulletVsUfo now b s))"
  by (simp add: quiet_def bulletVsUfo_def Let_def createExplosion_def
        spawnPowerUp_def draw_def split: option.splits)

lemma ufoBulletVsShip_vitals:
  "quiet s (snd (ufoBulletVsShip r b s)) \<or> died r s (snd (ufoBulletVsShip r b s))"
proof (cases "aliveShip s")
  case None
  then show ?thesis by (simp add: ufoBulletVsShip_def quiet_refl)
next
  case (Some sh)
  then show ?thesis
    using loseLife_shipDies [OF Some, of r]
    by (auto simp add: ufoBulletVsShip_def quiet_refl)
qed

lemma bulletCollide_vitals:
  "quiet s (snd (bulletCollide r now b s)) \<or> died r s (snd (bulletCollide r now b s))"
proof (cases "dead b")
  case True
  then show ?thesis by (simp add: bulletCollide_def quiet_refl)
next
  case False
  show ?thesis
  proof (cases "owner b = OwnerShip")
    case True
    obtain b1 s1 where e1: "bulletVsAsteroids b s = (b1, s1)" by (cases "bulletVsAsteroids b s")
    obtain b2 s2 where e2: "bulletVsUfo now b1 s1 = (b2, s2)" by (cases "bulletVsUfo now b1 s1")
    have q1: "quiet s s1" using bulletVsAsteroids_quiet [of s b] e1 by simp
    have q2: "quiet s1 s2" using bulletVsUfo_quiet [of s1 now b1] e2 by simp
    have q: "quiet s s2" using q1 q2 by (rule quiet_trans)
    have eq: "bulletCollide r now b s = ufoBulletVsShip r b2 s2"
      using False True e1 e2 by (simp add: bulletCollide_def)
    from ufoBulletVsShip_vitals [of s2 r b2] q show ?thesis
      unfolding eq by (blast intro: quiet_trans quiet_died)
  next
    case False
    with \<open>\<not> dead b\<close> have "bulletCollide r now b s = ufoBulletVsShip r b s"
      by (simp add: bulletCollide_def)
    then show ?thesis using ufoBulletVsShip_vitals [of s r b] by simp
  qed
qed

lemma not_alive_not_died: "aliveShip s = None \<Longrightarrow> \<not> died r s s'"
  by (simp add: died_def)

lemma vitals_step:
  assumes "quiet s s1 \<or> died r s s1" and "quiet s1 s2 \<or> died r s1 s2"
  shows "quiet s s2 \<or> died r s s2"
proof (cases "quiet s s1")
  case True
  with assms(2) show ?thesis by (blast intro: quiet_trans quiet_died)
next
  case False
  with assms(1) have d: "died r s s1" by simp
  then have "\<not> died r s1 s2" by (blast dest: died_died)
  with assms(2) have "quiet s1 s2" by simp
  with d show ?thesis by (blast intro: died_quiet)
qed

lemma bulletsCollide_vitals:
  "quiet s (snd (bulletsCollide r now bs s)) \<or> died r s (snd (bulletsCollide r now bs s))"
proof (induction bs arbitrary: s)
  case Nil
  then show ?case by (simp add: quiet_refl)
next
  case (Cons b bs)
  obtain b1 s1 where e1: "bulletCollide r now b s = (b1, s1)" by (cases "bulletCollide r now b s")
  have a: "quiet s s1 \<or> died r s s1" using bulletCollide_vitals [of s r now b] e1 by simp
  have b: "quiet s1 (snd (bulletsCollide r now bs s1)) \<or> died r s1 (snd (bulletsCollide r now bs s1))"
    by (rule Cons.IH)
  have "quiet s (snd (bulletsCollide r now bs s1)) \<or> died r s (snd (bulletsCollide r now bs s1))"
    using a b by (rule vitals_step)
  then show ?case using e1 by (simp add: split_beta)
qed

lemma bulletsPhase_vitals:
  "quiet s (bulletsPhase r now s) \<or> died r s (bulletsPhase r now s)"
proof -
  let ?s1 = "snd (bulletsCollide r now (bulletsRef s) s)"
  have q: "quiet ?s1 (bulletsPhase r now s)"
    by (simp add: bulletsPhase_def quiet_def split_beta Let_def)
  from bulletsCollide_vitals [of s r now "bulletsRef s"] q show ?thesis
    by (blast intro: quiet_trans died_quiet)
qed

lemma missileCollide_quiet: "quiet s (snd (missileCollide now m s))"
  by (simp add: quiet_def missileCollide_def Let_def createExplosion_def
        spawnPowerUp_def draw_def split: option.splits prod.splits)

lemma missilesCollide_quiet: "quiet s (snd (missilesCollide now ms s))"
proof (induction ms arbitrary: s)
  case Nil
  then show ?case by (simp add: quiet_refl)
next
  case (Cons m ms)
  show ?case
    using missileCollide_quiet [of s now m] Cons.IH [of "snd (missileCollide now m s)"]
    by (simp add: split_beta) (rule quiet_trans)
qed

lemma missilesPhase_quiet: "quiet s (missilesPhase now s)"
  using missilesCollide_quiet [of s now "missilesRef s"]
  by (simp add: missilesPhase_def split_beta quiet_def)

lemma checkDeath_shield: "powerupShieldTimer sh > 0 \<Longrightarrow> \<not> checkDeath sh obj"
  by (simp add: checkDeath_def)

lemma shipVsBodies_vitals:
  "quiet s (shipVsBodies r now s) \<or> died r s (shipVsBodies r now s)"
proof (cases "aliveShip s")
  case None
  then show ?thesis by (simp add: shipVsBodies_def quiet_refl)
next
  case (Some sh)
  show ?thesis
  proof (cases "invulnerable sh \<le> 0 \<and> powerupShieldTimer sh \<le> 0")
    case False
    then have "shipVsBodies r now s = s"
      using Some
      by (auto simp add: shipVsBodies_def checkDeath_shield Let_def list_ex_iff
            split: option.splits)
    then show ?thesis by (simp add: quiet_refl)
  next
    case True
    then have inv: "invulnerable sh \<le> 0" and sh: "powerupShieldTimer sh \<le> 0" by simp_all
    show ?thesis
    proof (cases "list_ex (checkDeath sh) (asteroidsRef s)")
      case True
      let ?s1 = "loseLife r (shipDies sh s)"
      have d: "died r s ?s1" by (rule loseLife_shipDies [OF Some inv sh])
      then have na: "aliveShip ?s1 = None" by (rule died_not_alive)
      have "shipVsBodies r now s = ?s1"
        using Some inv True na by (simp add: shipVsBodies_def Let_def split: option.splits)
      with d show ?thesis by simp
    next
      case False
      show ?thesis
      proof (cases "ufoRef s")
        case None
        with Some inv False have "shipVsBodies r now s = s"
          by (simp add: shipVsBodies_def Let_def)
        then show ?thesis by (simp add: quiet_refl)
      next
        case u: (Some u)
        show ?thesis
        proof (cases "checkDeath sh u")
          case False
          with Some inv \<open>\<not> list_ex (checkDeath sh) (asteroidsRef s)\<close> u
          have "shipVsBodies r now s = s"
            by (simp add: shipVsBodies_def Let_def)
          then show ?thesis by (simp add: quiet_refl)
        next
          case True
          let ?s1 = "(createExplosion (position u) (color u) 20 (shipDies sh s))
                        \<lparr> ufoRef := None, lastUfoSpawnTimeRef := now \<rparr>"
          have eq: "shipVsBodies r now s = loseLife r ?s1"
            using Some inv \<open>\<not> list_ex (checkDeath sh) (asteroidsRef s)\<close> u True
            by (simp add: shipVsBodies_def Let_def)
          have "died r s (loseLife r ?s1)"
            using Some inv sh
            by (simp add: died_def loseLife_def shipDies_def handleGameOver_def
                  fetchAiCommentary_def createExplosion_def Let_def)
          then show ?thesis using eq by simp
        qed
      qed
    qed
  qed
qed

lemma pickupPowerUps_ship:
  "pickupPowerUps ps sh msg = (ps', sh', msg') \<Longrightarrow>
     dead sh' = dead sh \<and> invulnerable sh' = invulnerable sh \<and> position sh' = position sh
     \<and> radius sh' = radius sh \<and> color sh' = color sh
     \<and> (powerupShieldTimer sh' = powerupShieldTimer sh \<or> powerupShieldTimer sh' = POWERUP_DURATION)"
proof (induction ps arbitrary: sh msg ps' sh' msg')
  case Nil
  then show ?case by simp
next
  case (Cons p ps)
  show ?case
  proof (cases "checkCollision (sh\<lparr> radius := radius sh * 1.5 \<rparr>) p")
    case True
    obtain qs sh1 m1 where
      e: "pickupPowerUps ps (applyPowerUp (powerUpType p) sh)
            (''ACQUIRED: '' @ powerUpLabel (powerUpType p)) = (qs, sh1, m1)"
      by (metis prod_cases3)
    with Cons.prems True have "sh' = sh1" by simp
    with Cons.IH [OF e] show ?thesis
      by (cases "powerUpType p") (auto simp add: applyPowerUp_def)
  next
    case False
    obtain qs sh1 m1 where e: "pickupPowerUps ps sh msg = (qs, sh1, m1)"
      by (metis prod_cases3)
    with Cons.prems False have "sh' = sh1" by simp
    with Cons.IH [OF e] show ?thesis by simp
  qed
qed

lemma pickups_vitals:
  "lives (pickups s) = lives s \<and> gameState (pickups s) = gameState s
   \<and> deferred (pickups s) = deferred s \<and> level (pickups s) = level s
   \<and> score (pickups s) = score s \<and> asteroidsRef (pickups s) = asteroidsRef s
   \<and> ufoRef (pickups s) = ufoRef s"
  by (simp add: pickups_def split_beta split: option.splits)

lemma pickups_ship_None: "aliveShip s = None \<Longrightarrow> pickups s = s"
  by (simp add: pickups_def)

lemma pickups_ship_Some:
  assumes "aliveShip s = Some sh"
  shows "\<exists>sh'. shipRef (pickups s) = Some sh' \<and> aliveShip (pickups s) = Some sh'
     \<and> \<not> dead sh' \<and> invulnerable sh' = invulnerable sh \<and> position sh' = position sh
     \<and> (powerupShieldTimer sh' = powerupShieldTimer sh \<or> powerupShieldTimer sh' = POWERUP_DURATION)"
proof -
  obtain ps sh1 m1 where e: "pickupPowerUps (powerUpsRef s) sh (aiMessage s) = (ps, sh1, m1)"
    by (metis prod_cases3)
  from assms have nd: "\<not> dead sh" by (auto simp add: aliveShip_def split: option.splits if_splits)
  from pickupPowerUps_ship [OF e] nd assms e show ?thesis
    by (simp add: pickups_def aliveShip_def)
qed

lemma collisions_vitals:
  "quiet (pickups s) (collisions r now s) \<or> died r (pickups s) (collisions r now s)"
proof -
  let ?s1 = "pickups s"
  let ?s2 = "bulletsPhase r now ?s1"
  let ?s3 = "missilesPhase now ?s2"
  have a: "quiet ?s1 ?s2 \<or> died r ?s1 ?s2" by (rule bulletsPhase_vitals)
  have b: "quiet ?s2 ?s3 \<or> died r ?s2 ?s3" using missilesPhase_quiet [of ?s2 now] by simp
  have c: "quiet ?s3 (shipVsBodies r now ?s3) \<or> died r ?s3 (shipVsBodies r now ?s3)"
    by (rule shipVsBodies_vitals)
  from vitals_step [OF vitals_step [OF a b] c] show ?thesis
    by (simp add: collisions_def)
qed

text \<open>
  Claim C7 (as stated): while the shield countdown is positive no collision kills the
  craft, and a hostile-owned projectile overlapping the doubled shield radius is marked
  dead. The projectile check is skipped altogether while the craft is invulnerable, so
  with shield and invulnerability both running an overlapping hostile projectile stays
  alive.
\<close>

theorem shield_invulnerable_projectile_counterexample:
  "0 < powerupShieldTimer (heroAt 100 100 1 5)
   \<and> checkCollision (shotAt OwnerUfo 100 100)
        ((heroAt 100 100 1 5)\<lparr> radius := radius (heroAt 100 100 1 5) * 2 \<rparr>)
   \<and> bulletsRef (collisions playingRender 0
        ((initialGame (\<lambda>k. 1/2))\<lparr> shipRef := Some (heroAt 100 100 1 5),
                                     bulletsRef := [shotAt OwnerUfo 100 100] \<rparr>))
       = [shotAt OwnerUfo 100 100]
   \<and> \<not> dead (shotAt OwnerUfo 100 100)"
  by (simp add: heroAt_def shotAt_def initialGame_def checkCollision_def distance_def
        collisions_def pickups_def aliveShip_def bulletsPhase_def bulletCollide_def
        ufoBulletVsShip_def missilesPhase_def shipVsBodies_def Let_def)

text \<open>
  Claim C7 (amended): if the shield countdown is positive when collisions are resolved,
  the collision pass leaves lives, phase and deferred actions unchanged and does not
  change whether the craft is dead; and when the craft is alive and its invulnerability
  countdown has run out, a live hostile-owned projectile overlapping the doubled shield
  radius is marked dead and nothing else changes.
\<close>

theorem shield_protects:
  assumes "shipRef s = Some sh" and "0 < powerupShieldTimer sh"
  shows "lives (collisions r now s) = lives s
       \<and> gameState (collisions r now s) = gameState s
       \<and> deferred (collisions r now s) = deferred s
       \<and> (\<exists>sh'. shipRef (collisions r now s) = Some sh' \<and> dead sh' = dead sh)
       \<and> (\<forall>b. owner b = OwnerUfo \<and> \<not> dead b \<and> \<not> dead sh \<and> invulnerable sh \<le> 0
               \<and> checkCollision b (sh\<lparr> radius := radius sh * 2 \<rparr>)
             \<longrightarrow> bulletCollide r now b s = (b\<lparr> dead := True \<rparr>, s))"
proof -
  let ?s1 = "pickups s"
  let ?s' = "collisions r now s"
  have p: "\<exists>sh1. shipRef ?s1 = Some sh1 \<and> dead sh1 = dead sh \<and> 0 < powerupShieldTimer sh1"
  proof (cases "dead sh")
    case True
    with assms have "aliveShip s = None" by (simp add: aliveShip_def)
    then have "pickups s = s" by (rule pickups_ship_None)
    with assms show ?thesis by simp
  next
    case False
    with assms have "aliveShip s = Some sh" by (simp add: aliveShip_def)
    from pickups_ship_Some [OF this] assms(2) False show ?thesis by auto
  qed
  then obtain sh1 where sh1: "shipRef ?s1 = Some sh1" "dead sh1 = dead sh"
    "0 < powerupShieldTimer sh1" by blast
  have "\<not> died r ?s1 ?s'"
    using sh1 by (auto simp add: died_def aliveShip_def split: if_splits)
  with collisions_vitals [of s r now] have q: "quiet ?s1 ?s'" by simp
  have v: "lives ?s' = lives s \<and> gameState ?s' = gameState s \<and> deferred ?s' = deferred s"
    using q pickups_vitals [of s] by (simp add: quiet_def)
  have sh': "\<exists>sh'. shipRef ?s' = Some sh' \<and> dead sh' = dead sh"
    using q sh1 by (simp add: quiet_def)
  have b: "\<forall>b. owner b = OwnerUfo \<and> \<not> dead b \<and> \<not> dead sh \<and> invulnerable sh \<le> 0
               \<and> checkCollision b (sh\<lparr> radius := radius sh * 2 \<rparr>)
             \<longrightarrow> bulletCollide r now b s = (b\<lparr> dead := True \<rparr>, s)"
    using assms by (simp add: bulletCollide_def ufoBulletVsShip_def aliveShip_def)
  from v sh' b show ?thesis by blast
qed

theorem shield_protects_witness:
  "lives (collisions playingRender 0
        ((initialGame (\<lambda>k. 1/2))\<lparr> shipRef := Some (heroAt 100 100 0 5),
                                     asteroidsRef := [rockAt large 100 100],
                                     bulletsRef := [shotAt OwnerUfo 100 100] \<rparr>)) = 3
   \<and> bulletCollide playingRender 0 (shotAt OwnerUfo 100 100)
        ((initialGame (\<lambda>k. 1/2))\<lparr> shipRef := Some (heroAt 100 100 0 5),
                                     asteroidsRef := [rockAt large 100 100],
                                     bulletsRef := [shotAt OwnerUfo 100 100] \<rparr>)
      = ((shotAt OwnerUfo 100 100)\<lparr> dead := True \<rparr>,
         (initialGame (\<lambda>k. 1/2))\<lparr> shipRef := Some (heroAt 100 100 0 5),
                                     asteroidsRef := [rockAt large 100 100],
                                     bulletsRef := [shotAt OwnerUfo 100 100] \<rparr>)"
proof -
  let ?sh = "heroAt 100 100 0 5"
  let ?b = "shotAt OwnerUfo 100 100"
  let ?s = "(initialGame (\<lambda>k. 1/2))\<lparr> shipRef := Some ?sh,
               asteroidsRef := [rockAt large 100 100], bulletsRef := [?b] \<rparr>"
  have h1: "shipRef ?s = Some ?sh" by simp
  have h2: "0 < powerupShieldTimer ?sh" by (simp add: heroAt_def)
  have h3: "owner ?b = OwnerUfo \<and> \<not> dead ?b \<and> \<not> dead ?sh \<and> invulnerable ?sh \<le> 0
               \<and> checkCollision ?b (?sh\<lparr> radius := radius ?sh * 2 \<rparr>)"
    by (simp add: heroAt_def shotAt_def checkCollision_def distance_def)
  from shield_protects [OF h1 h2, of playingRender 0] h3
  have "lives (collisions playingRender 0 ?s) = lives ?s"
    and "bulletCollide playingRender 0 ?b ?s = (?b\<lparr> dead := True \<rparr>, ?s)"
    by blast+
  then show ?thesis by (simp add: initialGame_def)
qed

section \<open>The update phase\<close>

lemma missileStep_eq:
  "\<exists>ps k. missileStep dt m s =
     (missileAdvance dt (ufoRef s) m, s\<lparr> particlesRef := particlesRef s @ ps, drawn := drawn s + k \<rparr>)"
proof (cases "rnd s 0 > 0.5")
  case True
  then have "missileStep dt m s =
     (missileAdvance dt (ufoRef s) m,
      s\<lparr> particlesRef := particlesRef s @ [smokeParticle (missileAdvance dt (ufoRef s) m) s],
         drawn := drawn s + 2 \<rparr>)"
    by (simp add: missileStep_def Let_def)
  then show ?thesis by blast
next
  case False
  then have "missileStep dt m s =
     (missileAdvance dt (ufoRef s) m, s\<lparr> particlesRef := particlesRef s @ [], drawn := drawn s + 1 \<rparr>)"
    by (simp add: missileStep_def Let_def draw_def)
  then show ?thesis by blast
qed

lemma missilesUpdate_eq:
  "\<exists>ps k. missilesUpdate dt ms s =
     (map (missileAdvance dt (ufoRef s)) ms, s\<lparr> particlesRef := particlesRef s @ ps, drawn := drawn s + k \<rparr>)"
proof (induction ms arbitrary: s)
  case Nil
  have "missilesUpdate dt [] s =
     (map (missileAdvance dt (ufoRef s)) [], s\<lparr> particlesRef := particlesRef s @ [], drawn := drawn s + 0 \<rparr>)"
    by simp
  then show ?case by blast
next
  case (Cons m ms)
  from missileStep_eq [of dt m s] obtain ps k where
    e: "missileStep dt m s =
     (missileAdvance dt (ufoRef s) m, s\<lparr> particlesRef := particlesRef s @ ps, drawn := drawn s + k \<rparr>)"
    by blast
  let ?s1 = "s\<lparr> particlesRef := particlesRef s @ ps, drawn := drawn s + k \<rparr>"
  from Cons.IH [of ?s1] obtain qs j where
    r: "missilesUpdate dt ms ?s1 =
        (map (missileAdvance dt (ufoRef ?s1)) ms, ?s1\<lparr> particlesRef := particlesRef ?s1 @ qs, drawn := drawn ?s1 + j \<rparr>)"
    by blast
  have "missilesUpdate dt (m # ms) s =
     (map (missileAdvance dt (ufoRef s)) (m # ms),
      s\<lparr> particlesRef := particlesRef s @ (ps @ qs), drawn := drawn s + (k + j) \<rparr>)"
    using e r by (simp add: add.assoc)
  then show ?case by blast
qed

lemma integrateEntities_eq:
  "\<exists>ps k. integrateEntities dt enemyDt w h s =
     s\<lparr> bulletsRef := filter (\<lambda>b. \<not> dead b) (map (bulletStep dt enemyDt) (bulletsRef s)),
        missilesRef := filter (\<lambda>m. \<not> dead m) (map (missileAdvance dt (ufoRef s)) (missilesRef s)),
        asteroidsRef := map (asteroidStep enemyDt w h) (asteroidsRef s),
        powerUpsRef := filter (\<lambda>p. \<not> dead p) (map (powerUpStep dt w h) (powerUpsRef s)),
        particlesRef := filter (\<lambda>p. \<not> dead p) (map (particleStep dt) (particlesRef s @ ps)),
        drawn := drawn s + k \<rparr>"
proof -
  let ?s1 = "s\<lparr> bulletsRef := filter (\<lambda>b. \<not> dead b) (map (bulletStep dt enemyDt) (bulletsRef s)) \<rparr>"
  from missilesUpdate_eq [of dt "missilesRef ?s1" ?s1] obtain ps k where
    "missilesUpdate dt (missilesRef ?s1) ?s1 =
       (map (missileAdvance dt (ufoRef ?s1)) (missilesRef ?s1),
        ?s1\<lparr> particlesRef := particlesRef ?s1 @ ps, drawn := drawn ?s1 + k \<rparr>)"
    by blast
  then have "integrateEntities dt enemyDt w h s =
     s\<lparr> bulletsRef := filter (\<lambda>b. \<not> dead b) (map (bulletStep dt enemyDt) (bulletsRef s)),
        missilesRef := filter (\<lambda>m. \<not> dead m) (map (missileAdvance dt (ufoRef s)) (missilesRef s)),
        asteroidsRef := map (asteroidStep enemyDt w h) (asteroidsRef s),
        powerUpsRef := filter (\<lambda>p. \<not> dead p) (map (powerUpStep dt w h) (powerUpsRef s)),
        particlesRef := filter (\<lambda>p. \<not> dead p) (map (particleStep dt) (particlesRef s @ ps)),
        drawn := drawn s + k \<rparr>"
    by (simp add: integrateEntities_def Let_def)
  then show ?thesis by blast
qed

lemma decrementTimers_eq:
  "decrementTimers dt sh =
     sh\<lparr> powerupMultiShotTimer := (if 0 < powerupMultiShotTimer sh
                                    then powerupMultiShotTimer sh - dt else powerupMultiShotTimer sh),
         powerupShieldTimer := (if 0 < powerupShieldTimer sh
                                then powerupShieldTimer sh - dt else powerupShieldTimer sh),
         powerupTimeSlowTimer := (if 0 < powerupTimeSlowTimer sh
                                  then powerupTimeSlowTimer sh - dt else powerupTimeSlowTimer sh) \<rparr>"
  by (simp add: decrementTimers_def Let_def)

lemma applyTurn_eq: "applyTurn keys dt sh = sh\<lparr> angle := angle (applyTurn keys dt sh) \<rparr>"
  by (simp add: applyTurn_def Let_def)

lemma applyThrust_eq:
  "\<exists>ps k. applyThrust dt sh s =
     (sh\<lparr> thrusting := thrusting (fst (applyThrust dt sh s)),
          velocity := velocity (fst (applyThrust dt sh s)) \<rparr>,
      s\<lparr> particlesRef := particlesRef s @ ps, drawn := drawn s + k \<rparr>)"
proof (cases "keysRef s ''ArrowUp'' \<or> keysRef s ''KeyW''")
  case False
  then have "applyThrust dt sh s =
     (sh\<lparr> thrusting := thrusting (fst (applyThrust dt sh s)),
          velocity := velocity (fst (applyThrust dt sh s)) \<rparr>,
      s\<lparr> particlesRef := particlesRef s @ [], drawn := drawn s + 0 \<rparr>)"
    by (simp add: applyThrust_def)
  then show ?thesis by blast
next
  case True
  show ?thesis
  proof (cases "rnd s 0 > 0.5")
    case False
    with True have "applyThrust dt sh s =
     (sh\<lparr> thrusting := thrusting (fst (applyThrust dt sh s)),
          velocity := velocity (fst (applyThrust dt sh s)) \<rparr>,
      s\<lparr> particlesRef := particlesRef s @ [], drawn := drawn s + 1 \<rparr>)"
      by (simp add: applyThrust_def Let_def draw_def)
    then show ?thesis by blast
  next
    case r: True
    let ?sh1 = "sh\<lparr> thrusting := True,
                  velocity := \<lparr> px = px (velocity sh) + cos (angle sh) * THRUST_POWER * dt,
                                py = py (velocity sh) + sin (angle sh) * THRUST_POWER * dt \<rparr> \<rparr>"
    from True r have "applyThrust dt sh s =
     (sh\<lparr> thrusting := thrusting (fst (applyThrust dt sh s)),
          velocity := velocity (fst (applyThrust dt sh s)) \<rparr>,
      s\<lparr> particlesRef := particlesRef s @ [exhaustParticle ?sh1 s], drawn := drawn s + 4 \<rparr>)"
      by (simp add: applyThrust_def Let_def)
    then show ?thesis by blast
  qed
qed

lemma fireBullet_eq:
  "\<exists>b. fireBullet sh off s = s\<lparr> bulletsRef := bulletsRef s @ [b], drawn := drawn s + 1 \<rparr>
       \<and> owner b = OwnerShip"
proof -
  have "owner (shipBullet sh off s) = OwnerShip" by (simp add: shipBullet_def Let_def)
  then show ?thesis unfolding fireBullet_def by blast
qed

lemma shoot_eq:
  "\<exists>fired k. shoot dt sh s =
     (sh\<lparr> cooldown := cooldown (fst (shoot dt sh s)) \<rparr>,
      s\<lparr> bulletsRef := bulletsRef s @ fired, drawn := drawn s + k \<rparr>)
     \<and> (\<forall>b\<in>set fired. owner b = OwnerShip)"
proof -
  let ?sh0 = "(if cooldown sh > 0 then sh\<lparr> cooldown := cooldown sh - dt \<rparr> else sh)"
  let ?sh1 = "?sh0\<lparr> cooldown := FIRE_RATE \<rparr>"
  show ?thesis
  proof (cases "(keysRef s ''Space'' \<or> keysRef s ''ControlLeft'') \<and> cooldown ?sh0 \<le> 0")
    case False
    then have "shoot dt sh s =
     (sh\<lparr> cooldown := cooldown (fst (shoot dt sh s)) \<rparr>,
      s\<lparr> bulletsRef := bulletsRef s @ [], drawn := drawn s + 0 \<rparr>)"
      by (auto simp add: shoot_def Let_def)
    then show ?thesis by fastforce
  next
    case True
    obtain b0 where b0: "fireBullet ?sh1 0 s = s\<lparr> bulletsRef := bulletsRef s @ [b0], drawn := drawn s + 1 \<rparr>"
      "owner b0 = OwnerShip" using fireBullet_eq by blast
    let ?s1 = "s\<lparr> bulletsRef := bulletsRef s @ [b0], drawn := drawn s + 1 \<rparr>"
    show ?thesis
    proof (cases "powerupMultiShotTimer ?sh1 > 0")
      case False
      with True b0 have "shoot dt sh s =
         (sh\<lparr> cooldown := cooldown (fst (shoot dt sh s)) \<rparr>,
          s\<lparr> bulletsRef := bulletsRef s @ [b0], drawn := drawn s + 1 \<rparr>)"
        by (auto simp add: shoot_def Let_def)
      with b0(2) show ?thesis by fastforce
    next
      case m: True
      obtain b1 where b1: "fireBullet ?sh1 (- 0.2) ?s1 = ?s1\<lparr> bulletsRef := bulletsRef ?s1 @ [b1], drawn := drawn ?s1 + 1 \<rparr>"
        "owner b1 = OwnerShip" using fireBullet_eq by blast
      let ?s2 = "?s1\<lparr> bulletsRef := bulletsRef ?s1 @ [b1], drawn := drawn ?s1 + 1 \<rparr>"
      obtain b2 where b2: "fireBullet ?sh1 0.2 ?s2 = ?s2\<lparr> bulletsRef := bulletsRef ?s2 @ [b2], drawn := drawn ?s2 + 1 \<rparr>"
        "owner b2 = OwnerShip" using fireBullet_eq by blast
      from True m b0 b1 b2 have "shoot dt sh s =
         (sh\<lparr> cooldown := cooldown (fst (shoot dt sh s)) \<rparr>,
          s\<lparr> bulletsRef := bulletsRef s @ [b0, b1, b2], drawn := drawn s + 3 \<rparr>)"
        by (auto simp add: shoot_def Let_def)
      with b0(2) b1(2) b2(2) show ?thesis by fastforce
    qed
  qed
qed

lemma applyTurn_ex: "\<exists>a. applyTurn keys dt sh = sh\<lparr> angle := a \<rparr>"
  using applyTurn_eq by blast

lemma applyThrust_ex:
  "\<exists>t v ps k. applyThrust dt sh s =
      (sh\<lparr> thrusting := t, velocity := v \<rparr>,
       s\<lparr> particlesRef := particlesRef s @ ps, drawn := drawn s + k \<rparr>)
     \<and> (\<not> (keysRef s ''ArrowUp'' \<or> keysRef s ''KeyW'') \<longrightarrow> v = velocity sh)"
proof -
  from applyThrust_eq [of dt sh s] obtain ps k where
    e: "applyThrust dt sh s =
     (sh\<lparr> thrusting := thrusting (fst (applyThrust dt sh s)),
          velocity := velocity (fst (applyThrust dt sh s)) \<rparr>,
      s\<lparr> particlesRef := particlesRef s @ ps, drawn := drawn s + k \<rparr>)" by blast
  have "\<not> (keysRef s ''ArrowUp'' \<or> keysRef s ''KeyW'')
        \<longrightarrow> velocity (fst (applyThrust dt sh s)) = velocity sh"
    by (simp add: applyThrust_def)
  with e show ?thesis by blast
qed

lemma shoot_ex:
  "\<exists>c fired k. shoot dt sh s =
     (sh\<lparr> cooldown := c \<rparr>, s\<lparr> bulletsRef := bulletsRef s @ fired, drawn := drawn s + k \<rparr>)
     \<and> (\<forall>b\<in>set fired. owner b = OwnerShip)"
  using shoot_eq [of dt sh s] by blast

lemma shipLogic_ex:
  "\<exists>sh' fired ps k.
      shipLogic dt w h sh s =
        s\<lparr> shipRef := Some sh', bulletsRef := bulletsRef s @ fired,
           particlesRef := particlesRef s @ ps, drawn := drawn s + k \<rparr>
    \<and> (\<forall>b\<in>set fired. owner b = OwnerShip)
    \<and> dead sh' = dead sh \<and> radius sh' = radius sh \<and> color sh' = color sh
    \<and> powerupShieldTimer sh' = (if 0 < powerupShieldTimer sh
                                 then powerupShieldTimer sh - dt else powerupShieldTimer sh)
    \<and> powerupTimeSlowTimer sh' = (if 0 < powerupTimeSlowTimer sh
                                   then powerupTimeSlowTimer sh - dt else powerupTimeSlowTimer sh)
    \<and> invulnerable sh' = (if 0 < invulnerable sh then invulnerable sh - dt else invulnerable sh)
    \<and> position sh' = wrapPosition (moved (position sh) (velocity sh') dt) w h
    \<and> (\<not> (keysRef s ''ArrowUp'' \<or> keysRef s ''KeyW'') \<longrightarrow> velocity sh' = velocity sh)"
proof -
  let ?sh1 = "decrementTimers dt sh"
  obtain a where a: "applyTurn (keysRef s) dt ?sh1 = ?sh1\<lparr> angle := a \<rparr>"
    using applyTurn_ex by blast
  let ?sh2 = "?sh1\<lparr> angle := a \<rparr>"
  obtain t v ps k where th: "applyThrust dt ?sh2 s =
      (?sh2\<lparr> thrusting := t, velocity := v \<rparr>,
       s\<lparr> particlesRef := particlesRef s @ ps, drawn := drawn s + k \<rparr>)"
    and v: "\<not> (keysRef s ''ArrowUp'' \<or> keysRef s ''KeyW'') \<longrightarrow> v = velocity ?sh2"
    using applyThrust_ex [of dt ?sh2 s] by blast
  let ?sh3 = "?sh2\<lparr> thrusting := t, velocity := v \<rparr>"
  let ?s3 = "s\<lparr> particlesRef := particlesRef s @ ps, drawn := drawn s + k \<rparr>"
  obtain c fired j where sh: "shoot dt ?sh3 ?s3 =
     (?sh3\<lparr> cooldown := c \<rparr>, ?s3\<lparr> bulletsRef := bulletsRef ?s3 @ fired, drawn := drawn ?s3 + j \<rparr>)"
    and f: "\<forall>b\<in>set fired. owner b = OwnerShip"
    using shoot_ex [of dt ?sh3 ?s3] by blast
  let ?sh4 = "?sh3\<lparr> cooldown := c \<rparr>"
  let ?sh5 = "?sh4\<lparr> position := wrapPosition (moved (position ?sh4) (velocity ?sh4) dt) w h \<rparr>"
  let ?sh6 = "(if invulnerable ?sh5 > 0 then ?sh5\<lparr> invulnerable := invulnerable ?sh5 - dt \<rparr> else ?sh5)"
  have eq: "shipLogic dt w h sh s =
        s\<lparr> shipRef := Some ?sh6, bulletsRef := bulletsRef s @ fired,
           particlesRef := particlesRef s @ ps, drawn := drawn s + (k + j) \<rparr>"
    using a th sh by (simp add: shipLogic_def Let_def add.assoc)
  have props: "dead ?sh6 = dead sh \<and> radius ?sh6 = radius sh \<and> color ?sh6 = color sh
    \<and> powerupShieldTimer ?sh6 = (if 0 < powerupShieldTimer sh
                                 then powerupShieldTimer sh - dt else powerupShieldTimer sh)
    \<and> powerupTimeSlowTimer ?sh6 = (if 0 < powerupTimeSlowTimer sh
                                   then powerupTimeSlowTimer sh - dt else powerupTimeSlowTimer sh)
    \<and> invulnerable ?sh6 = (if 0 < invulnerable sh then invulnerable sh - dt else invulnerable sh)
    \<and> position ?sh6 = wrapPosition (moved (position sh) (velocity ?sh6) dt) w h
    \<and> (\<not> (keysRef s ''ArrowUp'' \<or> keysRef s ''KeyW'') \<longrightarrow> velocity ?sh6 = velocity sh)"
    using v by (simp add: decrementTimers_eq)
  from eq f props show ?thesis by blast
qed

lemma ufoLogic_keeps:
  "lives (ufoLogic e now w h s) = lives s"
  "gameState (ufoLogic e now w h s) = gameState s"
  "deferred (ufoLogic e now w h s) = deferred s"
  "level (ufoLogic e now w h s) = level s"
  "score (ufoLogic e now w h s) = score s"
  "shipRef (ufoLogic e now w h s) = shipRef s"
  "asteroidsRef (ufoLogic e now w h s) = asteroidsRef s"
  "powerUpsRef (ufoLogic e now w h s) = powerUpsRef s"
  "missilesRef (ufoLogic e now w h s) = missilesRef s"
  "particlesRef (ufoLogic e now w h s) = particlesRef s"
  "aiMessage (ufoLogic e now w h s) = aiMessage s"
  by (simp_all add: ufoLogic_def Let_def spawnUfo_def draw_def split_beta aliveShip_def
        split: option.splits)

lemma ufoLogic_bullets:
  "\<exists>fired. bulletsRef (ufoLogic e now w h s) = bulletsRef s @ fired
     \<and> (\<forall>b\<in>set fired. owner b = OwnerUfo)"
proof (cases "ufoRef s")
  case None
  then have "bulletsRef (ufoLogic e now w h s) = bulletsRef s @ []"
    by (simp add: ufoLogic_def Let_def spawnUfo_def)
  then show ?thesis by fastforce
next
  case (Some u)
  have o: "owner (ufoBullet u' sh' s') = OwnerUfo" for u' sh' s'
    by (simp add: ufoBullet_def Let_def)
  have "bulletsRef (ufoLogic e now w h s) = bulletsRef s @ []
        \<or> (\<exists>u' sh' s'. bulletsRef (ufoLogic e now w h s) = bulletsRef s @ [ufoBullet u' sh' s'])"
    using Some
    by (simp add: ufoLogic_def Let_def draw_def split_beta split: option.splits) blast
  with o show ?thesis by fastforce
qed

lemma ufoLogic_ufo:
  assumes "ufoRef s = Some u"
  shows "ufoRef (ufoLogic e now w h s) = None
       \<or> (\<exists>v. ufoRef (ufoLogic e now w h s) = Some v
              \<and> position v = moved (position u) (velocity u) e)"
  using assms
  by (simp add: ufoLogic_def Let_def draw_def split_beta split: option.splits)

lemma updateLogic_eq:
  "updateLogic r dt e now w h s = integrateEntities dt e w h (shipAndUfoLogic r dt e now w h s)"
  by (simp add: updateLogic_def)

lemma integrateEntities_keeps:
  "lives (integrateEntities dt e w h s) = lives s"
  "gameState (integrateEntities dt e w h s) = gameState s"
  "deferred (integrateEntities dt e w h s) = deferred s"
  "level (integrateEntities dt e w h s) = level s"
  "score (integrateEntities dt e w h s) = score s"
  "shipRef (integrateEntities dt e w h s) = shipRef s"
  "ufoRef (integrateEntities dt e w h s) = ufoRef s"
  "aiMessage (integrateEntities dt e w h s) = aiMessage s"
  "isAiLoading (integrateEntities dt e w h s) = isAiLoading s"
  "lastUfoSpawnTimeRef (integrateEntities dt e w h s) = lastUfoSpawnTimeRef s"
  "nextUfoSpawnDelayRef (integrateEntities dt e w h s) = nextUfoSpawnDelayRef s"
  "previousTimeRef (integrateEntities dt e w h s) = previousTimeRef s"
  "keysRef (integrateEntities dt e w h s) = keysRef s"
  "bulletsRef (integrateEntities dt e w h s)
     = filter (\<lambda>b. \<not> dead b) (map (bulletStep dt e) (bulletsRef s))"
  "missilesRef (integrateEntities dt e w h s)
     = filter (\<lambda>m. \<not> dead m) (map (missileAdvance dt (ufoRef s)) (missilesRef s))"
  "asteroidsRef (integrateEntities dt e w h s) = map (asteroidStep e w h) (asteroidsRef s)"
  "powerUpsRef (integrateEntities dt e w h s)
     = filter (\<lambda>p. \<not> dead p) (map (powerUpStep dt w h) (powerUpsRef s))"
  using integrateEntities_eq [of dt e w h s] by auto


lemma shipAndUfoLogic_keeps:
  "lives (shipAndUfoLogic r dt e now w h s) = lives s"
  "gameState (shipAndUfoLogic r dt e now w h s) = gameState s"
  "deferred (shipAndUfoLogic r dt e now w h s) = deferred s"
  "level (shipAndUfoLogic r dt e now w h s) = level s"
  "score (shipAndUfoLogic r dt e now w h s) = score s"
  "asteroidsRef (shipAndUfoLogic r dt e now w h s) = asteroidsRef s"
  "powerUpsRef (shipAndUfoLogic r dt e now w h s) = powerUpsRef s"
  "missilesRef (shipAndUfoLogic r dt e now w h s) = missilesRef s"
  "aiMessage (shipAndUfoLogic r dt e now w h s) = aiMessage s"
proof -
  have k: "lives (shipLogic dt w h sh s) = lives s \<and> gameState (shipLogic dt w h sh s) = gameState s
      \<and> deferred (shipLogic dt w h sh s) = deferred s \<and> level (shipLogic dt w h sh s) = level s
      \<and> score (shipLogic dt w h sh s) = score s
      \<and> asteroidsRef (shipLogic dt w h sh s) = asteroidsRef s
      \<and> powerUpsRef (shipLogic dt w h sh s) = powerUpsRef s
      \<and> missilesRef (shipLogic dt w h sh s) = missilesRef s
      \<and> aiMessage (shipLogic dt w h sh s) = aiMessage s" for sh
    using shipLogic_ex [of dt w h sh s] by auto
  show "lives (shipAndUfoLogic r dt e now w h s) = lives s"
    "gameState (shipAndUfoLogic r dt e now w h s) = gameState s"
    "deferred (shipAndUfoLogic r dt e now w h s) = deferred s"
    "level (shipAndUfoLogic r dt e now w h s) = level s"
    "score (shipAndUfoLogic r dt e now w h s) = score s"
    "asteroidsRef (shipAndUfoLogic r dt e now w h s) = asteroidsRef s"
    "powerUpsRef (shipAndUfoLogic r dt e now w h s) = powerUpsRef s"
    "missilesRef (shipAndUfoLogic r dt e now w h s) = missilesRef s"
    "aiMessage (shipAndUfoLogic r dt e now w h s) = aiMessage s"
    using k by (simp_all add: shipAndUfoLogic_def Let_def ufoLogic_keeps split: option.splits)
qed

lemma shipAndUfoLogic_not_playing: "rGameState r \<noteq> PLAYING \<Longrightarrow> shipAndUfoLogic r dt e now w h s = s"
  by (simp add: shipAndUfoLogic_def)

lemma shipAndUfoLogic_ship_None:
  "aliveShip s = None \<Longrightarrow> shipRef (shipAndUfoLogic r dt e now w h s) = shipRef s"
  by (simp add: shipAndUfoLogic_def Let_def ufoLogic_keeps)

lemma shipAndUfoLogic_ship_Some:
  assumes "rGameState r = PLAYING" and "aliveShip s = Some sh"
  shows "\<exists>sh'. shipRef (shipAndUfoLogic r dt e now w h s) = Some sh'
    \<and> dead sh' = dead sh \<and> radius sh' = radius sh \<and> color sh' = color sh
    \<and> powerupShieldTimer sh' = (if 0 < powerupShieldTimer sh
                                 then powerupShieldTimer sh - dt else powerupShieldTimer sh)
    \<and> powerupTimeSlowTimer sh' = (if 0 < powerupTimeSlowTimer sh
                                   then powerupTimeSlowTimer sh - dt else powerupTimeSlowTimer sh)
    \<and> invulnerable sh' = (if 0 < invulnerable sh then invulnerable sh - dt else invulnerable sh)
    \<and> position sh' = wrapPosition (moved (position sh) (velocity sh') dt) w h
    \<and> (\<not> (keysRef s ''ArrowUp'' \<or> keysRef s ''KeyW'') \<longrightarrow> velocity sh' = velocity sh)"
  using assms shipLogic_ex [of dt w h sh s]
  by (auto simp add: shipAndUfoLogic_def Let_def ufoLogic_keeps)

lemma shipAndUfoLogic_alive:
  "(aliveShip (shipAndUfoLogic r dt e now w h s) = None) = (aliveShip s = None)"
proof (cases "rGameState r = PLAYING")
  case False
  then show ?thesis by (simp add: shipAndUfoLogic_not_playing)
next
  case True
  show ?thesis
  proof (cases "aliveShip s")
    case None
    then show ?thesis using shipAndUfoLogic_ship_None [OF None, of r dt e now w h]
      by (simp add: aliveShip_def)
  next
    case (Some sh)
    then have "\<not> dead sh" by (auto simp add: aliveShip_def split: option.splits if_splits)
    with shipAndUfoLogic_ship_Some [OF True Some, of dt e now w h] Some show ?thesis
      by (auto simp add: aliveShip_def)
  qed
qed

lemma shipAndUfoLogic_bullets:
  "\<exists>fired. bulletsRef (shipAndUfoLogic r dt e now w h s) = bulletsRef s @ fired"
proof (cases "rGameState r = PLAYING")
  case False
  then have "bulletsRef (shipAndUfoLogic r dt e now w h s) = bulletsRef s @ []"
    by (simp add: shipAndUfoLogic_not_playing)
  then show ?thesis by blast
next
  case True
  let ?s1 = "(case aliveShip s of Some sh \<Rightarrow> shipLogic dt w h sh s | None \<Rightarrow> s)"
  have "\<exists>f1. bulletsRef ?s1 = bulletsRef s @ f1"
  proof (cases "aliveShip s")
    case None
    then have "bulletsRef ?s1 = bulletsRef s @ []" by simp
    then show ?thesis by blast
  next
    case (Some sh)
    with shipLogic_ex [of dt w h sh s] show ?thesis by auto
  qed
  then obtain f1 where f1: "bulletsRef ?s1 = bulletsRef s @ f1" by blast
  from ufoLogic_bullets [of e now w h ?s1] obtain f2 where
    "bulletsRef (ufoLogic e now w h ?s1) = bulletsRef ?s1 @ f2" by blast
  with f1 True have "bulletsRef (shipAndUfoLogic r dt e now w h s) = bulletsRef s @ (f1 @ f2)"
    by (simp add: shipAndUfoLogic_def Let_def)
  then show ?thesis by blast
qed

lemma shipAndUfoLogic_ufo:
  assumes "rGameState r = PLAYING" and "ufoRef s = Some u"
  shows "ufoRef (shipAndUfoLogic r dt e now w h s) = None
       \<or> (\<exists>v. ufoRef (shipAndUfoLogic r dt e now w h s) = Some v
              \<and> position v = moved (position u) (velocity u) e)"
proof -
  let ?s1 = "(case aliveShip s of Some sh \<Rightarrow> shipLogic dt w h sh s | None \<Rightarrow> s)"
  have "ufoRef ?s1 = Some u"
  proof (cases "aliveShip s")
    case None
    with assms show ?thesis by simp
  next
    case (Some sh)
    with shipLogic_ex [of dt w h sh s] assms show ?thesis by auto
  qed
  from ufoLogic_ufo [OF this, of e now w h] assms(1) show ?thesis
    by (simp add: shipAndUfoLogic_def Let_def)
qed

section \<open>Frames outside the Playing phase\<close>

lemma simulate_not_playing:
  assumes "rGameState r = GAME_OVER \<or> rGameState r = LEVEL_TRANSITION"
  shows "simulate r dt now w h s
         = integrateEntities dt (if timeSlowActive s then dt * 0.3 else dt) w h s"
proof -
  from assms have np: "rGameState r \<noteq> PLAYING" by auto
  then show ?thesis using assms
    by (simp add: simulate_def Let_def levelClear_def updateLogic_def
          shipAndUfoLogic_not_playing)
qed

lemma simulate_idle:
  assumes "rGameState r \<noteq> PLAYING" and "rGameState r \<noteq> GAME_OVER"
    and "rGameState r \<noteq> LEVEL_TRANSITION"
  shows "simulate r dt now w h s = s"
  using assms by (simp add: simulate_def)




section \<open>Time dilation\<close>

lemma bulletStep_explicit:
  "bulletStep dt e b =
     (let d = (if owner b = OwnerUfo then e else dt)
      in b\<lparr> position := moved (position b) (velocity b) d,
            life := life b - d,
            dead := (dead b \<or> life b - d \<le> 0) \<rparr>)"
  by (simp add: bulletStep_def Let_def)

lemma asteroidStep_explicit:
  "asteroidStep e w h a =
     a\<lparr> position := wrapPosition (moved (position a) (velocity a) e) w h,
        angle := angle a + rotationSpeed a * e \<rparr>"
  by (simp add: asteroidStep_def Let_def)

lemma ufoLogic_ufo_timers:
  assumes "ufoRef s = Some u" and "ufoRef (ufoLogic e now w h s) = Some v"
  shows "position v = moved (position u) (velocity u) e
       \<and> (0 < directionChangeTimer u - e \<longrightarrow>
            directionChangeTimer v = directionChangeTimer u - e \<and> velocity v = velocity u)
       \<and> (0 < shootCooldown u - e \<longrightarrow> shootCooldown v = shootCooldown u - e)"
  using assms
  by (auto simp add: ufoLogic_def Let_def draw_def split_beta split: option.splits if_splits)

lemma shipAndUfoLogic_ufo_timers:
  assumes "rGameState r = PLAYING" and "ufoRef s = Some u"
    and "ufoRef (shipAndUfoLogic r dt e now w h s) = Some v"
  shows "position v = moved (position u) (velocity u) e
       \<and> (0 < directionChangeTimer u - e \<longrightarrow>
            directionChangeTimer v = directionChangeTimer u - e \<and> velocity v = velocity u)
       \<and> (0 < shootCooldown u - e \<longrightarrow> shootCooldown v = shootCooldown u - e)"
proof -
  let ?s1 = "(case aliveShip s of Some sh \<Rightarrow> shipLogic dt w h sh s | None \<Rightarrow> s)"
  have u: "ufoRef ?s1 = Some u"
  proof (cases "aliveShip s")
    case None
    with assms show ?thesis by simp
  next
    case (Some sh)
    with shipLogic_ex [of dt w h sh s] assms show ?thesis by auto
  qed
  have "ufoRef (ufoLogic e now w h ?s1) = Some v"
    using assms(1,3) by (simp add: shipAndUfoLogic_def Let_def)
  from ufoLogic_ufo_timers [OF u this] show ?thesis .
qed

text \<open>
  Claim C3: whenever the craft's time-dilation countdown is positive at the start of a
  frame with (clamped) elapsed time \<open>dt\<close>, the update phase of that frame is run with
  enemy delta \<open>dt * 0.3\<close>: every obstacle moves and spins by \<open>dt * 0.3\<close>, every
  hostile-owned projectile moves and ages by \<open>dt * 0.3\<close>, the hostile unit (integrated
  while Playing) moves and counts down by \<open>dt * 0.3\<close>; craft-owned projectiles move and
  age by \<open>dt\<close>, and the craft (integrated while Playing and alive) moves and counts
  down by \<open>dt\<close>.
\<close>

theorem time_dilation:
  assumes "shipRef s = Some sh" and "0 < powerupTimeSlowTimer sh"
    and "rGameState r = PLAYING \<or> rGameState r = GAME_OVER \<or> rGameState r = LEVEL_TRANSITION"
  shows "let dt = frameDt time s;
             u = updateLogic r dt (dt * 0.3) now w h (s\<lparr> previousTimeRef := time \<rparr>)
         in animate r time now (Some (w, h)) s
              = levelClear r (if rGameState r = PLAYING then collisions r now u else u)
          \<and> asteroidsRef u
              = map (\<lambda>a. a\<lparr> position :=
                              wrapPosition (moved (position a) (velocity a) (dt * 0.3)) w h,
                            angle := angle a + rotationSpeed a * (dt * 0.3) \<rparr>) (asteroidsRef s)
          \<and> (\<exists>fired. bulletsRef u
              = filter (\<lambda>b. \<not> dead b)
                  (map (\<lambda>b. let d = (if owner b = OwnerUfo then dt * 0.3 else dt)
                            in b\<lparr> position := moved (position b) (velocity b) d,
                                  life := life b - d,
                                  dead := (dead b \<or> life b - d \<le> 0) \<rparr>)
                       (bulletsRef s @ fired)))
          \<and> (rGameState r = PLAYING \<longrightarrow>
               (\<forall>v v'. ufoRef s = Some v \<and> ufoRef u = Some v' \<longrightarrow>
                  position v' = moved (position v) (velocity v) (dt * 0.3)
                \<and> (0 < directionChangeTimer v - dt * 0.3 \<longrightarrow>
                     directionChangeTimer v' = directionChangeTimer v - dt * 0.3)
                \<and> (0 < shootCooldown v - dt * 0.3 \<longrightarrow>
                     shootCooldown v' = shootCooldown v - dt * 0.3)))
          \<and> (rGameState r = PLAYING \<and> \<not> dead sh \<longrightarrow>
               (\<exists>sh'. shipRef u = Some sh'
                  \<and> position sh' = wrapPosition (moved (position sh) (velocity sh') dt) w h
                  \<and> powerupTimeSlowTimer sh' = powerupTimeSlowTimer sh - dt
                  \<and> invulnerable sh'
                      = (if 0 < invulnerable sh then invulnerable sh - dt else invulnerable sh)))"
proof -
  let ?dt = "frameDt time s"
  let ?e = "?dt * 0.3"
  let ?s0 = "s\<lparr> previousTimeRef := time \<rparr>"
  let ?l = "shipAndUfoLogic r ?dt ?e now w h ?s0"
  let ?u = "updateLogic r ?dt ?e now w h ?s0"
  have ts: "timeSlowActive ?s0" using assms(1,2) by (simp add: timeSlowActive_def)
  have a: "animate r time now (Some (w, h)) s
              = levelClear r (if rGameState r = PLAYING then collisions r now ?u else ?u)"
    using assms(3) ts by (auto simp add: animate_def simulate_def Let_def)
  have b: "asteroidsRef ?u
              = map (\<lambda>a. a\<lparr> position :=
                              wrapPosition (moved (position a) (velocity a) ?e) w h,
                            angle := angle a + rotationSpeed a * ?e \<rparr>) (asteroidsRef s)"
    by (simp add: updateLogic_eq integrateEntities_keeps shipAndUfoLogic_keeps
          asteroidStep_explicit)
  obtain fired where f: "bulletsRef ?l = bulletsRef ?s0 @ fired"
    using shipAndUfoLogic_bullets [of r ?dt ?e now w h ?s0] by blast
  have c: "\<exists>fired. bulletsRef ?u
              = filter (\<lambda>b. \<not> dead b)
                  (map (\<lambda>b. let d = (if owner b = OwnerUfo then ?e else ?dt)
                            in b\<lparr> position := moved (position b) (velocity b) d,
                                  life := life b - d,
                                  dead := (dead b \<or> life b - d \<le> 0) \<rparr>)
                       (bulletsRef s @ fired))"
  proof -
    have fn: "bulletStep ?dt ?e
        = (\<lambda>b. let d = (if owner b = OwnerUfo then ?e else ?dt)
                in b\<lparr> position := moved (position b) (velocity b) d,
                      life := life b - d,
                      dead := (dead b \<or> life b - d \<le> 0) \<rparr>)"
      by (rule ext) (rule bulletStep_explicit)
    have "bulletsRef ?u
            = filter (\<lambda>b. \<not> dead b) (map (bulletStep ?dt ?e) (bulletsRef s @ fired))"
      using f by (simp add: updateLogic_eq integrateEntities_keeps)
    then show ?thesis unfolding fn by (rule exI)
  qed
  have d: "rGameState r = PLAYING \<longrightarrow>
               (\<forall>v v'. ufoRef s = Some v \<and> ufoRef ?u = Some v' \<longrightarrow>
                  position v' = moved (position v) (velocity v) ?e
                \<and> (0 < directionChangeTimer v - ?e \<longrightarrow>
                     directionChangeTimer v' = directionChangeTimer v - ?e)
                \<and> (0 < shootCooldown v - ?e \<longrightarrow>
                     shootCooldown v' = shootCooldown v - ?e))"
  proof (intro impI allI)
    fix v v' :: Ufo
    assume p: "rGameState r = PLAYING" and "ufoRef s = Some v \<and> ufoRef ?u = Some v'"
    then have "ufoRef ?s0 = Some v" and "ufoRef ?l = Some v'"
      by (simp_all add: updateLogic_eq integrateEntities_keeps)
    from shipAndUfoLogic_ufo_timers [OF p this]
    show "position v' = moved (position v) (velocity v) ?e
                \<and> (0 < directionChangeTimer v - ?e \<longrightarrow>
                     directionChangeTimer v' = directionChangeTimer v - ?e)
                \<and> (0 < shootCooldown v - ?e \<longrightarrow>
                     shootCooldown v' = shootCooldown v - ?e)"
      by blast
  qed
  have e: "rGameState r = PLAYING \<and> \<not> dead sh \<longrightarrow>
               (\<exists>sh'. shipRef ?u = Some sh'
                  \<and> position sh' = wrapPosition (moved (position sh) (velocity sh') ?dt) w h
                  \<and> powerupTimeSlowTimer sh' = powerupTimeSlowTimer sh - ?dt
                  \<and> invulnerable sh'
                      = (if 0 < invulnerable sh then invulnerable sh - ?dt else invulnerable sh))"
  proof
    assume p: "rGameState r = PLAYING \<and> \<not> dead sh"
    with assms(1) have al: "aliveShip ?s0 = Some sh" by (simp add: aliveShip_def)
    from p have pl: "rGameState r = PLAYING" by simp
    from shipAndUfoLogic_ship_Some [OF pl al, of ?dt ?e now w h] assms(2)
    show "\<exists>sh'. shipRef ?u = Some sh'
                  \<and> position sh' = wrapPosition (moved (position sh) (velocity sh') ?dt) w h
                  \<and> powerupTimeSlowTimer sh' = powerupTimeSlowTimer sh - ?dt
                  \<and> invulnerable sh'
                      = (if 0 < invulnerable sh then invulnerable sh - ?dt else invulnerable sh)"
      by (auto simp add: updateLogic_eq integrateEntities_keeps)
  qed
  from a b c d e show ?thesis unfolding Let_def by blast
qed

theorem time_dilation_witness:
  "map position (asteroidsRef (updateLogic playingRender
        (frameDt 16 ((initialGame (\<lambda>k. 1/2))
            \<lparr> shipRef := Some ((heroAt 400 300 0 0)\<lparr> powerupTimeSlowTimer := 5 \<rparr>),
              asteroidsRef := [rockAt large 100 100] \<rparr>))
        (frameDt 16 ((initialGame (\<lambda>k. 1/2))
            \<lparr> shipRef := Some ((heroAt 400 300 0 0)\<lparr> powerupTimeSlowTimer := 5 \<rparr>),
              asteroidsRef := [rockAt large 100 100] \<rparr>) * 0.3)
        0 800 600
        ((initialGame (\<lambda>k. 1/2))
            \<lparr> shipRef := Some ((heroAt 400 300 0 0)\<lparr> powerupTimeSlowTimer := 5 \<rparr>),
              asteroidsRef := [rockAt large 100 100], previousTimeRef := 16 \<rparr>)))
     = [\<lparr> px = 100.048, py = 100 \<rparr>]"
proof -
  let ?sh = "(heroAt 400 300 0 0)\<lparr> powerupTimeSlowTimer := 5 \<rparr>"
  let ?s = "(initialGame (\<lambda>k. 1/2))\<lparr> shipRef := Some ?sh,
              asteroidsRef := [rockAt large 100 100] \<rparr>"
  have h1: "shipRef ?s = Some ?sh" by simp
  have h2: "0 < powerupTimeSlowTimer ?sh" by simp
  have h3: "rGameState playingRender = PLAYING \<or> rGameState playingRender = GAME_OVER
            \<or> rGameState playingRender = LEVEL_TRANSITION"
    by (simp add: playingRender_def)
  from time_dilation [OF h1 h2 h3, of 16 0 800 600]
  have "asteroidsRef (updateLogic playingRender (frameDt 16 ?s) (frameDt 16 ?s * 0.3) 0 800 600
            (?s\<lparr> previousTimeRef := 16 \<rparr>))
          = map (\<lambda>a. a\<lparr> position :=
                 wrapPosition (moved (position a) (velocity a) (frameDt 16 ?s * 0.3)) 800 600,
               angle := angle a + rotationSpeed a * (frameDt 16 ?s * 0.3) \<rparr>) (asteroidsRef ?s)"
    unfolding Let_def by blast
  then show ?thesis
    by (simp add: initialGame_def rockAt_def frameDt_def moved_def wrapPosition_def Let_def)
qed

section \<open>Positions after a frame\<close>

lemma placed_refl: "placed s s"
  by (auto simp add: placed_def)

lemma placed_sets:
  "A1 \<subseteq> A0 \<Longrightarrow> P1 \<subseteq> P0 \<union> A0 \<union> U0 \<Longrightarrow> U1 \<subseteq> U0
   \<Longrightarrow> A2 \<subseteq> A1 \<Longrightarrow> P2 \<subseteq> P1 \<union> A1 \<union> U1 \<Longrightarrow> U2 \<subseteq> U1
   \<Longrightarrow> A2 \<subseteq> A0 \<and> P2 \<subseteq> P0 \<union> A0 \<union> U0 \<and> U2 \<subseteq> (U0 :: 'a set)"
  by blast

lemma placed_trans: "placed s s1 \<Longrightarrow> placed s1 s2 \<Longrightarrow> placed s s2"
  unfolding placed_def by (elim conjE) (rule placed_sets)

lemma spawnPowerUp_positions:
  "position ` set (powerUpsRef (spawnPowerUp p s)) \<subseteq> insert p (position ` set (powerUpsRef s))"
  by (auto simp add: spawnPowerUp_def draw_def Let_def)

lemma spawnPowerUp_other:
  "asteroidsRef (spawnPowerUp p s) = asteroidsRef s"
  "ufoRef (spawnPowerUp p s) = ufoRef s"
  by (simp_all add: spawnPowerUp_def draw_def Let_def)

lemma set_update_positions:
  "i < length as \<Longrightarrow> as ! i = a \<Longrightarrow>
     position ` set (as[i := a\<lparr> dead := True \<rparr>]) \<subseteq> position ` set as"
proof
  fix p assume i: "i < length as" and a: "as ! i = a"
    and "p \<in> position ` set (as[i := a\<lparr> dead := True \<rparr>])"
  then obtain x where x: "x \<in> set (as[i := a\<lparr> dead := True \<rparr>])" and p: "p = position x" by blast
  from x have "x = a\<lparr> dead := True \<rparr> \<or> x \<in> set as"
    using set_update_subset_insert [of as i "a\<lparr> dead := True \<rparr>"] by blast
  moreover from i a have "a \<in> set as" by auto
  ultimately show "p \<in> position ` set as" using p by force
qed

lemma bulletVsAsteroids_placed: "placed s (snd (bulletVsAsteroids b s))"
proof (cases "firstHit b (asteroidsRef s)")
  case None
  then show ?thesis by (simp add: bulletVsAsteroids_def placed_refl)
next
  case (Some ia)
  obtain i a where ia: "ia = (i, a)" by (cases ia)
  with Some have hit: "firstHit b (asteroidsRef s) = Some (i, a)" by simp
  from firstHit_Some [OF hit] have i: "i < length (asteroidsRef s)" and a: "asteroidsRef s ! i = a"
    by simp_all
  then have ain: "position a \<in> position ` set (asteroidsRef s)" by force
  note up = set_update_positions [OF i a]
  let ?s1 = "s\<lparr> asteroidsRef := (asteroidsRef s)[i := a\<lparr> dead := True \<rparr>] \<rparr>"
  have pu: "position ` set (powerUpsRef (snd (bulletVsAsteroids b s)))
             \<subseteq> insert (position a) (position ` set (powerUpsRef s))"
    using hit spawnPowerUp_positions [of "position a" ?s1]
    by (simp add: bulletVsAsteroids_def Let_def splitAsteroid_def createExplosion_def)
  have as: "position ` set (asteroidsRef (snd (bulletVsAsteroids b s)))
             \<subseteq> position ` set (asteroidsRef s)"
    using bulletVsAsteroids_hit(4) [OF hit] up ain
    by (auto simp add: childAsteroid_fields)
  have uf: "ufoRef (snd (bulletVsAsteroids b s)) = ufoRef s"
    using hit
    by (simp add: bulletVsAsteroids_def Let_def splitAsteroid_def createExplosion_def
          spawnPowerUp_other)
  from pu as uf ain show ?thesis
    unfolding placed_def ufoPositions_def by auto
qed

lemma bulletVsUfo_placed: "placed s (snd (bulletVsUfo now b s))"
proof (cases "ufoRef s")
  case None
  then show ?thesis by (simp add: bulletVsUfo_def placed_refl)
next
  case (Some u)
  show ?thesis
  proof (cases "\<not> dead b \<and> checkCollision b u")
    case False
    with Some show ?thesis by (auto simp add: bulletVsUfo_def placed_refl)
  next
    case True
    with Some spawnPowerUp_positions [of "position u" s] show ?thesis
      by (auto simp add: bulletVsUfo_def Let_def createExplosion_def spawnPowerUp_other
            placed_def ufoPositions_def)
  qed
qed

lemma keeps_placed:
  "asteroidsRef s' = asteroidsRef s \<Longrightarrow> powerUpsRef s' = powerUpsRef s
   \<Longrightarrow> ufoRef s' = ufoRef s \<or> ufoRef s' = None \<Longrightarrow> placed s s'"
  by (auto simp add: placed_def ufoPositions_def)

lemma loseLife_keeps:
  "asteroidsRef (loseLife r s) = asteroidsRef s"
  "powerUpsRef (loseLife r s) = powerUpsRef s"
  "ufoRef (loseLife r s) = ufoRef s"
  by (simp_all add: loseLife_def handleGameOver_def fetchAiCommentary_def Let_def)

lemma shipDies_keeps:
  "asteroidsRef (shipDies sh s) = asteroidsRef s"
  "powerUpsRef (shipDies sh s) = powerUpsRef s"
  "ufoRef (shipDies sh s) = ufoRef s"
  by (simp_all add: shipDies_def createExplosion_def)

lemma ufoBulletVsShip_placed: "placed s (snd (ufoBulletVsShip r b s))"
  by (rule keeps_placed)
     (simp_all add: ufoBulletVsShip_def loseLife_keeps shipDies_keeps split: option.splits)

lemma bulletCollide_placed: "placed s (snd (bulletCollide r now b s))"
proof (cases "dead b")
  case True
  then show ?thesis by (simp add: bulletCollide_def placed_refl)
next
  case False
  show ?thesis
  proof (cases "owner b = OwnerShip")
    case True
    obtain b1 s1 where e1: "bulletVsAsteroids b s = (b1, s1)" by (cases "bulletVsAsteroids b s")
    obtain b2 s2 where e2: "bulletVsUfo now b1 s1 = (b2, s2)" by (cases "bulletVsUfo now b1 s1")
    have q1: "placed s s1" using bulletVsAsteroids_placed [of s b] e1 by simp
    have q2: "placed s1 s2" using bulletVsUfo_placed [of s1 now b1] e2 by simp
    have eq: "bulletCollide r now b s = ufoBulletVsShip r b2 s2"
      using False True e1 e2 by (simp add: bulletCollide_def)
    from ufoBulletVsShip_placed [of s2 r b2] q1 q2 show ?thesis
      unfolding eq by (blast intro: placed_trans)
  next
    case o: False
    with False have "bulletCollide r now b s = ufoBulletVsShip r b s"
      by (simp add: bulletCollide_def)
    then show ?thesis using ufoBulletVsShip_placed [of s r b] by simp
  qed
qed

lemma bulletsCollide_placed: "placed s (snd (bulletsCollide r now bs s))"
proof (induction bs arbitrary: s)
  case Nil
  then show ?case by (simp add: placed_refl)
next
  case (Cons b bs)
  show ?case
    using bulletCollide_placed [of s r now b] Cons.IH [of "snd (bulletCollide r now b s)"]
    by (simp add: split_beta) (rule placed_trans)
qed

lemma bulletsPhase_placed: "placed s (bulletsPhase r now s)"
proof -
  let ?s1 = "snd (bulletsCollide r now (bulletsRef s) s)"
  have "placed ?s1 (bulletsPhase r now s)"
    by (auto simp add: bulletsPhase_def placed_def ufoPositions_def split_beta Let_def)
  with bulletsCollide_placed [of s r now "bulletsRef s"] show ?thesis
    by (rule placed_trans)
qed

lemma missileCollide_placed: "placed s (snd (missileCollide now m s))"
proof (cases "dead m")
  case True
  then show ?thesis by (simp add: missileCollide_def placed_refl)
next
  case False
  show ?thesis
  proof (cases "case ufoRef s of Some u \<Rightarrow> if checkCollision m u then Some u else None | None \<Rightarrow> None")
    case (Some u)
    then have u: "ufoRef s = Some u" by (auto split: option.splits if_splits)
    from False Some u spawnPowerUp_positions [of "position u" s] show ?thesis
      by (auto simp add: missileCollide_def Let_def createExplosion_def spawnPowerUp_other
            placed_def ufoPositions_def)
  next
    case None
    show ?thesis
    proof (cases "firstHit m (asteroidsRef s)")
      case n: None
      with None False show ?thesis by (simp add: missileCollide_def placed_refl)
    next
      case (Some ia)
      obtain i a where ia: "ia = (i, a)" by (cases ia)
      with Some have hit: "firstHit m (asteroidsRef s) = Some (i, a)" by simp
      from firstHit_Some [OF hit] have i: "i < length (asteroidsRef s)" and a: "asteroidsRef s ! i = a"
        by simp_all
      note up = set_update_positions [OF i a]
      from None False hit up show ?thesis
        by (auto simp add: missileCollide_def Let_def createExplosion_def placed_def
              ufoPositions_def)
    qed
  qed
qed

lemma missilesCollide_placed: "placed s (snd (missilesCollide now ms s))"
proof (induction ms arbitrary: s)
  case Nil
  then show ?case by (simp add: placed_refl)
next
  case (Cons m ms)
  show ?case
    using missileCollide_placed [of s now m] Cons.IH [of "snd (missileCollide now m s)"]
    by (simp add: split_beta) (rule placed_trans)
qed

lemma missilesPhase_placed: "placed s (missilesPhase now s)"
  using missilesCollide_placed [of s now "missilesRef s"]
  by (simp add: missilesPhase_def split_beta placed_def ufoPositions_def)

lemma shipVsBodies_placed: "placed s (shipVsBodies r now s)"
  by (rule keeps_placed)
     (auto simp add: shipVsBodies_def Let_def loseLife_keeps shipDies_keeps createExplosion_def
        split: option.splits)

lemma pickupPowerUps_positions:
  "map position (fst (pickupPowerUps ps sh msg)) = map position ps"
  by (induction ps arbitrary: sh msg) (simp_all add: split_beta)

lemma pickups_placed: "placed s (pickups s)"
proof (cases "aliveShip s")
  case None
  then show ?thesis by (simp add: pickups_def placed_refl)
next
  case (Some sh)
  have "position ` set (fst (pickupPowerUps (powerUpsRef s) sh (aiMessage s)))
        = position ` set (powerUpsRef s)"
    using pickupPowerUps_positions [of "powerUpsRef s" sh "aiMessage s"]
    by (metis set_map)
  then show ?thesis using Some
    by (auto simp add: pickups_def split_beta placed_def ufoPositions_def)
qed

lemma collisions_placed: "placed s (collisions r now s)"
proof -
  let ?s1 = "pickups s"
  let ?s2 = "bulletsPhase r now ?s1"
  let ?s3 = "missilesPhase now ?s2"
  have "placed s ?s2" using pickups_placed bulletsPhase_placed by (rule placed_trans)
  then have "placed s ?s3" using missilesPhase_placed by (rule placed_trans)
  then have "placed s (shipVsBodies r now ?s3)" using shipVsBodies_placed by (rule placed_trans)
  then show ?thesis by (simp add: collisions_def)
qed

lemma wrapPosition_inField:
  "0 < w \<Longrightarrow> 0 < h \<Longrightarrow> inField w h (wrapPosition p w h)"
  by (simp add: wrapPosition_def inField_def Let_def)

lemma levelClear_keeps:
  "asteroidsRef (levelClear r s) = asteroidsRef s"
  "powerUpsRef (levelClear r s) = powerUpsRef s"
  "shipRef (levelClear r s) = shipRef s"
  "ufoRef (levelClear r s) = ufoRef s"
  "lives (levelClear r s) = lives s"
  "score (levelClear r s) = score s"
  by (simp_all add: levelClear_def startNextLevel_def fetchAiCommentary_def Let_def)

lemma updateLogic_in_field:
  assumes "0 < w" and "0 < h"
  shows "\<forall>a\<in>set (asteroidsRef (updateLogic r dt e now w h s)). inField w h (position a)"
    and "\<forall>p\<in>set (powerUpsRef (updateLogic r dt e now w h s)). inField w h (position p)"
  using assms
  by (auto simp add: updateLogic_eq integrateEntities_keeps asteroidStep_def powerUpStep_def
        Let_def wrapPosition_inField)

lemma collisions_ship_position:
  assumes "aliveShip s = Some sh"
  shows "\<exists>sh'. shipRef (collisions r now s) = Some sh' \<and> position sh' = position sh"
proof -
  from pickups_ship_Some [OF assms] obtain sh1 where
    sh1: "shipRef (pickups s) = Some sh1" "aliveShip (pickups s) = Some sh1"
      "position sh1 = position sh" by blast
  from collisions_vitals [of s r now] show ?thesis
  proof
    assume "quiet (pickups s) (collisions r now s)"
    with sh1 show ?thesis by (simp add: quiet_def)
  next
    assume "died r (pickups s) (collisions r now s)"
    with sh1 show ?thesis by (auto simp add: died_def)
  qed
qed

text \<open>
  Claim C2 (as stated): after every simulation step every live entity lies in
  [0, width) x [0, height). Projectiles are integrated but never wrapped: a craft-owned
  projectile at x = 790 moving right at 400 per second is at x = 830 after a frame of
  0.1 s on an 800 wide field, still alive.
\<close>

theorem unwrapped_projectile_counterexample:
  "map position (bulletsRef (animate playingRender 100 0 (Some (800, 600))
       ((initialGame (\<lambda>k. 1/2))\<lparr> bulletsRef := [shotAt OwnerShip 790 100] \<rparr>)))
     = [\<lparr> px = 830, py = 100 \<rparr>]
   \<and> map dead (bulletsRef (animate playingRender 100 0 (Some (800, 600))
       ((initialGame (\<lambda>k. 1/2))\<lparr> bulletsRef := [shotAt OwnerShip 790 100] \<rparr>)))
     = [False]
   \<and> \<not> ((830::real) < 800)"
  by (simp add: animate_def simulate_def updateLogic_def shipAndUfoLogic_def aliveShip_def
        ufoLogic_def integrateEntities_def bulletStep_def collisions_def pickups_def
        bulletsPhase_def bulletCollide_def bulletVsAsteroids_def bulletVsUfo_def
        ufoBulletVsShip_def missilesPhase_def shipVsBodies_def levelClear_def
        startNextLevel_def fetchAiCommentary_def timeSlowActive_def frameDt_def moved_def
        initialGame_def shotAt_def playingRender_def Let_def)

lemma in_field_after:
  fixes r :: Render and dt e now w h :: real and st :: Game
  assumes "0 < w" and "0 < h"
  defines "u \<equiv> updateLogic r dt e now w h st"
  defines "s' \<equiv> levelClear r (if rGameState r = PLAYING then collisions r now u else u)"
  shows "\<forall>a\<in>set (asteroidsRef s'). inField w h (position a)"
    and "\<forall>p\<in>set (powerUpsRef u). inField w h (position p)"
    and "\<forall>p\<in>set (powerUpsRef s').
                inField w h (position p) \<or> (\<exists>v. ufoRef u = Some v \<and> position p = position v)"
    and "rGameState r = PLAYING \<longrightarrow>
               (\<forall>sh. aliveShip st = Some sh \<longrightarrow>
                  (\<exists>sh'. shipRef s' = Some sh' \<and> inField w h (position sh')))"
proof -
  let ?c = "(if rGameState r = PLAYING then collisions r now u else u)"
  note inu = updateLogic_in_field [OF assms(1,2), of r dt e now st, folded u_def]
  have pl: "placed u ?c"
    by (simp add: collisions_placed placed_refl)
  have sa: "asteroidsRef s' = asteroidsRef ?c" and sp: "powerUpsRef s' = powerUpsRef ?c"
    and ss: "shipRef s' = shipRef ?c"
    unfolding s'_def by (rule levelClear_keeps)+
  from pl have pa: "position ` set (asteroidsRef ?c) \<subseteq> position ` set (asteroidsRef u)"
    and pp: "position ` set (powerUpsRef ?c)
         \<subseteq> position ` set (powerUpsRef u) \<union> position ` set (asteroidsRef u) \<union> ufoPositions u"
    unfolding placed_def by simp_all
  show "\<forall>a\<in>set (asteroidsRef s'). inField w h (position a)"
  proof
    fix a assume "a \<in> set (asteroidsRef s')"
    then have "position a \<in> position ` set (asteroidsRef ?c)" unfolding sa by (rule imageI)
    with pa have "position a \<in> position ` set (asteroidsRef u)" by (rule subsetD)
    then obtain a0 where "a0 \<in> set (asteroidsRef u)" "position a = position a0" by (rule imageE)
    with inu(1) show "inField w h (position a)" by simp
  qed
  show "\<forall>p\<in>set (powerUpsRef u). inField w h (position p)" by (rule inu(2))
  show "\<forall>p\<in>set (powerUpsRef s').
                inField w h (position p) \<or> (\<exists>v. ufoRef u = Some v \<and> position p = position v)"
  proof
    fix p assume "p \<in> set (powerUpsRef s')"
    then have "position p \<in> position ` set (powerUpsRef ?c)" unfolding sp by (rule imageI)
    with pp have "position p \<in> position ` set (powerUpsRef u) \<union> position ` set (asteroidsRef u)
                 \<union> ufoPositions u" by (rule subsetD)
    then consider "position p \<in> position ` set (powerUpsRef u)"
      | "position p \<in> position ` set (asteroidsRef u)"
      | "position p \<in> ufoPositions u" by (elim UnE)
    then show "inField w h (position p) \<or> (\<exists>v. ufoRef u = Some v \<and> position p = position v)"
    proof cases
      case 1
      then obtain q where "q \<in> set (powerUpsRef u)" "position p = position q" by (rule imageE)
      with inu(2) show ?thesis by simp
    next
      case 2
      then obtain q where "q \<in> set (asteroidsRef u)" "position p = position q" by (rule imageE)
      with inu(1) show ?thesis by simp
    next
      case 3
      then show ?thesis by (simp add: ufoPositions_def split: option.splits)
    qed
  qed
  show "rGameState r = PLAYING \<longrightarrow>
               (\<forall>sh. aliveShip st = Some sh \<longrightarrow>
                  (\<exists>sh'. shipRef s' = Some sh' \<and> inField w h (position sh')))"
  proof (intro impI allI)
    fix sh assume play: "rGameState r = PLAYING" and al: "aliveShip st = Some sh"
    then have nd: "\<not> dead sh" by (auto simp add: aliveShip_def split: option.splits if_splits)
    from shipAndUfoLogic_ship_Some [OF play al, of dt e now w h]
    obtain sh1 where sh1: "shipRef u = Some sh1" "dead sh1 = dead sh"
      "position sh1 = wrapPosition (moved (position sh) (velocity sh1) dt) w h"
      by (auto simp add: u_def updateLogic_eq integrateEntities_keeps)
    then have "aliveShip u = Some sh1" using nd by (simp add: aliveShip_def)
    from collisions_ship_position [OF this, of r now] obtain sh' where
      "shipRef (collisions r now u) = Some sh'" "position sh' = position sh1" by blast
    with sh1(3) play show "\<exists>sh'. shipRef s' = Some sh' \<and> inField w h (position sh')"
      unfolding ss using wrapPosition_inField [OF assms(1,2)] by simp
  qed
qed

text \<open>
  Claim C2 (amended): after every simulation step on a field of positive size (a frame
  whose phase is Playing, GameOver or LevelTransition), every obstacle lies in the closed
  rectangle [0, width] x [0, height]; so does every power-up right after the integration
  pass, and at the end of the frame every power-up lies in that rectangle or sits where
  the hostile unit was when it was destroyed in this frame; and so does the craft when
  it was integrated in this frame (phase Playing, craft alive). Projectiles, homing
  projectiles, the hostile unit and particles are not wrapped.
\<close>

theorem wrapped_entities:
  assumes "0 < w" and "0 < h"
    and "rGameState r = PLAYING \<or> rGameState r = GAME_OVER \<or> rGameState r = LEVEL_TRANSITION"
  shows "let s' = animate r time now (Some (w, h)) s;
             dt = frameDt time s;
             u = updateLogic r dt (if timeSlowActive s then dt * 0.3 else dt) now w h
                   (s\<lparr> previousTimeRef := time \<rparr>)
         in (\<forall>a\<in>set (asteroidsRef s'). inField w h (position a))
          \<and> (\<forall>p\<in>set (powerUpsRef u). inField w h (position p))
          \<and> (\<forall>p\<in>set (powerUpsRef s').
                inField w h (position p) \<or> (\<exists>v. ufoRef u = Some v \<and> position p = position v))
          \<and> (rGameState r = PLAYING \<longrightarrow>
               (\<forall>sh. aliveShip s = Some sh \<longrightarrow>
                  (\<exists>sh'. shipRef s' = Some sh' \<and> inField w h (position sh'))))"
proof -
  let ?dt = "frameDt time s"
  let ?e = "(if timeSlowActive s then ?dt * 0.3 else ?dt)"
  let ?s0 = "s\<lparr> previousTimeRef := time \<rparr>"
  let ?u = "updateLogic r ?dt ?e now w h ?s0"
  have ts: "timeSlowActive ?s0 = timeSlowActive s" by (simp add: timeSlowActive_def)
  have al: "aliveShip ?s0 = aliveShip s" by (simp add: aliveShip_def)
  have eq: "animate r time now (Some (w, h)) s
             = levelClear r (if rGameState r = PLAYING then collisions r now ?u else ?u)"
    using assms(3) ts by (auto simp add: animate_def simulate_def Let_def)
  note f = in_field_after [OF assms(1,2), where r = r and dt = ?dt and e = ?e and now = now
      and st = ?s0, unfolded al]
  show ?thesis unfolding Let_def eq by (intro conjI f)
qed

theorem wrapped_entities_witness:
  "list_all (\<lambda>a. inField 800 600 (position a))
      (asteroidsRef (animate playingRender 100 0 (Some (800, 600))
        ((initialGame (\<lambda>k. 1/2))\<lparr> shipRef := Some (heroAt 400 300 3 0),
                                     asteroidsRef := [rockAt large 799.5 100] \<rparr>)))
   \<and> (\<exists>sh'. shipRef (animate playingRender 100 0 (Some (800, 600))
        ((initialGame (\<lambda>k. 1/2))\<lparr> shipRef := Some (heroAt 400 300 3 0),
                                     asteroidsRef := [rockAt large 799.5 100] \<rparr>)) = Some sh'
          \<and> inField 800 600 (position sh'))"
proof -
  let ?s = "(initialGame (\<lambda>k. 1/2))\<lparr> shipRef := Some (heroAt 400 300 3 0),
                                     asteroidsRef := [rockAt large 799.5 100] \<rparr>"
  have h1: "(0::real) < 800" and h2: "(0::real) < 600" by simp_all
  have h3: "rGameState playingRender = PLAYING \<or> rGameState playingRender = GAME_OVER
            \<or> rGameState playingRender = LEVEL_TRANSITION"
    and h4: "rGameState playingRender = PLAYING"
    by (simp_all add: playingRender_def)
  have h5: "aliveShip ?s = Some (heroAt 400 300 3 0)"
    by (simp add: aliveShip_def heroAt_def)
  from wrapped_entities [OF h1 h2 h3, of 100 0 ?s] h4 h5
  show ?thesis unfolding Let_def list_all_iff by blast
qed

section \<open>Lives, game over and deferred respawn\<close>

lemma levelClear_log:
  "\<exists>xs. deferred (levelClear r s) = deferred s @ xs \<and> benign xs"
proof (cases "asteroidsRef s = [] \<and> ufoRef s = None \<and> rGameState r = PLAYING")
  case True
  then have "deferred (levelClear r s)
      = deferred s @ [FetchAiCommentary level_clear None, NextLevelTimeout (rLevel r + 1)]"
    by (simp add: levelClear_def startNextLevel_def fetchAiCommentary_def Let_def)
  moreover have "benign [FetchAiCommentary level_clear None, NextLevelTimeout (rLevel r + 1)]"
    by (simp add: benign_def)
  ultimately show ?thesis by blast
next
  case False
  then have "deferred (levelClear r s) = deferred s @ []" by (auto simp add: levelClear_def)
  moreover have "benign []" by (simp add: benign_def)
  ultimately show ?thesis by blast
qed

lemma updateLogic_vitals:
  "lives (updateLogic r dt e now w h s) = lives s"
  "deferred (updateLogic r dt e now w h s) = deferred s"
  "(aliveShip (updateLogic r dt e now w h s) = None) = (aliveShip s = None)"
proof -
  show "lives (updateLogic r dt e now w h s) = lives s"
    and "deferred (updateLogic r dt e now w h s) = deferred s"
    by (simp_all add: updateLogic_eq integrateEntities_keeps shipAndUfoLogic_keeps)
  have "aliveShip (updateLogic r dt e now w h s) = aliveShip (shipAndUfoLogic r dt e now w h s)"
    by (simp add: aliveShip_def updateLogic_eq integrateEntities_keeps)
  then show "(aliveShip (updateLogic r dt e now w h s) = None) = (aliveShip s = None)"
    by (simp add: shipAndUfoLogic_alive)
qed

lemma pickups_alive: "(aliveShip (pickups s) = None) = (aliveShip s = None)"
proof (cases "aliveShip s")
  case None
  then show ?thesis by (simp add: pickups_ship_None)
next
  case (Some sh)
  from pickups_ship_Some [OF Some] Some show ?thesis by auto
qed

lemma playing_frame_cases:
  fixes r :: Render and now dt e w h :: real and g :: Game
  assumes "rGameState r = PLAYING"
  defines "g' \<equiv> levelClear r (collisions r now (updateLogic r dt e now w h g))"
  shows "frameQuiet g g' \<or> frameDeath r g g'"
proof -
  let ?u = "updateLogic r dt e now w h g"
  let ?p = "pickups ?u"
  let ?c = "collisions r now ?u"
  have lp: "lives ?p = lives g" and dp: "deferred ?p = deferred g"
    and ap: "(aliveShip ?p = None) = (aliveShip g = None)"
    using pickups_vitals [of ?u] pickups_alive [of ?u]
    by (simp_all add: updateLogic_vitals)
  obtain xs where xs: "deferred g' = deferred ?c @ xs" "benign xs"
    unfolding g'_def using levelClear_log by blast
  have lg: "lives g' = lives ?c" and sg: "shipRef g' = shipRef ?c"
    unfolding g'_def by (rule levelClear_keeps)+
  from sg have ag: "aliveShip g' = aliveShip ?c" by (simp add: aliveShip_def)
  from collisions_vitals [of ?u r now] show ?thesis
  proof
    assume q: "quiet ?p ?c"
    then have "aliveShip ?c = aliveShip ?p" by (simp add: quiet_def aliveShip_def)
    with q lp dp ap xs lg ag have "frameQuiet g g'"
      unfolding frameQuiet_def quiet_def by auto
    then show ?thesis ..
  next
    assume d: "died r ?p ?c"
    then have na: "aliveShip ?c = None" by (rule died_not_alive)
    from d have al: "aliveShip ?p \<noteq> None" by (auto simp add: died_def)
    from d have l: "lives ?c = lives ?p - 1"
      and dl: "deferred ?c = deferred ?p @ deathLog r ?p"
      by (auto simp add: died_def deathLog_def split: if_splits)
    have "deathLog r ?p = deathLog r g" using lp by (simp add: deathLog_def)
    with l dl lp dp ap al na xs lg ag assms(1) have "frameDeath r g g'"
      unfolding frameDeath_def by auto
    then show ?thesis ..
  qed
qed

lemma frameQuiet_refl: "frameQuiet g g"
  by (simp add: frameQuiet_def benign_def)

lemma frameQuiet_keeps:
  "lives g' = lives g \<Longrightarrow> deferred g' = deferred g \<Longrightarrow> shipRef g' = shipRef g
   \<Longrightarrow> frameQuiet g g'"
  by (simp add: frameQuiet_def benign_def aliveShip_def)

lemma animate_cases:
  "frameQuiet g (animate r time now canvas g) \<or> frameDeath r g (animate r time now canvas g)"
proof (cases canvas)
  case None
  then show ?thesis by (simp add: animate_def frameQuiet_refl)
next
  case (Some c)
  obtain w h where c: "c = (w, h)" by (cases c)
  let ?s0 = "g\<lparr> previousTimeRef := time \<rparr>"
  let ?dt = "frameDt time g"
  have eq: "animate r time now canvas g = simulate r ?dt now w h ?s0"
    using Some c by (simp add: animate_def)
  have s0: "frameQuiet g ?s0" by (rule frameQuiet_keeps) simp_all
  show ?thesis
  proof (cases "rGameState r = PLAYING")
    case True
    let ?e = "(if timeSlowActive ?s0 then ?dt * 0.3 else ?dt)"
    from True have "simulate r ?dt now w h ?s0
        = levelClear r (collisions r now (updateLogic r ?dt ?e now w h ?s0))"
      by (simp add: simulate_def Let_def)
    with playing_frame_cases [OF True, where now = now and dt = ?dt and e = ?e and w = w
        and h = h and g = ?s0]
    have "frameQuiet ?s0 (animate r time now canvas g)
        \<or> frameDeath r ?s0 (animate r time now canvas g)"
      unfolding eq by simp
    then show ?thesis
      by (simp add: frameQuiet_def frameDeath_def aliveShip_def deathLog_def)
  next
    case False
    show ?thesis
    proof (cases "rGameState r = GAME_OVER \<or> rGameState r = LEVEL_TRANSITION")
      case True
      have "frameQuiet g (animate r time now canvas g)"
        unfolding eq simulate_not_playing [OF True]
        by (rule frameQuiet_keeps) (simp_all add: integrateEntities_keeps)
      then show ?thesis ..
    next
      case f: False
      with False have "simulate r ?dt now w h ?s0 = ?s0" by (simp add: simulate_idle)
      with s0 show ?thesis unfolding eq by simp
    qed
  qed
qed

lemma pending_append_benign:
  assumes "deferred g' = deferred g @ xs" and "benign xs"
  shows "pendingRespawn g' fired i = pendingRespawn g fired i"
proof (cases "i < length (deferred g)")
  case True
  with assms(1) show ?thesis by (simp add: pendingRespawn_def nth_append)
next
  case False
  then have "\<not> pendingRespawn g fired i" by (simp add: pendingRespawn_def)
  moreover have "\<not> pendingRespawn g' fired i"
  proof
    assume p: "pendingRespawn g' fired i"
    then have "i < length (deferred g) + length xs" using assms(1) by (simp add: pendingRespawn_def)
    with False have "deferred g' ! i = xs ! (i - length (deferred g))"
      and "i - length (deferred g) < length xs"
      using assms(1) by (simp_all add: nth_append)
    then have "deferred g' ! i \<in> set xs" by simp
    with assms(2) have "\<not> isRespawn (deferred g' ! i)" by (simp add: benign_def)
    with p show False by (simp add: pendingRespawn_def)
  qed
  ultimately show ?thesis by simp
qed

lemma gameOvers_append:
  assumes "deferred g' = deferred g @ xs" and "n0 \<le> length (deferred g)"
  shows "gameOversSince n0 g'
         = gameOversSince n0 g + length (filter (\<lambda>d. d = GameOverTimeout) xs)"
  using assms by (simp add: gameOversSince_def)

lemma benign_no_gameover: "benign xs \<Longrightarrow> filter (\<lambda>d. d = GameOverTimeout) xs = []"
  by (auto simp add: benign_def filter_empty_conv)

lemma runInv_quiet:
  assumes "runInv n0 (g, fired)" and "frameQuiet g g'"
  shows "runInv n0 (g', fired)"
proof -
  from assms(2) obtain xs where l: "lives g' = lives g"
    and a: "(aliveShip g' = None) = (aliveShip g = None)"
    and d: "deferred g' = deferred g @ xs" and b: "benign xs"
    by (auto simp add: frameQuiet_def)
  from assms(1) have n: "n0 \<le> length (deferred g)" by (simp add: runInv_def)
  have p: "pendingRespawn g' fired i = pendingRespawn g fired i" for i
    by (rule pending_append_benign [OF d b])
  have go: "gameOversSince n0 g' = gameOversSince n0 g"
    using gameOvers_append [OF d n] benign_no_gameover [OF b] by simp
  from assms(1) have i1: "n0 \<le> length (deferred g)"
    and i2: "fired \<subseteq> {..<length (deferred g)}"
    and i3: "0 \<le> lives g"
    and i4: "aliveShip g \<noteq> None \<longrightarrow> 0 < lives g \<and> (\<forall>i. \<not> pendingRespawn g fired i)"
    and i5: "\<forall>i. pendingRespawn g fired i \<longrightarrow> 0 < lives g"
    and i6: "\<forall>i j. pendingRespawn g fired i \<longrightarrow> pendingRespawn g fired j \<longrightarrow> i = j"
    and i7: "gameOversSince n0 g = (if lives g = 0 then 1 else 0)"
    by (simp_all add: runInv_def)
  have a': "(aliveShip g' \<noteq> None) = (aliveShip g \<noteq> None)" using a by simp
  have j1: "n0 \<le> length (deferred g')" using i1 d by simp
  have j2: "fired \<subseteq> {..<length (deferred g')}" using i2 d by auto
  show ?thesis
    unfolding runInv_def prod.case l a' p go
    by (intro conjI j1 j2 i3 i4 i5 i6 i7)
qed

lemma runInv_death:
  assumes "runInv n0 (g, fired)" and "frameDeath r g g'"
  shows "runInv n0 (g', fired)"
proof -
  from assms(2) obtain xs where al: "aliveShip g \<noteq> None" and na: "aliveShip g' = None"
    and l: "lives g' = lives g - 1"
    and d: "deferred g' = deferred g @ deathLog r g @ xs" and b: "benign xs"
    by (auto simp add: frameDeath_def)
  from assms(1) al have n: "n0 \<le> length (deferred g)"
    and f: "fired \<subseteq> {..<length (deferred g)}"
    and pos: "0 < lives g" and np: "\<forall>i. \<not> pendingRespawn g fired i"
    and go: "gameOversSince n0 g = (if lives g = 0 then 1 else 0)"
    by (simp_all add: runInv_def)
  from go pos have go0: "gameOversSince n0 g = 0" by simp
  have n': "n0 \<le> length (deferred g')" and f': "fired \<subseteq> {..<length (deferred g')}"
    using n f d by auto
  have g1: "gameOversSince n0 g'
       = length (filter (\<lambda>d. d = GameOverTimeout) (deathLog r g))"
    using gameOvers_append [of g' g "deathLog r g @ xs" n0] d n go0 benign_no_gameover [OF b]
    by simp
  show ?thesis
  proof (cases "lives g - 1 \<le> 0")
    case True
    with pos have l0: "lives g' = 0" using l by simp
    have bb: "benign ([FetchAiCommentary game_over (Some (rScore r))] @ xs)"
      using b by (simp add: benign_def)
    have p: "\<not> pendingRespawn g' fired i" for i
    proof
      assume pi: "pendingRespawn g' fired i"
      have "deferred g' = deferred g @ (deathLog r g @ xs)" using d by simp
      moreover have "\<forall>x\<in>set (deathLog r g @ xs). \<not> isRespawn x"
        using True b by (auto simp add: deathLog_def benign_def)
      ultimately have "i < length (deferred g)"
        using pi unfolding pendingRespawn_def
        by (metis (no_types, lifting) length_append nth_append nth_mem add_diff_inverse_nat
              nat_add_left_cancel_less)
      with pi d have "pendingRespawn g fired i" by (simp add: pendingRespawn_def nth_append)
      with np show False by simp
    qed
    from True have "gameOversSince n0 g' = 1" using g1 by (simp add: deathLog_def)
    with n' f' l0 na p show ?thesis by (simp add: runInv_def)
  next
    case False
    then have lp: "0 < lives g'" using l by simp
    let ?k = "length (deferred g)"
    have dl: "deathLog r g = [RespawnTimeout (rLives r)]" using False by (simp add: deathLog_def)
    have p: "pendingRespawn g' fired i \<Longrightarrow> i = ?k" for i
    proof (rule ccontr)
      assume pi: "pendingRespawn g' fired i" and ne: "i \<noteq> ?k"
      show False
      proof (cases "i < ?k")
        case True
        with pi d have "pendingRespawn g fired i" by (simp add: pendingRespawn_def nth_append)
        with np show False by simp
      next
        case f: False
        with ne have gt: "?k < i" by simp
        from pi have il: "i < length (deferred g')" by (simp add: pendingRespawn_def)
        from gt il d dl have "deferred g' ! i = xs ! (i - ?k - 1)" and "i - ?k - 1 < length xs"
          by (simp_all add: nth_append nth_Cons')
        then have "deferred g' ! i \<in> set xs" by simp
        with b have "\<not> isRespawn (deferred g' ! i)" by (simp add: benign_def)
        with pi show False by (simp add: pendingRespawn_def)
      qed
    qed
    from g1 dl have "gameOversSince n0 g' = 0" by simp
    with n' f' lp na p show ?thesis
      unfolding runInv_def by (simp add: less_le) blast
  qed
qed

lemma runInv_start:
  assumes "g = startGame now canvas s" and "n0 = length (deferred g)"
  shows "runInv n0 (g, {..<n0})"
proof -
  have l: "lives g = 3"
    using assms(1) by (simp add: startGame_def resetShip_def Let_def split: option.splits)
  have p: "\<not> pendingRespawn g {..<n0} i" for i
    using assms(2) by (simp add: pendingRespawn_def)
  have go: "gameOversSince n0 g = 0" using assms(2) by (simp add: gameOversSince_def)
  from l p go assms(2) show ?thesis by (simp add: runInv_def)
qed

lemma runInv_respawn:
  assumes "runInv n0 (g, fired)" and "i < length (deferred g)" and "i \<notin> fired"
    and "deferred g ! i = RespawnTimeout k"
  shows "runInv n0 (respawnCallback k w h g, insert i fired)"
proof -
  from assms(2-4) have pi: "pendingRespawn g fired i" by (simp add: pendingRespawn_def)
  from assms(1) have i1: "n0 \<le> length (deferred g)"
    and i2: "fired \<subseteq> {..<length (deferred g)}"
    and i3: "0 \<le> lives g"
    and i4: "aliveShip g \<noteq> None \<longrightarrow> 0 < lives g \<and> (\<forall>i. \<not> pendingRespawn g fired i)"
    and i5: "\<forall>i. pendingRespawn g fired i \<longrightarrow> 0 < lives g"
    and i6: "\<forall>i j. pendingRespawn g fired i \<longrightarrow> pendingRespawn g fired j \<longrightarrow> i = j"
    and i7: "gameOversSince n0 g = (if lives g = 0 then 1 else 0)"
    by (simp_all add: runInv_def)
  let ?g = "respawnCallback k w h g"
  have d: "deferred ?g = deferred g" and l: "lives ?g = lives g"
    by (simp_all add: respawnCallback_def resetShip_def)
  have go: "gameOversSince n0 ?g = gameOversSince n0 g" by (simp add: gameOversSince_def d)
  have np: "\<not> pendingRespawn ?g (insert i fired) j" for j
  proof
    assume "pendingRespawn ?g (insert i fired) j"
    then have "pendingRespawn g fired j" and "j \<noteq> i" by (auto simp add: pendingRespawn_def d)
    with pi i6 show False by blast
  qed
  from pi i5 have pos: "0 < lives g" by blast
  from pi i4 have na: "aliveShip g = None" by blast
  have j2: "insert i fired \<subseteq> {..<length (deferred ?g)}" using i2 assms(2) d by auto
  show ?thesis
    unfolding runInv_def prod.case
    using i1 j2 pos np i7 by (simp add: d l go)
qed

lemma runInv_other:
  assumes "runInv n0 (g, fired)" and "lives g' = lives g"
    and "(aliveShip g' = None) = (aliveShip g = None)"
    and "deferred g' = deferred g @ xs"
    and "\<forall>d\<in>set xs. \<not> isRespawn d \<and> d \<noteq> GameOverTimeout"
  shows "runInv n0 (g', fired)"
proof -
  from assms(2-5) have "frameQuiet g g'" by (auto simp add: frameQuiet_def benign_def)
  with assms(1) show ?thesis by (rule runInv_quiet)
qed

lemma runs_invariant: "runs n0 c \<Longrightarrow> runInv n0 c"
proof (induction rule: runs.induct)
  case (start g now canvas s)
  then show ?case by (rule runInv_start)
next
  case (frame g fired r time now canvas)
  from animate_cases [of g r time now canvas] show ?case
  proof
    assume "frameQuiet g (animate r time now canvas g)"
    with frame.IH show ?thesis by (rule runInv_quiet)
  next
    assume "frameDeath r g (animate r time now canvas g)"
    with frame.IH show ?thesis by (rule runInv_death)
  qed
next
  case (respawn g fired i k width height)
  from respawn.IH respawn.hyps(2,3,4) show ?case by (rule runInv_respawn)
next
  case (other g fired g' xs)
  from other.IH other.hyps(2,3,4,5) show ?case by (rule runInv_other)
qed

text \<open>
  Bookkeeping of lives and of the calls of \<open>handleGameOver\<close>; the phase the game ends
  up in is not part of this statement.
  First conjunct, for any frame from any state: lives stay or drop by exactly one; a
  drop happens only to a craft that was alive and leaves it dead; \<open>handleGameOver\<close>
  runs in that frame once if lives dropped to 0 or below and not at all otherwise.
  Second conjunct, for every state of a game (\<open>runs\<close>): lives are not negative, and
  \<open>handleGameOver\<close> has run exactly once if lives are 0 and never otherwise.
\<close>

theorem lives_never_negative_game_over_once:
  "(let g' = animate r time now canvas g
    in (lives g' = lives g \<or> lives g' = lives g - 1)
     \<and> (lives g' < lives g \<longrightarrow> aliveShip g \<noteq> None \<and> aliveShip g' = None)
     \<and> gameOversSince (length (deferred g)) g'
         = (if lives g' < lives g \<and> lives g' \<le> 0 then 1 else 0))
   \<and> (runs n0 (g, fired) \<longrightarrow>
         0 \<le> lives g \<and> gameOversSince n0 g = (if lives g = 0 then 1 else 0))"
proof (intro conjI impI)
  let ?g = "animate r time now canvas g"
  have "(lives ?g = lives g \<or> lives ?g = lives g - 1)
     \<and> (lives ?g < lives g \<longrightarrow> aliveShip g \<noteq> None \<and> aliveShip ?g = None)
     \<and> gameOversSince (length (deferred g)) ?g
         = (if lives ?g < lives g \<and> lives ?g \<le> 0 then 1 else 0)"
    using animate_cases [of g r time now canvas]
  proof
    assume "frameQuiet g ?g"
    then obtain xs where "lives ?g = lives g" "deferred ?g = deferred g @ xs" "benign xs"
      by (auto simp add: frameQuiet_def)
    then show ?thesis
      using benign_no_gameover [of xs] by (simp add: gameOversSince_def)
  next
    assume "frameDeath r g ?g"
    then obtain xs where "aliveShip g \<noteq> None" "aliveShip ?g = None" "lives ?g = lives g - 1"
      "deferred ?g = deferred g @ deathLog r g @ xs" "benign xs"
      by (auto simp add: frameDeath_def)
    then show ?thesis
      using benign_no_gameover [of xs] by (simp add: gameOversSince_def deathLog_def)
  qed
  then show "let g' = animate r time now canvas g
    in (lives g' = lives g \<or> lives g' = lives g - 1)
     \<and> (lives g' < lives g \<longrightarrow> aliveShip g \<noteq> None \<and> aliveShip g' = None)
     \<and> gameOversSince (length (deferred g)) g'
         = (if lives g' < lives g \<and> lives g' \<le> 0 then 1 else 0)"
    unfolding Let_def .
next
  assume "runs n0 (g, fired)"
  then have "runInv n0 (g, fired)" by (rule runs_invariant)
  then show "0 \<le> lives g" and "gameOversSince n0 g = (if lives g = 0 then 1 else 0)"
    by (simp_all add: runInv_def)
qed

text \<open>
  Claim C9: a deferred respawn acts only when the life count is still positive and no
  death has triggered game over, so a craft is never respawned after the game has ended.
  In every state of a game, whenever a respawn timer that has not fired yet fires, lives
  are positive, \<open>handleGameOver\<close> has not run in this game and the craft is dead; the
  state after the callback is again a state of the game with positive lives and no
  game over.
\<close>

theorem deferred_respawn_only_during_game:
  assumes "runs n0 (g, fired)" and "i < length (deferred g)" and "i \<notin> fired"
    and "deferred g ! i = RespawnTimeout k"
  shows "0 < lives g \<and> gameOversSince n0 g = 0 \<and> aliveShip g = None
       \<and> runs n0 (respawnCallback k width height g, insert i fired)
       \<and> 0 < lives (respawnCallback k width height g)
       \<and> gameOversSince n0 (respawnCallback k width height g) = 0"
proof -
  from assms(1) have inv: "runInv n0 (g, fired)" by (rule runs_invariant)
  from assms(2-4) have pi: "pendingRespawn g fired i" by (simp add: pendingRespawn_def)
  from inv pi have pos: "0 < lives g" by (auto simp add: runInv_def)
  from inv pos have go: "gameOversSince n0 g = 0" by (simp add: runInv_def)
  from inv pi have na: "aliveShip g = None" by (auto simp add: runInv_def)
  have r: "runs n0 (respawnCallback k width height g, insert i fired)"
    using assms by (rule runs.respawn)
  have "lives (respawnCallback k width height g) = lives g"
    and "deferred (respawnCallback k width height g) = deferred g"
    by (simp_all add: respawnCallback_def resetShip_def)
  with pos go na r show ?thesis by (simp add: gameOversSince_def)
qed

lemma createExplosion_keeps:
  "lives (createExplosion p c n s) = lives s"
  "deferred (createExplosion p c n s) = deferred s"
  "gameState (createExplosion p c n s) = gameState s"
  "shipRef (createExplosion p c n s) = shipRef s"
  "ufoRef (createExplosion p c n s) = ufoRef s"
  "asteroidsRef (createExplosion p c n s) = asteroidsRef s"
  "isAiLoading (createExplosion p c n s) = isAiLoading s"
  by (simp_all add: createExplosion_def)

lemma crash_shipLogic:
  "shipLogic 0 800 600 (heroAt 100 100 0 0) (crashState n)
     = crashState n"
  by (simp add: crashState_def shipLogic_def decrementTimers_def applyTurn_def applyThrust_def
        shoot_def moved_def wrapPosition_def initialGame_def heroAt_def Let_def)

lemma crash_alive: "aliveShip (crashState n) = Some (heroAt 100 100 0 0)"
  by (simp add: crashState_def aliveShip_def heroAt_def)

lemma crash_logic:
  "shipAndUfoLogic playingRender 0 0 0 800 600 (crashState n) = crashState n"
proof -
  have "ufoLogic 0 0 800 600 (crashState n) = crashState n"
    by (simp add: ufoLogic_def crashState_def initialGame_def)
  then show ?thesis
    by (simp add: shipAndUfoLogic_def playingRender_def crash_alive crash_shipLogic)
qed

lemma crash_integrate: "integrateEntities 0 0 800 600 (crashState n) = crashState n"
  by (simp add: integrateEntities_def crashState_def initialGame_def asteroidStep_def rockAt_def
        moved_def wrapPosition_def Let_def)

lemma crash_pickups: "pickups (crashState n) = crashState n"
proof -
  have "powerUpsRef (crashState n) = []" by (simp add: crashState_def initialGame_def)
  then show ?thesis
    by (simp add: pickups_def crash_alive) (simp add: crashState_def)
qed

lemma crash_bullets: "bulletsPhase r 0 (crashState n) = crashState n"
  by (simp add: bulletsPhase_def crashState_def initialGame_def rockAt_def)

lemma crash_missiles: "missilesPhase 0 (crashState n) = crashState n"
  by (simp add: missilesPhase_def crashState_def initialGame_def)

lemma crash_bodies:
  "shipVsBodies r 0 (crashState n) = loseLife r (shipDies (heroAt 100 100 0 0) (crashState n))"
proof -
  have a: "list_ex (checkDeath (heroAt 100 100 0 0)) (asteroidsRef (crashState n))"
    by (simp add: crashState_def checkDeath_def checkCollision_def distance_def heroAt_def
          rockAt_def)
  have i: "invulnerable (heroAt 100 100 0 0) \<le> 0" by (simp add: heroAt_def)
  have u: "ufoRef (loseLife r (shipDies (heroAt 100 100 0 0) (crashState n))) = None"
    by (simp add: loseLife_keeps shipDies_keeps crashState_def initialGame_def)
  show ?thesis
    using a i u by (simp add: shipVsBodies_def crash_alive Let_def)
qed

lemma crash_frame:
  "animate playingRender 0 0 (Some (800, 600)) (crashState n)
     = loseLife playingRender (shipDies (heroAt 100 100 0 0) (crashState n))"
proof -
  have p: "(crashState n)\<lparr> previousTimeRef := 0 \<rparr> = crashState n"
    by (simp add: crashState_def initialGame_def)
  have d: "frameDt 0 (crashState n) = 0"
    by (simp add: frameDt_def crashState_def initialGame_def)
  have u: "updateLogic playingRender 0 0 0 800 600 (crashState n) = crashState n"
    by (simp add: updateLogic_def crash_logic crash_integrate)
  have c: "collisions playingRender 0 (crashState n)
     = loseLife playingRender (shipDies (heroAt 100 100 0 0) (crashState n))"
    by (simp add: collisions_def crash_pickups crash_bullets crash_missiles crash_bodies)
  have a: "asteroidsRef (loseLife playingRender (shipDies (heroAt 100 100 0 0) (crashState n)))
             \<noteq> []"
    by (simp add: loseLife_keeps shipDies_keeps crashState_def)
  show ?thesis
    by (simp add: animate_def simulate_def p d u c a levelClear_def playingRender_def)
      (simp add: playingRender_def [symmetric] u c a)
qed

lemma crash_result:
  "lives (animate playingRender 0 0 (Some (800, 600)) (crashState n)) = n - 1"
  "deferred (animate playingRender 0 0 (Some (800, 600)) (crashState n))
     = (if n - 1 \<le> 0 then [StartTimeout, FetchAiCommentary game_over (Some 0), GameOverTimeout]
        else [StartTimeout, RespawnTimeout 3])"
  unfolding crash_frame
  by (simp_all add: loseLife_def shipDies_def handleGameOver_def
        fetchAiCommentary_def createExplosion_keeps Let_def playingRender_def crashState_def)

lemma start_run:
  "runs 1 (startGame 0 (Some (800, 600)) (initialGame (\<lambda>k. 1/2)), {..<1})"
proof (rule runs.start)
  show "startGame 0 (Some (800, 600)) (initialGame (\<lambda>k. 1/2))
        = startGame 0 (Some (800, 600)) (initialGame (\<lambda>k. 1/2))" ..
  show "1 = length (deferred (startGame 0 (Some (800, 600)) (initialGame (\<lambda>k. 1/2))))"
    by (simp add: startGame_def resetShip_def initialGame_def Let_def)
qed

lemma crash_run: "runs 1 (crashState 3, {..<1})"
proof (rule runs.other [OF start_run])
  show "lives (crashState 3) = lives (startGame 0 (Some (800, 600)) (initialGame (\<lambda>k. 1/2)))"
    by (simp add: crashState_def startGame_def resetShip_def initialGame_def Let_def)
  show "(aliveShip (crashState 3) = None)
        = (aliveShip (startGame 0 (Some (800, 600)) (initialGame (\<lambda>k. 1/2))) = None)"
    by (simp add: crash_alive) (simp add: aliveShip_def startGame_def resetShip_def Let_def)
  show "deferred (crashState 3)
        = deferred (startGame 0 (Some (800, 600)) (initialGame (\<lambda>k. 1/2))) @ []"
    by (simp add: crashState_def startGame_def resetShip_def initialGame_def Let_def)
  show "\<forall>d\<in>set []. \<not> isRespawn d \<and> d \<noteq> GameOverTimeout" by simp
qed

theorem lives_never_negative_game_over_once_witness:
  "lives (animate playingRender 0 0 (Some (800, 600)) (crashState 1)) = 0
   \<and> gameOversSince (length (deferred (crashState 1)))
        (animate playingRender 0 0 (Some (800, 600)) (crashState 1)) = 1
   \<and> aliveShip (animate playingRender 0 0 (Some (800, 600)) (crashState 1)) = None
   \<and> 0 \<le> lives (startGame 0 (Some (800, 600)) (initialGame (\<lambda>k. 1/2)))
   \<and> gameOversSince 1 (startGame 0 (Some (800, 600)) (initialGame (\<lambda>k. 1/2))) = 0"
proof -
  let ?g = "crashState 1"
  let ?g' = "animate playingRender 0 0 (Some (800, 600)) ?g"
  let ?st = "startGame 0 (Some (800, 600)) (initialGame (\<lambda>k. 1/2))"
  have l: "lives ?g' = 0" by (simp add: crash_result)
  have l0: "lives ?g = 1" by (simp add: crashState_def)
  have l3: "lives ?st \<noteq> 0" by (simp add: startGame_def resetShip_def Let_def)
  from lives_never_negative_game_over_once
         [where r = playingRender and time = 0 and now = 0 and canvas = "Some (800, 600)"
            and g = ?g and ?n0.0 = 1 and fired = "{..<1}"] l l0
  have a: "gameOversSince (length (deferred ?g)) ?g' = 1" and b: "aliveShip ?g' = None"
    unfolding Let_def by simp_all
  have "runs 1 (?st, {..<1}) \<longrightarrow>
         0 \<le> lives ?st \<and> gameOversSince 1 ?st = (if lives ?st = 0 then 1 else 0)"
    by (rule conjunct2 [OF lives_never_negative_game_over_once
         [where r = playingRender and time = 0 and now = 0 and canvas = "Some (800, 600)"
            and g = ?st and ?n0.0 = 1 and fired = "{..<1}"]])
  with start_run have "0 \<le> lives ?st
      \<and> gameOversSince 1 ?st = (if lives ?st = 0 then 1 else 0)" by (rule rev_mp)
  with l3 have c: "0 \<le> lives ?st" and d: "gameOversSince 1 ?st = 0"
    by simp_all
  from l a b c d show ?thesis by simp
qed

theorem deferred_respawn_only_during_game_witness:
  "0 < lives (animate playingRender 0 0 (Some (800, 600)) (crashState 3))
   \<and> gameOversSince 1 (animate playingRender 0 0 (Some (800, 600)) (crashState 3)) = 0
   \<and> runs 1 (respawnCallback 3 800 600
               (animate playingRender 0 0 (Some (800, 600)) (crashState 3)),
             insert 1 {..<1})"
proof -
  let ?g = "animate playingRender 0 0 (Some (800, 600)) (crashState 3)"
  have r: "runs 1 (?g, {..<1})" using crash_run by (rule runs.frame)
  have d: "deferred ?g = [StartTimeout, RespawnTimeout 3]" by (simp add: crash_result)
  have h2: "1 < length (deferred ?g)" and h3: "(1::nat) \<notin> {..<1}"
    and h4: "deferred ?g ! 1 = RespawnTimeout 3"
    by (simp_all add: d)
  from deferred_respawn_only_during_game [OF r h2 h3 h4, of 800 600]
  show ?thesis by simp
qed

section \<open>Game over and level clear in the same frame\<close>

text \<open>
  The level-clear test at the end of \<open>animate\<close> reads the phase the frame was rendered
  with, not the phase \<open>handleGameOver\<close> has just set. \<open>lastStand\<close> is a state of a game
  (two crashes into an obstacle, each followed by its respawn, then the obstacle gone and
  the hostile unit on top of the craft).
\<close>

lemma crashLog_frame:
  "animate playingRender 0 0 (Some (800, 600)) (crashStateLog n l)
     = loseLife playingRender (shipDies (heroAt 100 100 0 0) (crashStateLog n l))"
proof -
  let ?c = "crashStateLog n l"
  have al: "aliveShip ?c = Some (heroAt 100 100 0 0)"
    by (simp add: crashStateLog_def crashState_def aliveShip_def heroAt_def)
  have sl: "shipLogic 0 800 600 (heroAt 100 100 0 0) ?c = ?c"
    by (simp add: crashStateLog_def crashState_def shipLogic_def decrementTimers_def
          applyTurn_def applyThrust_def shoot_def moved_def wrapPosition_def initialGame_def
          heroAt_def Let_def)
  have ul: "ufoLogic 0 0 800 600 ?c = ?c"
    by (simp add: ufoLogic_def crashStateLog_def crashState_def initialGame_def)
  have lg: "shipAndUfoLogic playingRender 0 0 0 800 600 ?c = ?c"
    by (simp add: shipAndUfoLogic_def playingRender_def al sl ul)
  have ig: "integrateEntities 0 0 800 600 ?c = ?c"
    by (simp add: integrateEntities_def crashStateLog_def crashState_def initialGame_def
          asteroidStep_def rockAt_def moved_def wrapPosition_def Let_def)
  have pu: "powerUpsRef ?c = []"
    by (simp add: crashStateLog_def crashState_def initialGame_def)
  have pk: "pickups ?c = ?c"
    using pu by (simp add: pickups_def al) (simp add: crashStateLog_def crashState_def)
  have bp: "bulletsPhase playingRender 0 ?c = ?c"
    by (simp add: bulletsPhase_def crashStateLog_def crashState_def initialGame_def rockAt_def)
  have mp: "missilesPhase 0 ?c = ?c"
    by (simp add: missilesPhase_def crashStateLog_def crashState_def initialGame_def)
  have a: "list_ex (checkDeath (heroAt 100 100 0 0)) (asteroidsRef ?c)"
    by (simp add: crashStateLog_def crashState_def checkDeath_def checkCollision_def
          distance_def heroAt_def rockAt_def)
  have i: "invulnerable (heroAt 100 100 0 0) \<le> 0" by (simp add: heroAt_def)
  have u: "ufoRef (loseLife playingRender (shipDies (heroAt 100 100 0 0) ?c)) = None"
    by (simp add: loseLife_keeps shipDies_keeps crashStateLog_def crashState_def initialGame_def)
  have sb: "shipVsBodies playingRender 0 ?c
              = loseLife playingRender (shipDies (heroAt 100 100 0 0) ?c)"
    using a i u by (simp add: shipVsBodies_def al Let_def)
  have p: "?c\<lparr> previousTimeRef := 0 \<rparr> = ?c"
    by (simp add: crashStateLog_def crashState_def initialGame_def)
  have d: "frameDt 0 ?c = 0"
    by (simp add: frameDt_def crashStateLog_def crashState_def initialGame_def)
  have up: "updateLogic playingRender 0 0 0 800 600 ?c = ?c"
    by (simp add: updateLogic_def lg ig)
  have c: "collisions playingRender 0 ?c
     = loseLife playingRender (shipDies (heroAt 100 100 0 0) ?c)"
    by (simp add: collisions_def pk bp mp sb)
  have na: "asteroidsRef (loseLife playingRender (shipDies (heroAt 100 100 0 0) ?c)) \<noteq> []"
    by (simp add: loseLife_keeps shipDies_keeps crashStateLog_def crashState_def)
  show ?thesis
    by (simp add: animate_def simulate_def p d up c na levelClear_def playingRender_def)
      (simp add: playingRender_def [symmetric] up c na)
qed

lemma crashLog_result:
  "lives (animate playingRender 0 0 (Some (800, 600)) (crashStateLog n l)) = n - 1"
  "deferred (animate playingRender 0 0 (Some (800, 600)) (crashStateLog n l))
     = l @ (if n - 1 \<le> 0 then [FetchAiCommentary game_over (Some 0), GameOverTimeout]
            else [RespawnTimeout 3])"
  unfolding crashLog_frame
  by (simp_all add: loseLife_def shipDies_def handleGameOver_def
        fetchAiCommentary_def createExplosion_keeps Let_def playingRender_def crashStateLog_def
        crashState_def)

lemma lastStand_frame:
  "animate playingRender 0 0 (Some (800, 600)) lastStand
     = startNextLevel playingRender
         (loseLife playingRender
           ((createExplosion (position (saucerAt 100 100)) (color (saucerAt 100 100)) 20
               (shipDies (heroAt 100 100 0 0) lastStand))
            \<lparr> ufoRef := None, lastUfoSpawnTimeRef := 0 \<rparr>))"
proof -
  let ?c = "lastStand"
  let ?k = "loseLife playingRender
           ((createExplosion (position (saucerAt 100 100)) (color (saucerAt 100 100)) 20
               (shipDies (heroAt 100 100 0 0) lastStand))
            \<lparr> ufoRef := None, lastUfoSpawnTimeRef := 0 \<rparr>)"
  have al: "aliveShip ?c = Some (heroAt 100 100 0 0)"
    by (simp add: lastStand_def aliveShip_def heroAt_def)
  have sl: "shipLogic 0 800 600 (heroAt 100 100 0 0) ?c = ?c"
    by (simp add: lastStand_def shipLogic_def decrementTimers_def
          applyTurn_def applyThrust_def shoot_def moved_def wrapPosition_def initialGame_def
          heroAt_def Let_def)
  have ul: "ufoLogic 0 0 800 600 ?c = ?c"
    by (simp add: ufoLogic_def lastStand_def initialGame_def saucerAt_def moved_def
          aliveShip_def heroAt_def Let_def)
  have lg: "shipAndUfoLogic playingRender 0 0 0 800 600 ?c = ?c"
    by (simp add: shipAndUfoLogic_def playingRender_def al sl ul)
  have ig: "integrateEntities 0 0 800 600 ?c = ?c"
    by (simp add: integrateEntities_def lastStand_def initialGame_def Let_def)
  have pu: "powerUpsRef ?c = []"
    by (simp add: lastStand_def initialGame_def)
  have pk: "pickups ?c = ?c"
    using pu by (simp add: pickups_def al) (simp add: lastStand_def)
  have bp: "bulletsPhase playingRender 0 ?c = ?c"
    by (simp add: bulletsPhase_def lastStand_def initialGame_def)
  have mp: "missilesPhase 0 ?c = ?c"
    by (simp add: missilesPhase_def lastStand_def initialGame_def)
  have a: "asteroidsRef ?c = []" by (simp add: lastStand_def initialGame_def)
  have uf: "ufoRef ?c = Some (saucerAt 100 100)" by (simp add: lastStand_def)
  have i: "invulnerable (heroAt 100 100 0 0) \<le> 0" by (simp add: heroAt_def)
  have cd: "checkDeath (heroAt 100 100 0 0) (saucerAt 100 100)"
    by (simp add: checkDeath_def checkCollision_def distance_def heroAt_def saucerAt_def)
  have sb: "shipVsBodies playingRender 0 ?c = ?k"
    using a uf i cd by (simp add: shipVsBodies_def al Let_def)
  have p: "?c\<lparr> previousTimeRef := 0 \<rparr> = ?c"
    by (simp add: lastStand_def initialGame_def)
  have d: "frameDt 0 ?c = 0"
    by (simp add: frameDt_def lastStand_def initialGame_def)
  have up: "updateLogic playingRender 0 0 0 800 600 ?c = ?c"
    by (simp add: updateLogic_def lg ig)
  have c: "collisions playingRender 0 ?c = ?k"
    by (simp add: collisions_def pk bp mp sb)
  have na: "asteroidsRef ?k = []" and nu: "ufoRef ?k = None"
    by (simp_all add: loseLife_keeps shipDies_keeps createExplosion_keeps a)
  have lc: "levelClear playingRender ?k = startNextLevel playingRender ?k"
    using na nu by (simp add: levelClear_def playingRender_def)
  have "simulate playingRender 0 0 800 600 ?c = levelClear playingRender ?k"
    using up c by (simp add: simulate_def Let_def) (simp add: playingRender_def)
  then show ?thesis
    by (simp add: animate_def p d lc)
qed

lemma lastStand_result:
  "lives (animate playingRender 0 0 (Some (800, 600)) lastStand) = 0"
  "gameState (animate playingRender 0 0 (Some (800, 600)) lastStand) = LEVEL_TRANSITION"
  "level (animate playingRender 0 0 (Some (800, 600)) lastStand) = 2"
  "deferred (animate playingRender 0 0 (Some (800, 600)) lastStand)
     = [StartTimeout, RespawnTimeout 3, RespawnTimeout 3,
        FetchAiCommentary game_over (Some 0), GameOverTimeout,
        FetchAiCommentary level_clear None, NextLevelTimeout 2]"
  unfolding lastStand_frame
  by (simp_all add: startNextLevel_def loseLife_def shipDies_def handleGameOver_def
        fetchAiCommentary_def createExplosion_keeps Let_def playingRender_def lastStand_def)

lemma respawn_alive: "0 < k \<Longrightarrow> aliveShip (respawnCallback k w h g) \<noteq> None"
  by (simp add: respawnCallback_def resetShip_def aliveShip_def)

lemma respawn_keeps:
  "lives (respawnCallback k w h g) = lives g"
  "deferred (respawnCallback k w h g) = deferred g"
  by (simp_all add: respawnCallback_def resetShip_def)

lemma lastStand_run: "runs 1 (lastStand, insert 2 (insert 1 {..<1}))"
proof -
  let ?f1 = "animate playingRender 0 0 (Some (800, 600)) (crashState 3)"
  let ?c2 = "crashStateLog 2 [StartTimeout, RespawnTimeout 3]"
  let ?f2 = "animate playingRender 0 0 (Some (800, 600)) ?c2"
  have r1: "runs 1 (?f1, {..<1})" using crash_run by (rule runs.frame)
  have d1: "deferred ?f1 = [StartTimeout, RespawnTimeout 3]" and l1: "lives ?f1 = 2"
    by (simp_all add: crash_result)
  have r2: "runs 1 (respawnCallback 3 800 600 ?f1, insert 1 {..<1})"
    by (rule runs.respawn [OF r1]) (simp_all add: d1)
  have r3: "runs 1 (?c2, insert 1 {..<1})"
  proof (rule runs.other [OF r2])
    show "lives ?c2 = lives (respawnCallback 3 800 600 ?f1)"
      by (simp add: respawn_keeps l1) (simp add: crashStateLog_def crashState_def)
    show "(aliveShip ?c2 = None) = (aliveShip (respawnCallback 3 800 600 ?f1) = None)"
      using respawn_alive [of 3 800 600 ?f1]
      by (simp add: crashStateLog_def crashState_def aliveShip_def heroAt_def)
    show "deferred ?c2 = deferred (respawnCallback 3 800 600 ?f1) @ []"
      by (simp add: respawn_keeps d1) (simp add: crashStateLog_def)
    show "\<forall>d\<in>set []. \<not> isRespawn d \<and> d \<noteq> GameOverTimeout" by simp
  qed
  have r4: "runs 1 (?f2, insert 1 {..<1})" using r3 by (rule runs.frame)
  have d2: "deferred ?f2 = [StartTimeout, RespawnTimeout 3, RespawnTimeout 3]"
    and l2: "lives ?f2 = 1"
    by (simp_all add: crashLog_result)
  have r5: "runs 1 (respawnCallback 3 800 600 ?f2, insert 2 (insert 1 {..<1}))"
    by (rule runs.respawn [OF r4]) (simp_all add: d2)
  show ?thesis
  proof (rule runs.other [OF r5])
    show "lives lastStand = lives (respawnCallback 3 800 600 ?f2)"
      by (simp add: respawn_keeps l2) (simp add: lastStand_def)
    show "(aliveShip lastStand = None) = (aliveShip (respawnCallback 3 800 600 ?f2) = None)"
      using respawn_alive [of 3 800 600 ?f2]
      by (simp add: lastStand_def aliveShip_def heroAt_def)
    show "deferred lastStand = deferred (respawnCallback 3 800 600 ?f2) @ []"
      by (simp add: respawn_keeps d2) (simp add: lastStand_def)
    show "\<forall>d\<in>set []. \<not> isRespawn d \<and> d \<noteq> GameOverTimeout" by simp
  qed
qed

text \<open>
  Claim C8: the lives counter never goes below 0 and lives reaching 0 triggers the
  transition to GameOver exactly once; within one frame the craft dies at most once.
  The code departs from this on the last life. In \<open>lastStand\<close> the phase is Playing, one
  life is left, no obstacle is left and the vulnerable craft overlaps the hostile unit.
  The frame takes the last life and calls \<open>handleGameOver\<close> once (lives 0, one game-over
  timer logged), the collision removes the hostile unit, and the level-clear test, which
  still reads Playing, calls \<open>startNextLevel\<close>: the frame ends in the phase
  LevelTransition, not GameOver, at level 2, with the next-level timer pending behind
  the game-over timer.
\<close>

theorem game_over_overwritten_by_level_clear:
  "gameState lastStand = PLAYING \<and> lives lastStand = 1
   \<and> asteroidsRef lastStand = [] \<and> ufoRef lastStand = Some (saucerAt 100 100)
   \<and> aliveShip lastStand = Some (heroAt 100 100 0 0)
   \<and> lives (animate playingRender 0 0 (Some (800, 600)) lastStand) = 0
   \<and> gameOversSince 1 (animate playingRender 0 0 (Some (800, 600)) lastStand) = 1
   \<and> gameState (animate playingRender 0 0 (Some (800, 600)) lastStand) = LEVEL_TRANSITION
   \<and> gameState (animate playingRender 0 0 (Some (800, 600)) lastStand) \<noteq> GAME_OVER
   \<and> level (animate playingRender 0 0 (Some (800, 600)) lastStand) = 2
   \<and> deferred (animate playingRender 0 0 (Some (800, 600)) lastStand)
       = [StartTimeout, RespawnTimeout 3, RespawnTimeout 3,
          FetchAiCommentary game_over (Some 0), GameOverTimeout,
          FetchAiCommentary level_clear None, NextLevelTimeout 2]"
proof -
  have "gameState lastStand = PLAYING" "lives lastStand = 1" "asteroidsRef lastStand = []"
    "ufoRef lastStand = Some (saucerAt 100 100)"
    "aliveShip lastStand = Some (heroAt 100 100 0 0)"
    by (simp_all add: lastStand_def initialGame_def aliveShip_def heroAt_def)
  moreover have "gameOversSince 1 (animate playingRender 0 0 (Some (800, 600)) lastStand) = 1"
    by (simp add: gameOversSince_def lastStand_result)
  ultimately show ?thesis
    by (simp add: lastStand_result)
qed

end
